(* ===== verification/Prelude.thy ===== *)
theory Prelude
  imports Main "HOL-Library.Word"
begin

text \<open>
  Shared vocabulary of the development: the machine integer types of the C and C++ sources,
  the outcome type of code that touches memory through pointers, and the generic facts on
  lists and words that the component theories use.

  A function whose C++ text reads or writes through a pointer returns \<open>fault + 'a\<close>: the
  left summand is an access outside the object the pointer designates (undefined behaviour in
  C++), a dereferenced null pointer, a division by zero or a call that aborts the process, the
  right summand an ordinary return.  Memory safety of such a function is then the statement
  that its result is \<open>Inr\<close>.

  Concurrent components are labelled step relations; \<open>run\<close> closes such a relation over a
  sequence of labels, the locale \<open>step_system\<close> carries an invariant over every run, and
  \<open>forward_simulation\<close> a run over to the specification it refines.
\<close>

unbundle bit_operations_syntax

subsection \<open>Machine types\<close>

type_synonym u8 = "8 word"
type_synonym u16 = "16 word"
type_synonym u32 = "32 word"
type_synonym u64 = "64 word"

datatype fault = OobRead | OobWrite | NullDeref | Abort | DivZero

type_synonym 'a mem = "fault + 'a"

definition mbind :: "'e + 'a \<Rightarrow> ('a \<Rightarrow> 'e + 'b) \<Rightarrow> 'e + 'b" where
  "mbind m k = (case m of Inl e \<Rightarrow> Inl e | Inr a \<Rightarrow> k a)"

text \<open>The computation returns, with a result of which \<open>Q\<close> holds.\<close>

definition ensures :: "'e + 'a \<Rightarrow> ('a \<Rightarrow> bool) \<Rightarrow> bool" where
  "ensures m Q = (case m of Inl _ \<Rightarrow> False | Inr a \<Rightarrow> Q a)"

text \<open>
  Writing the list \<open>w\<close> from the start of an object of \<open>cap\<close> elements.
\<close>

definition store_into :: "nat \<Rightarrow> 'a list \<Rightarrow> 'a list mem" where
  "store_into cap w = (if length w \<le> cap then Inr w else Inl OobWrite)"

text \<open>Reading the bits of an \<open>int\<close> result as the two's complement value of width 32.\<close>

definition wrap32 :: "int \<Rightarrow> int" where
  "wrap32 x = (x + 2 ^ 31) mod 2 ^ 32 - 2 ^ 31"

text \<open>C's integer division truncates towards zero.\<close>

definition cdiv :: "int \<Rightarrow> int \<Rightarrow> int" where
  "cdiv a b = sgn a * sgn b * (\<bar>a\<bar> div \<bar>b\<bar>)"

text \<open>The least multiple of \<open>2 ^ k\<close> that is not below \<open>n\<close>.\<close>

definition align_up :: "nat \<Rightarrow> nat \<Rightarrow> nat" where
  "align_up k n = (n + 2 ^ k - 1) div 2 ^ k * 2 ^ k"

subsection \<open>Decimal numbers\<close>

fun show_nat :: "nat \<Rightarrow> string" where
  "show_nat n =
     (if n < 10 then [char_of (48 + n)] else show_nat (n div 10) @ [char_of (48 + n mod 10)])"

declare show_nat.simps [simp del]

definition is_digit :: "char \<Rightarrow> bool" where
  "is_digit c = (48 \<le> (of_char c :: nat) \<and> (of_char c :: nat) \<le> 57)"

definition dec_value :: "string \<Rightarrow> nat" where
  "dec_value ds = foldl (\<lambda>n c. 10 * n + (of_char c - 48)) 0 ds"

subsection \<open>Runs of a step relation\<close>

inductive run :: "('l \<Rightarrow> 's \<Rightarrow> 's \<Rightarrow> bool) \<Rightarrow> 's \<Rightarrow> 'l list \<Rightarrow> 's \<Rightarrow> bool"
  for step where
  run_Nil: "run step s [] s"
| run_Cons: "step l s t \<Longrightarrow> run step t ls u \<Longrightarrow> run step s (l # ls) u"

inductive_simps run_Nil_iff [simp]: "run step s [] t"
inductive_simps run_Cons_iff: "run step s (l # ls) t"

locale step_system =
  fixes step :: "'l \<Rightarrow> 's \<Rightarrow> 's \<Rightarrow> bool"
    and keep :: "'l \<Rightarrow> bool"
    and inv :: "'s \<Rightarrow> bool"
  assumes inv_step: "step l s t \<Longrightarrow> keep l \<Longrightarrow> inv s \<Longrightarrow> inv t"
begin

lemma inv_run: "run step s ls t \<Longrightarrow> list_all keep ls \<Longrightarrow> inv s \<Longrightarrow> inv t"
  by (induction rule: run.induct) (auto intro: inv_step)

end

text \<open>
  A forward simulation: every step from a state of the invariant is, on the abstraction of the
  states, a step of the specification.
\<close>

locale forward_simulation = step_system +
  fixes spec :: "'l \<Rightarrow> 'a \<Rightarrow> 'a \<Rightarrow> bool"
    and abs_of :: "'s \<Rightarrow> 'a"
  assumes sim_step: "step l s t \<Longrightarrow> keep l \<Longrightarrow> inv s \<Longrightarrow> spec l (abs_of s) (abs_of t)"
begin

lemma sim_run: "run step s ls t \<Longrightarrow> list_all keep ls \<Longrightarrow> inv s \<Longrightarrow> run spec (abs_of s) ls (abs_of t)"
proof (induction rule: run.induct)
  case (run_Cons l s t ls u)
  then show ?case by (auto intro: run.run_Cons [where t = "abs_of t"] sim_step inv_step)
qed (rule run_Nil)

end

subsection \<open>Collections\<close>

named_theorems mem_simps \<open>unfolding the outcome monad\<close>
named_theorems word_bounds \<open>numeric bounds of masked and shifted words\<close>

subsection \<open>The outcome monad\<close>

lemma mbind_Inl [simp, mem_simps]: "mbind (Inl e) k = Inl e"
  by (simp add: mbind_def)

lemma mbind_Inr [simp, mem_simps]: "mbind (Inr a) k = k a"
  by (simp add: mbind_def)

lemma mbind_eq_Inr_iff: "mbind m k = Inr b \<longleftrightarrow> (\<exists>a. m = Inr a \<and> k a = Inr b)"
  by (cases m) auto

lemma mbind_eq_Inl_iff:
  "mbind m k = Inl e \<longleftrightarrow> m = Inl e \<or> (\<exists>a. m = Inr a \<and> k a = Inl e)"
  by (cases m) auto

lemma mbind_cong [fundef_cong]:
  "m = m' \<Longrightarrow> (\<And>a. m' = Inr a \<Longrightarrow> k a = k' a) \<Longrightarrow> mbind m k = mbind m' k'"
  by (cases m') auto

lemma mbind_assoc: "mbind (mbind m f) g = mbind m (\<lambda>a. mbind (f a) g)"
  by (cases m) auto

lemma ensures_Inr [simp]: "ensures (Inr a) Q = Q a"
  by (simp add: ensures_def)

lemma ensures_iff: "ensures m Q \<longleftrightarrow> (\<exists>a. m = Inr a \<and> Q a)"
  by (cases m) (simp_all add: ensures_def)

lemma ensures_mbind:
  "ensures m P \<Longrightarrow> (\<And>a. P a \<Longrightarrow> ensures (k a) Q) \<Longrightarrow> ensures (mbind m k) Q"
  by (auto simp: ensures_iff)

lemma ensures_mono: "ensures m P \<Longrightarrow> (\<And>a. P a \<Longrightarrow> Q a) \<Longrightarrow> ensures m Q"
  by (auto simp: ensures_iff)

lemma store_into_fits [simp]: "length w \<le> cap \<Longrightarrow> store_into cap w = Inr w"
  by (simp add: store_into_def)

subsection \<open>Signed arithmetic\<close>

lemma wrap32_id: "- (2 ^ 31) \<le> x \<Longrightarrow> x < 2 ^ 31 \<Longrightarrow> wrap32 x = x"
  by (simp add: wrap32_def)

lemma wrap32_range: "- (2 ^ 31) \<le> wrap32 x \<and> wrap32 x < 2 ^ 31"
proof -
  have "0 \<le> (x + 2 ^ 31) mod 2 ^ 32" "(x + 2 ^ 31) mod 2 ^ 32 < (2 ^ 32 :: int)"
    by simp_all
  then show ?thesis
    by (simp add: wrap32_def)
qed

lemma cdiv_nonneg: "0 \<le> a \<Longrightarrow> 0 < b \<Longrightarrow> cdiv a b = a div b"
  by (cases "a = 0") (simp_all add: cdiv_def)

lemma cdiv_error:
  assumes "0 < b"
  shows "\<bar>a - cdiv a b * b\<bar> < b"
proof (cases "0 \<le> a")
  case True
  then have "cdiv a b * b = a - a mod b"
    using assms by (simp add: cdiv_nonneg minus_mod_eq_div_mult [symmetric])
  with assms show ?thesis by simp
next
  case False
  then have "cdiv a b * b = - (- a - (- a) mod b)"
    using assms by (simp add: cdiv_def minus_mod_eq_div_mult [symmetric])
  with assms show ?thesis by simp
qed

subsection \<open>Words\<close>

lemma unat_word_less [word_bounds]: "unat (w :: 'a::len word) < 2 ^ LENGTH('a)"
  by (rule unsigned_less)

lemma unat_add_no_wrap:
  "unat (a :: 'a::len word) + unat b < 2 ^ LENGTH('a) \<Longrightarrow> unat (a + b) = unat a + unat b"
  by (simp add: unat_word_ariths)

lemma bit_word_less_exp:
  fixes x :: "'a::len word"
  assumes "unat x < 2 ^ n" and "bit x m"
  shows "m < n"
proof -
  have "bit (take_bit n (unat x)) m"
    using assms by (simp add: take_bit_nat_eq_self bit_unsigned_iff)
  then show ?thesis by (simp add: bit_take_bit_iff)
qed

lemma unat_less_exp_if_bits:
  fixes x :: "'a::len word"
  assumes "\<And>m. bit x m \<Longrightarrow> m < n"
  shows "unat x < 2 ^ n"
proof -
  have "take_bit n (unat x) = unat x"
    using assms by (intro bit_eqI) (auto simp: bit_take_bit_iff bit_unsigned_iff)
  moreover have "take_bit n (unat x) < 2 ^ n"
    by (rule take_bit_nat_less_exp)
  ultimately show ?thesis by simp
qed

lemma unat_ucast_small:
  "unat (x :: 'a::len word) < 2 ^ LENGTH('b) \<Longrightarrow> unat (ucast x :: 'b::len word) = unat x"
  by (simp add: unsigned_ucast_eq unsigned_take_bit_eq take_bit_nat_eq_self)

lemma unat_and_le [word_bounds]: "unat ((x :: 'a::len word) AND y) \<le> unat y"
  by (rule word_and_le1 [THEN word_le_nat_alt [THEN iffD1]])

lemma and_3f_take_bit: "(x :: 'a::len word) AND 0x3f = take_bit 6 x"
  by (simp add: take_bit_eq_mask mask_eq_exp_minus_1)

subsection \<open>Rounding up to a power of two\<close>

lemma align_up_ge: "n \<le> align_up k n"
proof -
  have "(n + 2 ^ k - 1) mod 2 ^ k < (2 :: nat) ^ k" by simp
  moreover have "(n + 2 ^ k - 1) div 2 ^ k * 2 ^ k + (n + 2 ^ k - 1) mod 2 ^ k = n + 2 ^ k - 1"
    by (rule div_mult_mod_eq)
  ultimately show ?thesis unfolding align_up_def by linarith
qed

lemma align_up_less: "align_up k n < n + 2 ^ k"
proof -
  have "align_up k n \<le> n + 2 ^ k - 1" by (simp add: align_up_def)
  moreover have "(0 :: nat) < 2 ^ k" by simp
  ultimately show ?thesis by linarith
qed

lemma align_up_dvd: "2 ^ k dvd align_up k n"
  by (simp add: align_up_def)

lemma and_not_mask: "(a :: 'a::ring_bit_operations) AND NOT (mask k) = a - take_bit k a"
proof -
  have "a - take_bit k a = a AND NOT (take_bit k a)"
    by (rule disjunctive_diff) (simp add: bit_take_bit_iff)
  also have "\<dots> = a AND NOT (mask k)"
    by (rule bit_eqI) (auto simp: bit_simps)
  finally show ?thesis by simp
qed

lemma unat_and_not_mask:
  "unat ((y :: 'a::len word) AND NOT (mask k)) = unat y div 2 ^ k * 2 ^ k"
proof -
  have t: "unat (take_bit k y) = unat y mod 2 ^ k"
    unfolding unsigned_take_bit_eq by (rule take_bit_eq_mod)
  then have "take_bit k y \<le> y"
    by (simp add: word_le_nat_alt)
  with t have "unat (y - take_bit k y) = unat y - unat y mod 2 ^ k"
    by (simp add: unat_sub)
  then show ?thesis
    by (simp add: and_not_mask minus_mod_eq_div_mult)
qed

text \<open>A property of all bytes below a bound, checked byte by byte.\<close>

lemma byte_less_cases:
  assumes "list_all P (map of_nat [0..<n])" and "unat (x :: u8) < n"
  shows "P x"
proof -
  have "unat x \<in> set [0..<n]"
    using assms(2) by simp
  then have "P (word_of_nat (unat x))"
    using assms(1) unfolding list_all_iff set_map by blast
  then show ?thesis by simp
qed

subsection \<open>Decimal numbers, facts\<close>

lemma show_nat_length: "1 \<le> k \<Longrightarrow> n < 10 ^ k \<Longrightarrow> length (show_nat n) \<le> k"
proof (induction n arbitrary: k rule: show_nat.induct)
  case (1 n)
  show ?case
  proof (cases "n < 10")
    case True
    with "1.prems" show ?thesis by (subst show_nat.simps) simp
  next
    case False
    with "1.prems" have "k \<noteq> 1" by auto
    with "1.prems" have k: "k = Suc (k - 1)" "1 \<le> k - 1" by auto
    have "n < 10 * 10 ^ (k - 1)"
      using "1.prems"(2) by (subst (asm) k(1)) simp
    then have "n div 10 < 10 ^ (k - 1)" by auto
    with "1.IH" [OF False k(2)] False k(2) show ?thesis by (subst show_nat.simps) simp
  qed
qed

lemma show_nat_digits: "show_nat n \<noteq> [] \<and> list_all is_digit (show_nat n) \<and> dec_value (show_nat n) = n"
proof (induction n rule: show_nat.induct)
  case (1 n)
  have d: "(of_char (char_of (48 + m)) :: nat) = 48 + m" if "m < 10" for m :: nat
    using that by simp
  show ?case
  proof (cases "n < 10")
    case True
    then show ?thesis by (subst (1 2 3) show_nat.simps) (simp add: is_digit_def dec_value_def d)
  next
    case False
    then have s: "show_nat n = show_nat (n div 10) @ [char_of (48 + n mod 10)]"
      by (subst show_nat.simps) simp
    have m: "n mod 10 < 10" by simp
    show ?thesis
      using "1.IH" [OF False] unfolding s
      by (simp only: list_all_append dec_value_def foldl_append foldl_Cons foldl_Nil d [OF m] is_digit_def list.pred_inject) simp
  qed
qed

end
