(* ===== verification/Jstring.thy ===== *)
theory Jstring
  imports Prelude
begin

text \<open>
  The string conversions of \<^verbatim>\<open>hardware/dpm\<close> (\<^verbatim>\<open>strdup16to8.cpp\<close>,
  \<^verbatim>\<open>strdup8to16.cpp\<close>, \<^verbatim>\<open>jstring.h\<close>): Java-style UTF-16 code units
  to modified UTF-8 and back.  A \<^verbatim>\<open>char16_t*\<close> with its length is a list of 16-bit
  words, a C string a list of bytes that holds its terminator; \<^verbatim>\<open>size_t\<close> is 64 bits
  wide, as on the device.  \<^verbatim>\<open>malloc\<close> is a parameter that says which requests succeed.

  Shown here: both length functions give a buffer the matching copy function stays inside, the
  length is exact and saturates instead of wrapping, and decoding undoes encoding for every
  sequence of code units.
\<close>

unbundle bit_operations_syntax

section \<open>Definitions\<close>

subsection \<open>strdup16to8.cpp\<close>

definition SIZE_MAX :: u64 where
  "SIZE_MAX = 0xffffffffffffffff"

text \<open>The increment both loops of \<^verbatim>\<open>strnlen16to8\<close> make for one code unit.\<close>

definition utf8_incr :: "u16 \<Rightarrow> u64" where
  "utf8_incr c =
     (let uic = (ucast c :: u32)
      in if uic > 0x07ff then 3 else if uic > 0x7f \<or> uic = 0 then 2 else 1)"

fun strnlen16to8_fast :: "u16 list \<Rightarrow> nat \<Rightarrow> u64 \<Rightarrow> u64 mem" where
  "strnlen16to8_fast s 0 utf8Len = Inr utf8Len"
| "strnlen16to8_fast [] (Suc len) utf8Len = Inl OobRead"
| "strnlen16to8_fast (c # s) (Suc len) utf8Len =
     strnlen16to8_fast s len (utf8Len + utf8_incr c)"

fun strnlen16to8_slow :: "u16 list \<Rightarrow> nat \<Rightarrow> u64 \<Rightarrow> u64 mem" where
  "strnlen16to8_slow s 0 utf8Len =
     Inr (if utf8Len = SIZE_MAX then SIZE_MAX - 1 else utf8Len)"
| "strnlen16to8_slow [] (Suc len) utf8Len = Inl OobRead"
| "strnlen16to8_slow (c # s) (Suc len) utf8Len =
     (let utf8Cur = utf8Len; utf8Len' = utf8Len + utf8_incr c
      in if utf8Len' < utf8Cur then Inr (SIZE_MAX - 1)
         else strnlen16to8_slow s len utf8Len')"

definition strnlen16to8 :: "u16 list \<Rightarrow> u64 \<Rightarrow> u64 mem" where
  "strnlen16to8 utf16Str len =
     (if len < (SIZE_MAX - 1) div 3 then strnlen16to8_fast utf16Str (unat len) 0
      else strnlen16to8_slow utf16Str (unat len) 0)"

text \<open>
  The bytes \<^verbatim>\<open>strncpy16to8\<close> stores, in order, its terminator last.  The test for a
  zero unit in the one-byte branch is the source's own; a zero unit never gets there.
\<close>

fun strncpy16to8 :: "u16 list \<Rightarrow> nat \<Rightarrow> u8 list mem" where
  "strncpy16to8 s 0 = Inr [0]"
| "strncpy16to8 [] (Suc len) = Inl OobRead"
| "strncpy16to8 (c # s) (Suc len) =
     (let uic = (ucast c :: u32)
      in if uic > 0x07ff then
           mbind (strncpy16to8 s len) (\<lambda>bs.
             Inr (ucast (drop_bit 12 uic OR 0xe0)
                  # ucast ((drop_bit 6 uic AND 0x3f) OR 0x80)
                  # ucast ((uic AND 0x3f) OR 0x80) # bs))
         else if uic > 0x7f \<or> uic = 0 then
           mbind (strncpy16to8 s len) (\<lambda>bs.
             Inr (ucast (drop_bit 6 uic OR 0xc0)
                  # ucast ((uic AND 0x3f) OR 0x80) # bs))
         else if uic = 0 then Inr [ucast uic, 0]
         else mbind (strncpy16to8 s len) (\<lambda>bs. Inr (ucast uic # bs)))"

definition strndup16to8 ::
  "(u64 \<Rightarrow> bool) \<Rightarrow> u16 list option \<Rightarrow> u64 \<Rightarrow> u8 list option mem" where
  "strndup16to8 malloc s n =
     (case s of
        None \<Rightarrow> Inr None
      | Some str \<Rightarrow>
          mbind (strnlen16to8 str n) (\<lambda>len.
            if len \<ge> SIZE_MAX - 1 then Inr None
            else if \<not> malloc (len + 1) then Inr None
            else mbind (strncpy16to8 str (unat n)) (\<lambda>w.
                   mbind (store_into (unat (len + 1)) w) (\<lambda>ret. Inr (Some ret)))))"

subsection \<open>strdup8to16.cpp\<close>

definition UTF16_REPLACEMENT_CHAR :: u32 where
  "UTF16_REPLACEMENT_CHAR = 0xfffd"

definition UNICODE_UPPER_LIMIT :: u32 where
  "UNICODE_UPPER_LIMIT = 0x10fffd"

text \<open>
  The macro on a byte promoted to \<^verbatim>\<open>int\<close>.  Only bits 4 to 7 of the byte reach the
  result, so whether \<^verbatim>\<open>char\<close> is signed makes no difference.
\<close>

definition UTF8_SEQ_LENGTH :: "u32 \<Rightarrow> nat" where
  "UTF8_SEQ_LENGTH ch =
     unat (drop_bit (unat (drop_bit 3 ch AND 0x1e)) (0xe5000000 :: u32) AND 3) + 1"

fun strlen8to16_loop :: "u8 list \<Rightarrow> int \<Rightarrow> u64 \<Rightarrow> u64 mem" where
  "strlen8to16_loop [] expected len = Inl OobRead"
| "strlen8to16_loop (ic # s) expected len =
     (if ic = 0 then Inr len
      else if ic AND 0xc0 = 0x80 then
        (let expected' = expected - 1
         in strlen8to16_loop s expected' (if expected' < 0 then len + 1 else len))
      else
        (let expected' = int (UTF8_SEQ_LENGTH (ucast ic)) - 1; len' = len + 1
         in strlen8to16_loop s expected' (if expected' = 3 then len' + 1 else len')))"

definition strlen8to16 :: "u8 list \<Rightarrow> u64 mem" where
  "strlen8to16 utf8Str = strlen8to16_loop utf8Str 0 0"

definition leaderMask :: "u32 list" where
  "leaderMask = [0xff, 0x1f, 0x0f, 0x07]"

text \<open>The continuation loop: \<open>n\<close> bytes to go, the pointer at the head of the list.\<close>

fun utf32_tail :: "nat \<Rightarrow> u32 \<Rightarrow> u8 list \<Rightarrow> (u32 \<times> u8 list) mem" where
  "utf32_tail 0 ret p = Inr (ret, p)"
| "utf32_tail (Suc n) ret [] = Inl OobRead"
| "utf32_tail (Suc n) ret (b # p) =
     (if b = 0 then Inr (UTF16_REPLACEMENT_CHAR, b # p)
      else if b AND 0xc0 \<noteq> 0x80 then Inr (UTF16_REPLACEMENT_CHAR, b # p)
      else utf32_tail n (push_bit 6 ret OR (0x3f AND ucast b)) p)"

fun getUtf32FromUtf8 :: "u8 list \<Rightarrow> (u32 \<times> u8 list) mem" where
  "getUtf32FromUtf8 [] = Inl OobRead"
| "getUtf32FromUtf8 (b # p) =
     (if b AND 0xc0 = 0x80 then Inr (UTF16_REPLACEMENT_CHAR, p)
      else
        (let seq_len = UTF8_SEQ_LENGTH (ucast b);
             ret = ucast b AND leaderMask ! (seq_len - 1)
         in if b = 0 then Inr (ret, b # p) else utf32_tail (seq_len - 1) ret p))"

text \<open>The code units stored for one decoded character.\<close>

definition utf16_units :: "u32 \<Rightarrow> u16 list" where
  "utf16_units ret =
     (if ret \<le> 0xffff then [ucast ret]
      else if ret \<le> UNICODE_UPPER_LIMIT then
        [ucast (0xd800 OR drop_bit 10 (ret - 0x10000)),
         ucast (0xdc00 OR ((ret - 0x10000) AND 0x3ff))]
      else [ucast UTF16_REPLACEMENT_CHAR])"

function strcpy8to16 :: "u8 list \<Rightarrow> u16 list mem" where
  "strcpy8to16 utf8Str =
     (case utf8Str of
        [] \<Rightarrow> Inl OobRead
      | b # _ \<Rightarrow>
          if b = 0 then Inr []
          else case getUtf32FromUtf8 utf8Str of
                 Inl e \<Rightarrow> Inl e
               | Inr (ret, p) \<Rightarrow>
                   mbind (strcpy8to16 p) (\<lambda>rest. Inr (utf16_units ret @ rest)))"
  by pat_completeness auto
termination
proof (relation "measure length", goal_cases)
  case 1
  show ?case by simp
next
  case (2 s b t ret_p ret p)
  have tail: "utf32_tail n r q = Inr (v, q') \<Longrightarrow> length q' \<le> length q" for n r q v q'
    by (induction n r q rule: utf32_tail.induct) (auto split: if_splits)
  from 2 show ?case
    by (auto simp: Let_def split: if_splits dest!: tail)
qed

declare strcpy8to16.simps [simp del]

definition strdup8to16 ::
  "(u64 \<Rightarrow> bool) \<Rightarrow> u8 list option \<Rightarrow> (u16 list \<times> u64) option mem" where
  "strdup8to16 malloc s =
     (case s of
        None \<Rightarrow> Inr None
      | Some str \<Rightarrow>
          mbind (strlen8to16 str) (\<lambda>len.
            if len \<noteq> 0 \<and> SIZE_MAX div len < 2 then Inr None
            else mbind (strcpy8to16 str) (\<lambda>w.
                   mbind (store_into (if malloc (2 * len) then unat len else 0) w) (\<lambda>ret.
                     Inr (Some (ret, of_nat (length ret)))))))"

subsection \<open>Reference encoding\<close>

text \<open>The modified UTF-8 bytes of one code unit, and the byte count of a whole string.\<close>

definition utf8_unit :: "u16 \<Rightarrow> u8 list" where
  "utf8_unit c =
     (if c > 0x7ff then
        [ucast (drop_bit 12 c) OR 0xe0, ucast (drop_bit 6 c AND 0x3f) OR 0x80,
         ucast (c AND 0x3f) OR 0x80]
      else if c > 0x7f \<or> c = 0 then
        [ucast (drop_bit 6 c) OR 0xc0, ucast (c AND 0x3f) OR 0x80]
      else [ucast c])"

definition utf8_encode :: "u16 list \<Rightarrow> u8 list" where
  "utf8_encode s = concat (map utf8_unit s)"

text \<open>
  The number of code units \<^verbatim>\<open>strlen8to16\<close> counts, without the machine width.
\<close>

fun utf16_count :: "u8 list \<Rightarrow> int \<Rightarrow> nat" where
  "utf16_count [] e = 0"
| "utf16_count (b # s) e =
     (if b = 0 then 0
      else if b AND 0xc0 = 0x80 then (if e - 1 < 0 then 1 else 0) + utf16_count s (e - 1)
      else
        (let n = UTF8_SEQ_LENGTH (ucast b)
         in (if n = 4 then 2 else 1) + utf16_count s (int n - 1)))"

text \<open>
  The contract between a length function and a copy function that a duplicating caller relies
  on: both are defined on every valid string, and the copy stays inside a buffer of the
  reported size plus \<open>extra\<close> elements, unless the reported size is one of the \<open>refused\<close>
  values.
\<close>

locale sized_copy =
  fixes valid :: "'s \<Rightarrow> bool"
    and size_of :: "'s \<Rightarrow> u64 mem"
    and copy :: "'s \<Rightarrow> 'c list mem"
    and refused :: "u64 \<Rightarrow> bool"
    and extra :: nat
  assumes sized: "valid s \<Longrightarrow> \<exists>n. size_of s = Inr n"
    and copied: "valid s \<Longrightarrow> \<exists>w. copy s = Inr w"
    and fits: "valid s \<Longrightarrow> size_of s = Inr n \<Longrightarrow> \<not> refused n \<Longrightarrow> copy s = Inr w \<Longrightarrow>
      length w \<le> unat n + extra"
begin

lemma alloc_copy_safe:
  assumes "valid s"
  shows "\<exists>n w. size_of s = Inr n \<and> copy s = Inr w \<and>
    (\<not> refused n \<longrightarrow> store_into (unat n + extra) w = Inr w)"
proof -
  obtain n w where "size_of s = Inr n" "copy s = Inr w"
    using sized [OF assms] copied [OF assms] by blast
  with fits [OF assms] show ?thesis by auto
qed

end

section \<open>Encoding\<close>

lemma ucast_less_iff_16: "(ucast (a :: u16) :: u32) < ucast b \<longleftrightarrow> a < b"
  by (simp add: word_less_nat_alt unsigned_ucast_eq take_bit_nat_eq_self unat_word_less [THEN order.strict_trans])

lemma utf16_cases [simp]:
  "(0x07ff < (ucast (c :: u16) :: u32)) = (0x7ff < c)"
  "(0x7f < (ucast c :: u32)) = (0x7f < c)"
  "((ucast c :: u32) = 0) = (c = 0)"
  using ucast_less_iff_16 [of "0x7ff" c] ucast_less_iff_16 [of "0x7f" c]
    ucast_less_iff_16 [of 0 c]
  by (simp_all add: word_gt_0)

lemma utf8_unit_bytes:
  fixes c :: u16
  shows "(ucast (drop_bit 12 (ucast c :: u32) OR 0xe0) :: u8) = ucast (drop_bit 12 c) OR 0xe0"
    and "(ucast ((drop_bit 6 (ucast c :: u32) AND 0x3f) OR 0x80) :: u8) =
      ucast (drop_bit 6 c AND 0x3f) OR 0x80"
    and "(ucast (((ucast c :: u32) AND 0x3f) OR 0x80) :: u8) = ucast (c AND 0x3f) OR 0x80"
    and "(ucast (drop_bit 6 (ucast c :: u32) OR 0xc0) :: u8) = ucast (drop_bit 6 c) OR 0xc0"
    and "(ucast (ucast c :: u32) :: u8) = ucast c"
  unfolding and_3f_take_bit
  by (intro bit_word_eqI; auto simp: bit_simps dest: bit_imp_le_length)+

lemma utf8_unit_length: "length (utf8_unit c) = unat (utf8_incr c)"
  by (simp add: utf8_unit_def utf8_incr_def Let_def)

lemma utf8_incr_le: "unat (utf8_incr c) \<le> 3"
  by (simp add: utf8_incr_def Let_def)

lemma utf8_encode_simps [simp]:
  "utf8_encode [] = []"
  "utf8_encode (c # s) = utf8_unit c @ utf8_encode s"
  by (simp_all add: utf8_encode_def)

lemma utf8_encode_length_le: "length (utf8_encode s) \<le> 3 * length s"
  using utf8_incr_le by (induction s) (auto simp: utf8_unit_length intro: add_mono)

lemma strncpy16to8_eq:
  "n \<le> length s \<Longrightarrow> strncpy16to8 s n = Inr (utf8_encode (take n s) @ [0])"
  by (induction s n rule: strncpy16to8.induct)
     (auto simp: utf8_unit_def utf8_unit_bytes Let_def)

lemma strnlen16to8_fast_eq:
  "n \<le> length s \<Longrightarrow>
   strnlen16to8_fast s n acc = Inr (acc + of_nat (length (utf8_encode (take n s))))"
  by (induction s n acc rule: strnlen16to8_fast.induct)
     (auto simp: utf8_unit_length algebra_simps)

lemma u64_step_wrap:
  fixes acc d :: u64
  assumes "unat d \<le> 3"
  shows "acc + d < acc \<longleftrightarrow> 2 ^ 64 \<le> unat acc + unat d"
    and "\<not> acc + d < acc \<Longrightarrow> unat (acc + d) = unat acc + unat d"
  using assms unat_word_less [of acc]
  by (cases "unat acc + unat d < 2 ^ 64";
      simp add: word_less_nat_alt unat_word_ariths le_mod_geq)+


lemma strnlen16to8_slow_eq:
  "n \<le> length s \<Longrightarrow> \<exists>r. strnlen16to8_slow s n acc = Inr r \<and>
     unat r = min (unat acc + length (utf8_encode (take n s))) (2 ^ 64 - 2)"
proof (induction s n acc rule: strnlen16to8_slow.induct)
  case (1 s acc)
  show ?case
  proof (cases "acc = SIZE_MAX")
    case True
    then show ?thesis by (simp add: SIZE_MAX_def)
  next
    case False
    then have "unat acc \<noteq> 2 ^ 64 - 1"
      by (auto simp: SIZE_MAX_def word_unat_eq_iff)
    with False unat_word_less [of acc] show ?thesis
      by (simp add: min_def)
  qed
next
  case (2 len acc)
  then show ?case by simp
next
  case (3 c s len acc)
  note step = u64_step_wrap [OF utf8_incr_le, of acc c]
  show ?case
  proof (cases "acc + utf8_incr c < acc")
    case True
    with step(1) show ?thesis
      by (simp add: utf8_unit_length SIZE_MAX_def min_def)
  next
    case False
    with 3 have "\<exists>r. strnlen16to8_slow s len (acc + utf8_incr c) = Inr r \<and>
        unat r = min (unat (acc + utf8_incr c) + length (utf8_encode (take len s))) (2 ^ 64 - 2)"
      by simp
    with False step(2) [OF False] show ?thesis
      by (simp add: utf8_unit_length algebra_simps)
  qed
qed

lemma strnlen16to8_eq:
  assumes "unat n \<le> length s"
  shows "\<exists>r. strnlen16to8 s n = Inr r \<and>
    unat r = min (length (utf8_encode (take (unat n) s))) (2 ^ 64 - 2)"
proof (cases "n < (SIZE_MAX - 1) div 3")
  case True
  let ?l = "length (utf8_encode (take (unat n) s))"
  have "unat n < 6148914691236517204"
    using True by (simp add: SIZE_MAX_def word_less_nat_alt)
  moreover have "?l \<le> 3 * unat n"
    using utf8_encode_length_le [of "take (unat n) s"] assms by simp
  ultimately have l: "?l < 2 ^ 64 - 2"
    by simp
  then have "unat (word_of_nat ?l :: u64) = ?l"
    by (simp add: unat_of_nat)
  with l True assms show ?thesis
    by (simp add: strnlen16to8_def strnlen16to8_fast_eq min_def)
next
  case False
  with strnlen16to8_slow_eq [OF assms, of 0] show ?thesis
    by (simp add: strnlen16to8_def)
qed


section \<open>Decoding\<close>

subsection \<open>Lead and continuation bytes\<close>

lemma lead1_byte:
  assumes "unat (x :: u8) < 128"
  shows "x AND 0xc0 \<noteq> 0x80 \<and> UTF8_SEQ_LENGTH (ucast x) = 1 \<and>
     (ucast x :: u32) AND 0xff = ucast x"
  by (rule byte_less_cases [where P = "\<lambda>x. x AND 0xc0 \<noteq> 0x80 \<and> UTF8_SEQ_LENGTH (ucast x) = 1 \<and>
     (ucast x :: u32) AND 0xff = ucast x", OF _ assms])
     code_simp

lemma lead2_byte:
  assumes "unat (x :: u8) < 32"
  shows "(x OR 0xc0) AND 0xc0 \<noteq> 0x80 \<and> x OR 0xc0 \<noteq> 0 \<and>
     UTF8_SEQ_LENGTH (ucast (x OR 0xc0)) = 2 \<and> (ucast (x OR 0xc0) :: u32) AND 0x1f = ucast x"
  by (rule byte_less_cases [where P = "\<lambda>x. (x OR 0xc0) AND 0xc0 \<noteq> 0x80 \<and> x OR 0xc0 \<noteq> 0 \<and>
     UTF8_SEQ_LENGTH (ucast (x OR 0xc0)) = 2 \<and> (ucast (x OR 0xc0) :: u32) AND 0x1f = ucast x", OF _ assms])
     code_simp

lemma lead3_byte:
  assumes "unat (x :: u8) < 16"
  shows "(x OR 0xe0) AND 0xc0 \<noteq> 0x80 \<and> x OR 0xe0 \<noteq> 0 \<and>
     UTF8_SEQ_LENGTH (ucast (x OR 0xe0)) = 3 \<and> (ucast (x OR 0xe0) :: u32) AND 0x0f = ucast x"
  by (rule byte_less_cases [where P = "\<lambda>x. (x OR 0xe0) AND 0xc0 \<noteq> 0x80 \<and> x OR 0xe0 \<noteq> 0 \<and>
     UTF8_SEQ_LENGTH (ucast (x OR 0xe0)) = 3 \<and> (ucast (x OR 0xe0) :: u32) AND 0x0f = ucast x", OF _ assms])
     code_simp

lemma cont_byte:
  assumes "unat (x :: u8) < 64"
  shows "(x OR 0x80) AND 0xc0 = 0x80 \<and> x OR 0x80 \<noteq> 0 \<and>
     0x3f AND (ucast (x OR 0x80) :: u32) = ucast x"
  by (rule byte_less_cases [where P = "\<lambda>x. (x OR 0x80) AND 0xc0 = 0x80 \<and> x OR 0x80 \<noteq> 0 \<and>
     0x3f AND (ucast (x OR 0x80) :: u32) = ucast x", OF _ assms])
     code_simp

lemma unit_byte_bounds:
  fixes c :: u16
  shows "unat (ucast (drop_bit 12 c) :: u8) < 16"
    and "unat (ucast (c AND 0x3f) :: u8) < 64"
    and "unat c < 2 ^ 11 \<Longrightarrow> unat (ucast (drop_bit 6 c) :: u8) < 32"
proof -
  have "bit (ucast (drop_bit 12 c) :: u8) m \<Longrightarrow> m < 4" for m
    by (auto simp: bit_simps dest!: bit_imp_le_length)
  from unat_less_exp_if_bits [OF this] show "unat (ucast (drop_bit 12 c) :: u8) < 16"
    by simp
  have "bit (ucast (c AND 0x3f) :: u8) m \<Longrightarrow> m < 6" for m
    by (auto simp: bit_simps and_3f_take_bit)
  from unat_less_exp_if_bits [OF this] show "unat (ucast (c AND 0x3f) :: u8) < 64"
    by simp
  assume "unat c < 2 ^ 11"
  from bit_word_less_exp [OF this] have "bit (ucast (drop_bit 6 c) :: u8) m \<Longrightarrow> m < 5" for m
    by (force simp: bit_simps)
  from unat_less_exp_if_bits [OF this] show "unat (ucast (drop_bit 6 c) :: u8) < 32"
    by simp
qed

lemma reassemble2:
  fixes c :: u16
  assumes "unat c < 2 ^ 11"
  shows "push_bit 6 (ucast (ucast (drop_bit 6 c) :: u8)) OR ucast (ucast (c AND 0x3f) :: u8)
    = (ucast c :: u32)"
  using bit_word_less_exp [OF assms] unfolding and_3f_take_bit
  by (intro bit_word_eqI) (force simp: bit_simps)

lemma reassemble3:
  fixes c :: u16
  shows "push_bit 6 (push_bit 6 (ucast (ucast (drop_bit 12 c) :: u8))
      OR ucast (ucast (drop_bit 6 c AND 0x3f) :: u8)) OR ucast (ucast (c AND 0x3f) :: u8)
    = (ucast c :: u32)"
proof -
  have high: "bit c n \<Longrightarrow> \<not> bit c (12 + (n - 12)) \<Longrightarrow> n - 6 < 6" for n
    by (cases "n < 12") auto
  show ?thesis
    unfolding and_3f_take_bit
    by (rule bit_word_eqI) (auto simp: bit_simps dest: bit_imp_le_length high)
qed

lemma getUtf32_unit: "getUtf32FromUtf8 (utf8_unit c @ p) = Inr (ucast c, p)"
proof -
  consider (three) "c > 0x7ff" | (two) "\<not> c > 0x7ff" "c > 0x7f \<or> c = 0"
    | (one) "\<not> c > 0x7ff" "\<not> (c > 0x7f \<or> c = 0)"
    by blast
  then show ?thesis
  proof cases
    case three
    then show ?thesis
      using lead3_byte [OF unit_byte_bounds(1), of c] cont_byte [OF unit_byte_bounds(2), of c]
        cont_byte [OF unit_byte_bounds(2), of "drop_bit 6 c"] reassemble3 [of c]
      by (simp add: utf8_unit_def leaderMask_def numeral_2_eq_2)
  next
    case two
    then have "unat c < 2 ^ 11"
      by (auto simp: word_less_nat_alt)
    with two show ?thesis
      using lead2_byte [OF unit_byte_bounds(3), of c] cont_byte [OF unit_byte_bounds(2), of c]
        reassemble2 [of c]
      by (simp add: utf8_unit_def leaderMask_def)
  next
    case one
    then have "unat c < 128" "c \<noteq> 0"
      by (auto simp: word_less_nat_alt)
    moreover from this have c8: "unat (ucast c :: u8) = unat c"
      by (simp add: unat_ucast_small)
    moreover from c8 have "(ucast c :: u8) \<noteq> 0"
      using \<open>c \<noteq> 0\<close> by (metis unsigned_0 unsigned_word_eqI)
    moreover have "ucast (ucast c :: u8) = (ucast c :: u32)"
      using c8 unat_word_less [of c] by (simp add: word_unat_eq_iff unat_ucast_small)
    ultimately have "unat (ucast c :: u8) < 128" "(ucast c :: u8) \<noteq> 0"
        "ucast (ucast c :: u8) = (ucast c :: u32)"
      by simp_all
    with one show ?thesis
      using lead1_byte [of "ucast c"]
      by (simp add: utf8_unit_def leaderMask_def)
  qed
qed

lemma utf8_unit_no_nul: "0 \<notin> set (utf8_unit c)"
  using lead3_byte [OF unit_byte_bounds(1), of c] cont_byte [OF unit_byte_bounds(2), of c]
    cont_byte [OF unit_byte_bounds(2), of "drop_bit 6 c"] lead2_byte [OF unit_byte_bounds(3), of c]
  by (auto simp: utf8_unit_def word_less_nat_alt word_unat_eq_iff unat_ucast_small)

lemma strcpy8to16_encode: "strcpy8to16 (utf8_encode s @ 0 # p) = Inr s"
proof (induction s)
  case Nil
  show ?case by (simp add: strcpy8to16.simps)
next
  case (Cons c s)
  obtain b bs where u: "utf8_unit c = b # bs"
    by (cases "utf8_unit c") (auto simp: utf8_unit_def split: if_splits)
  with utf8_unit_no_nul [of c] have "b \<noteq> 0" by auto
  moreover have "utf16_units (ucast c) = [c]"
    using unat_word_less [of c]
    by (simp add: utf16_units_def word_le_nat_alt word_unat_eq_iff unat_ucast_small)
  ultimately show ?case
    using Cons.IH getUtf32_unit [of c "utf8_encode s @ 0 # p"] u
    by (simp add: strcpy8to16.simps [of "b # bs @ utf8_encode s @ 0 # p"])
qed


subsection \<open>The decoder stays inside the buffer its length function sizes\<close>

lemma UTF8_SEQ_LENGTH_range: "1 \<le> UTF8_SEQ_LENGTH ch \<and> UTF8_SEQ_LENGTH ch \<le> 4"
  using unat_and_le [of "drop_bit (unat (drop_bit 3 ch AND 30)) 3841982464" "3 :: u32"]
  by (simp add: UTF8_SEQ_LENGTH_def)

lemma utf16_count_le: "utf16_count s e \<le> 2 * length s"
  by (induction s e rule: utf16_count.induct) (auto simp: Let_def)

lemma strlen8to16_loop_eq:
  "0 \<in> set s \<Longrightarrow> strlen8to16_loop s e len = Inr (len + of_nat (utf16_count s e))"
  by (induction s e len rule: strlen8to16_loop.induct) (auto simp: Let_def algebra_simps)

lemma utf32_tail_total:
  "0 \<in> set q \<Longrightarrow> \<exists>v q'. utf32_tail n r q = Inr (v, q') \<and> 0 \<in> set q'"
  by (induction n r q rule: utf32_tail.induct) auto

lemma getUtf32_total:
  assumes "0 \<in> set q" and "hd q \<noteq> 0"
  shows "\<exists>v q'. getUtf32FromUtf8 q = Inr (v, q') \<and> 0 \<in> set q'"
  using assms by (cases q) (auto simp: Let_def utf32_tail_total)

lemma strcpy8to16_total: "0 \<in> set s \<Longrightarrow> \<exists>w. strcpy8to16 s = Inr w"
proof (induction s rule: strcpy8to16.induct)
  case (1 s)
  then obtain b t where s: "s = b # t" by (cases s) auto
  show ?case
  proof (cases "b = 0")
    case True
    with s show ?thesis by (simp add: strcpy8to16.simps)
  next
    case False
    with getUtf32_total [of s] "1.prems" s obtain v q
      where g: "getUtf32FromUtf8 s = Inr (v, q)" and q: "0 \<in> set q"
      by auto
    with "1.IH" [OF s False _ refl] obtain w where "strcpy8to16 q = Inr w"
      by blast
    with g s False show ?thesis
      by (subst strcpy8to16.simps) (simp del: getUtf32FromUtf8.simps)
  qed
qed

lemma utf32_tail_count:
  "utf32_tail n r q = Inr (v, q') \<Longrightarrow>
   \<exists>e. utf16_count q (int n) = utf16_count q' e \<and>
     (e \<le> 0 \<or> (q' \<noteq> [] \<and> hd q' AND 0xc0 \<noteq> 0x80))"
proof (induction n r q rule: utf32_tail.induct)
  case (3 n r b p)
  then show ?case
    by (auto split: if_splits)
qed auto

lemma utf32_step_bound:
  assumes "unat (r :: u32) < 2 ^ k" and "k + 6 \<le> 32"
  shows "unat (push_bit 6 r OR (0x3f AND x)) < 2 ^ (k + 6)"
proof (rule unat_less_exp_if_bits)
  fix m
  assume "bit (push_bit 6 r OR (0x3f AND x)) m"
  then show "m < k + 6"
    using bit_word_less_exp [OF assms(1), of "m - 6"]
    by (auto simp: bit_simps and.commute [of "0x3f"] and_3f_take_bit)
qed

lemma utf32_tail_bound:
  "utf32_tail n r q = Inr (v, q') \<Longrightarrow> unat r < 2 ^ k \<Longrightarrow> k + 6 * n \<le> 16 \<Longrightarrow> unat v < 2 ^ 16"
proof (induction n r q arbitrary: k rule: utf32_tail.induct)
  case (1 r q)
  have "(2::nat) ^ k \<le> 2 ^ 16"
    using 1 by (intro power_increasing) auto
  with 1 show ?case by simp
next
  case (3 n r b p)
  show ?case
  proof (cases "b = 0 \<or> b AND 0xc0 \<noteq> 0x80")
    case True
    with 3 show ?thesis by (auto simp: UTF16_REPLACEMENT_CHAR_def split: if_splits)
  next
    case False
    with 3 utf32_step_bound [of r k "ucast b"] show ?thesis by auto
  qed
qed auto

lemma utf16_units_length: "length (utf16_units v) \<le> 2"
  by (simp add: utf16_units_def)

lemma utf16_units_length_1: "unat v < 2 ^ 16 \<Longrightarrow> length (utf16_units v) = 1"
  by (simp add: utf16_units_def word_le_nat_alt)

lemma leader_bound:
  assumes "UTF8_SEQ_LENGTH ch = Suc n" and "n < 3"
  shows "\<exists>k. unat (x AND leaderMask ! n) < 2 ^ k \<and> k + 6 * n \<le> 16"
proof -
  from assms consider "n = 0" | "n = 1" | "n = 2" by linarith
  then show ?thesis
  proof cases
    case 1
    with unat_and_le [of x "0xff"] have "unat (x AND leaderMask ! n) < 2 ^ 8"
      by (simp add: leaderMask_def)
    with 1 show ?thesis by (intro exI [of _ 8]) simp
  next
    case 2
    with unat_and_le [of x "0x1f"] have "unat (x AND leaderMask ! n) < 2 ^ 5"
      by (simp add: leaderMask_def)
    with 2 show ?thesis by (intro exI [of _ 5]) simp
  next
    case 3
    with unat_and_le [of x "0x0f"] have "unat (x AND leaderMask ! n) < 2 ^ 4"
      by (simp add: leaderMask_def)
    with 3 show ?thesis by (intro exI [of _ 4]) simp
  qed
qed

lemma getUtf32_count:
  assumes "getUtf32FromUtf8 (b # t) = Inr (v, q)" and "b \<noteq> 0"
    and "e \<le> 0 \<or> b AND 0xc0 \<noteq> 0x80"
  shows "\<exists>e'. length (utf16_units v) + utf16_count q e' \<le> utf16_count (b # t) e \<and>
    (e' \<le> 0 \<or> (q \<noteq> [] \<and> hd q AND 0xc0 \<noteq> 0x80))"
proof (cases "b AND 0xc0 = 0x80")
  case True
  with assms show ?thesis
    by (intro exI [of _ "e - 1"]) (auto simp: UTF16_REPLACEMENT_CHAR_def utf16_units_def)
next
  case False
  obtain n where n: "UTF8_SEQ_LENGTH (ucast b) = Suc n"
    using UTF8_SEQ_LENGTH_range [of "ucast b"] by (metis Suc_le_D One_nat_def)
  with assms False have tail: "utf32_tail n (ucast b AND leaderMask ! n) t = Inr (v, q)"
    by (simp add: Let_def)
  have units: "length (utf16_units v) \<le> (if n = 3 then 2 else 1)"
  proof (cases "n = 3")
    case True
    then show ?thesis using utf16_units_length [of v] by simp
  next
    case n3: False
    with n UTF8_SEQ_LENGTH_range [of "ucast b"] have "n < 3" by simp
    from leader_bound [OF n this, of "ucast b"] obtain k
      where "unat (ucast b AND leaderMask ! n) < 2 ^ k" "k + 6 * n \<le> 16" by blast
    from utf32_tail_bound [OF tail this] n3 show ?thesis
      by (simp add: utf16_units_length_1)
  qed
  from utf32_tail_count [OF tail] obtain e'
    where "utf16_count t (int n) = utf16_count q e'"
      "e' \<le> 0 \<or> (q \<noteq> [] \<and> hd q AND 0xc0 \<noteq> 0x80)" by blast
  with units n assms(2) False show ?thesis
    by (intro exI [of _ e']) (auto simp: Let_def split: if_splits)
qed

lemma strcpy8to16_count:
  "strcpy8to16 s = Inr w \<Longrightarrow> e \<le> 0 \<or> (s \<noteq> [] \<and> hd s AND 0xc0 \<noteq> 0x80) \<Longrightarrow>
   length w \<le> utf16_count s e"
proof (induction s arbitrary: w e rule: strcpy8to16.induct)
  case (1 s)
  then obtain b t where s: "s = b # t" by (cases s) (auto simp: strcpy8to16.simps)
  show ?case
  proof (cases "b = 0")
    case True
    with s "1.prems" show ?thesis by (simp add: strcpy8to16.simps)
  next
    case False
    with s "1.prems"(1) obtain v q u where g: "getUtf32FromUtf8 s = Inr (v, q)"
      and u: "strcpy8to16 q = Inr u" "w = utf16_units v @ u"
      by (subst (asm) strcpy8to16.simps)
         (auto simp: mbind_eq_Inr_iff simp del: getUtf32FromUtf8.simps split: sum.splits)
    from getUtf32_count [of b t v q e] g s False "1.prems"(2) obtain e'
      where e': "length (utf16_units v) + utf16_count q e' \<le> utf16_count s e"
        "e' \<le> 0 \<or> (q \<noteq> [] \<and> hd q AND 0xc0 \<noteq> 0x80)" by auto
    from "1.IH" [OF s False g refl u(1) e'(2)] e'(1) u(2) show ?thesis by simp
  qed
qed


section \<open>The contract, for both directions\<close>

interpretation to8: sized_copy
  "\<lambda>(s, n). unat n \<le> length s"
  "\<lambda>(s, n). strnlen16to8 s n"
  "\<lambda>(s, n). strncpy16to8 s (unat n)"
  "\<lambda>n. n \<ge> SIZE_MAX - 1"
  1
proof (unfold_locales, goal_cases)
  case (1 sn)
  then show ?case using strnlen16to8_eq by (fastforce split: prod.splits)
next
  case (2 sn)
  then show ?case by (auto simp: strncpy16to8_eq split: prod.splits)
next
  case (3 sn m w)
  obtain s n where sn: "sn = (s, n)" by force
  with 3 strnlen16to8_eq [of n s] show ?case
    by (auto simp: strncpy16to8_eq SIZE_MAX_def word_le_nat_alt min_def split: if_splits)
qed

interpretation to16: sized_copy
  "\<lambda>s. 0 \<in> set s \<and> 2 * length s < 2 ^ 64" strlen8to16 strcpy8to16 "\<lambda>_. False" 0
proof (unfold_locales, goal_cases)
  case (1 s)
  then show ?case by (auto simp: strlen8to16_def strlen8to16_loop_eq)
next
  case (2 s)
  then show ?case by (auto simp: strcpy8to16_total)
next
  case (3 s n w)
  then have "unat n = utf16_count s 0"
    using utf16_count_le [of s 0]
    by (auto simp: strlen8to16_def strlen8to16_loop_eq unat_of_nat)
  with 3 strcpy8to16_count [of s w 0] show ?case by simp
qed

section \<open>Properties\<close>

text \<open>
  For every UTF-16 string and every length within it, \<^verbatim>\<open>strnlen16to8\<close> reads no
  code unit past the length and returns the exact number of bytes of the modified UTF-8
  encoding, clamped to \<^verbatim>\<open>SIZE_MAX - 1\<close>; the sum never wraps.
\<close>

theorem strnlen16to8_saturates:
  assumes "unat n \<le> length s"
  shows "\<exists>r. strnlen16to8 s n = Inr r \<and>
    unat r = min (length (utf8_encode (take (unat n) s))) (2 ^ 64 - 2)"
  using assms by (rule strnlen16to8_eq)

theorem strnlen16to8_saturates_witness:
  "unat (3 :: u64) \<le> length [0 :: u16, 0x41, 0x20ac] \<and>
   (\<exists>r. strnlen16to8 [0, 0x41, 0x20ac] 3 = Inr r \<and> unat r = 6)"
proof -
  have h: "unat (3 :: u64) \<le> length [0 :: u16, 0x41, 0x20ac]" by simp
  show ?thesis
    using h strnlen16to8_saturates [OF h] by (auto simp: utf8_unit_def min_def)
qed

text \<open>
  \<^verbatim>\<open>strndup16to8\<close> never touches memory outside the source string or the buffer
  it allocates, and returns either NULL (encoding too long, or no memory) or a buffer that
  holds exactly the encoding followed by one terminator.
\<close>

theorem strndup16to8_correct:
  assumes "unat n \<le> length s"
  shows "\<exists>len. strnlen16to8 s n = Inr len \<and>
    strndup16to8 malloc (Some s) n =
      Inr (if len \<ge> SIZE_MAX - 1 \<or> \<not> malloc (len + 1) then None
           else Some (utf8_encode (take (unat n) s) @ [0]))"
proof -
  from to8.alloc_copy_safe [of "(s, n)"] assms obtain len w
    where len: "strnlen16to8 s n = Inr len" and w: "strncpy16to8 s (unat n) = Inr w"
      and fits: "\<not> len \<ge> SIZE_MAX - 1 \<Longrightarrow> store_into (unat len + 1) w = Inr w"
    by auto
  have "\<not> len \<ge> SIZE_MAX - 1 \<Longrightarrow> unat (len + 1) = unat len + 1"
    by (simp add: SIZE_MAX_def word_le_nat_alt unat_word_ariths)
  with len w fits assms show ?thesis
    by (auto simp: strndup16to8_def strncpy16to8_eq)
qed

theorem strndup16to8_correct_witness:
  "unat (1 :: u64) \<le> length [0x20ac :: u16] \<and>
   strndup16to8 (\<lambda>_. True) (Some [0x20ac]) 1 = Inr (Some [0xe2, 0x82, 0xac, 0])"
proof -
  have h: "unat (1 :: u64) \<le> length [0x20ac :: u16]" by simp
  from strndup16to8_correct [OF h, of "\<lambda>_. True"] strnlen16to8_eq [OF h] show ?thesis
    by (auto simp: utf8_unit_def min_def SIZE_MAX_def word_le_nat_alt split: if_splits)
qed

text \<open>
  C8: decoding undoes encoding for every sequence of code units, embedded zeros and lone
  surrogates included: \<^verbatim>\<open>strcpy8to16\<close> applied to the bytes
  \<^verbatim>\<open>strncpy16to8\<close> stores gives back the first \<open>n\<close> code units.
\<close>

theorem utf_roundtrip:
  assumes "n \<le> length s"
  shows "mbind (strncpy16to8 s n) strcpy8to16 = Inr (take n s)"
  using strcpy8to16_encode [of "take n s" "[]"] assms by (simp add: strncpy16to8_eq)

theorem utf_roundtrip_witness:
  "(3 :: nat) \<le> length [0 :: u16, 0xd83d, 0xffff] \<and>
   mbind (strncpy16to8 [0, 0xd83d, 0xffff] 3) strcpy8to16 = Inr [0, 0xd83d, 0xffff]"
proof -
  have h: "(3 :: nat) \<le> length [0 :: u16, 0xd83d, 0xffff]" by simp
  show ?thesis using h utf_roundtrip [OF h] by simp
qed



text \<open>
  When the allocation fails the result of \<^verbatim>\<open>malloc\<close> is used all the same: the first
  code unit is stored through a null pointer.
\<close>

lemma strdup8to16_unchecked_malloc:
  "strdup8to16 (\<lambda>_. False) (Some [0x41, 0]) = Inl OobWrite"
  by code_simp

end
