(* ===== verification/Ta.thy ===== *)
theory Ta
  imports Prelude
begin

text \<open>
  The client of the trim area daemon, \<^verbatim>\<open>init/ta.cpp\<close>: big-endian integers, one
  session per request over a stream socket, and \<^verbatim>\<open>ta_get_cust_active\<close>, which asks
  for the size of unit 0x8A4 and then for its contents.

  The kernel and the daemon are the parameter \<open>tad_service\<close>: what \<^verbatim>\<open>socket\<close> and
  \<^verbatim>\<open>connect\<close> return, and the results of \<^verbatim>\<open>write\<close> and
  \<^verbatim>\<open>read\<close> as functions of the bytes sent and received so far.  \<open>tad_posix\<close> states
  what POSIX promises of them.  The stack space a variable length array needs is not modelled.
\<close>

unbundle bit_operations_syntax

section \<open>Definitions\<close>

definition get_u32 :: "u8 list \<Rightarrow> u32 mem" where
  "get_u32 p =
     (case p of
        p0 # p1 # p2 # p3 # _ \<Rightarrow>
          Inr (push_bit 24 (ucast p0) OR push_bit 16 (ucast p1) OR push_bit 8 (ucast p2)
               OR ucast p3)
      | _ \<Rightarrow> Inl OobRead)"

definition put_u32 :: "u32 \<Rightarrow> u8 list" where
  "put_u32 v =
     [ucast (drop_bit 24 v) AND 0xff, ucast (drop_bit 16 v) AND 0xff,
      ucast (drop_bit 8 v) AND 0xff, ucast v AND 0xff]"

record tad_service =
  t_socket :: int
  t_connect :: int
  t_write :: "u8 list \<Rightarrow> u8 list \<Rightarrow> int"
  t_read :: "u8 list \<Rightarrow> nat \<Rightarrow> nat \<Rightarrow> int \<times> u8 list"

record tad_conn =
  is_open :: bool
  sent :: "u8 list"
  recvd :: nat

definition tad_open :: "tad_service \<Rightarrow> int \<times> tad_conn" where
  "tad_open svc =
     (let s = t_socket svc
      in if s = -1 then (-1, \<lparr>is_open = False, sent = [], recvd = 0\<rparr>)
         else
           (let rc = t_connect svc
            in if rc \<noteq> 0 then (rc, \<lparr>is_open = False, sent = [], recvd = 0\<rparr>)
               else (s, \<lparr>is_open = True, sent = [], recvd = 0\<rparr>)))"

definition tad_close :: "int \<Rightarrow> tad_conn \<Rightarrow> tad_conn" where
  "tad_close sock c = (if sock \<noteq> -1 then c\<lparr>is_open := False\<rparr> else c)"

definition sock_write :: "tad_service \<Rightarrow> u8 list \<Rightarrow> tad_conn \<Rightarrow> int \<times> tad_conn" where
  "sock_write svc buf c =
     (let bwritten = t_write svc (sent c) buf
      in (bwritten, c\<lparr>sent := sent c @ take (nat bwritten) buf\<rparr>))"

text \<open>\<^verbatim>\<open>read\<close> into a buffer of \<open>n\<close> bytes: the bytes delivered, then the old ones.\<close>

definition sock_read :: "tad_service \<Rightarrow> nat \<Rightarrow> tad_conn \<Rightarrow> int \<times> u8 list \<times> tad_conn" where
  "sock_read svc n c =
     (let (nread, data) = t_read svc (sent c) (recvd c) n
      in (nread, take n (data @ replicate n 0), c\<lparr>recvd := recvd c + nat nread\<rparr>))"

text \<open>
  One \<^verbatim>\<open>write\<close> of a whole buffer, as every message of a session is sent: on a short
  write the socket is closed and the session fails with \<open>fl\<close>, otherwise it goes on.
\<close>

definition tad_put ::
  "tad_service \<Rightarrow> int \<Rightarrow> u8 list \<Rightarrow> 'r \<Rightarrow> (tad_conn \<Rightarrow> (int \<times> 'r \<times> tad_conn) mem)
   \<Rightarrow> tad_conn \<Rightarrow> (int \<times> 'r \<times> tad_conn) mem" where
  "tad_put svc s buf fl k c =
     (let (bwritten, c') = sock_write svc buf c
      in if bwritten \<noteq> int (length buf) then Inr (-1, fl, tad_close s c') else k c')"

text \<open>The loop that adds up the words of the size reply from offset 4 on.\<close>

function sum_words :: "u8 list \<Rightarrow> u32 \<Rightarrow> u32 mem" where
  "sum_words buf x =
     (if buf = [] then Inr x
      else mbind (get_u32 buf) (\<lambda>y. sum_words (drop 4 buf) (x + y)))"
  by pat_completeness auto
termination
  by (relation "measure (\<lambda>(buf, x). length buf)") auto

declare sum_words.simps [simp del]

definition tad_get_size ::
  "u32 \<Rightarrow> u32 \<Rightarrow> tad_service \<Rightarrow> (int \<times> u32 \<times> tad_conn) mem" where
  "tad_get_size unt sz svc =
     (let (s, c) = tad_open svc
      in if s = -1 then Inr (-1, sz, c)
         else
           tad_put svc s (put_u32 0x000d) sz (
           tad_put svc s [0] sz (
           tad_put svc s (put_u32 0x0001) sz (
           tad_put svc s (put_u32 0x0001) sz (
           tad_put svc s (put_u32 unt) sz (\<lambda>c.
             let (nread, size_buf, c) = sock_read svc 4 c
             in if nread \<noteq> 4 then Inr (-1, sz, tad_close s c)
                else mbind (get_u32 size_buf) (\<lambda>len.
                  if len > 0 then
                    (let (nread, buf, c) = sock_read svc (unat len) c
                     in if nread \<noteq> int (unat len) then Inr (-1, sz, tad_close s c)
                        else mbind (get_u32 buf) (\<lambda>x.
                          mbind (sum_words (drop 4 buf) x) (\<lambda>x. Inr (0, x, tad_close s c))))
                  else Inr (0, sz, tad_close s c))))))) c)"

definition tad_read ::
  "u32 \<Rightarrow> u8 list \<Rightarrow> u32 \<Rightarrow> tad_service \<Rightarrow> (int \<times> u8 list \<times> tad_conn) mem" where
  "tad_read unt buf sz svc =
     (let (s, c) = tad_open svc
      in if s = -1 then Inr (-1, buf, c)
         else
           tad_put svc s (put_u32 0x0011) buf (
           tad_put svc s [0] buf (
           tad_put svc s (put_u32 0x0001) buf (
           tad_put svc s (put_u32 0x0000) buf (
           tad_put svc s (put_u32 unt @ put_u32 sz) buf (\<lambda>c.
             let (nread, size_buf, c) = sock_read svc 4 c
             in if nread \<noteq> 4 then Inr (-1, buf, tad_close s c)
                else mbind (get_u32 size_buf) (\<lambda>len.
                  if len > 0 then
                    (let (nread, unit_buf, c) = sock_read svc (unat len) c
                     in if nread \<noteq> int (unat len) then Inr (-1, buf, tad_close s c)
                        else if len > sz then
                          mbind (store_into (length buf)
                                   (take (unat sz) (drop (unat (len - sz)) unit_buf)))
                            (\<lambda>w. Inr (0, w @ drop (length w) buf, tad_close s c))
                        else Inr (0, buf, tad_close s c))
                  else Inr (0, buf, tad_close s c))))))) c)"

text \<open>
  \<open>svc 0\<close> serves the first connection and \<open>svc 1\<close> the second.  The array
  \<^verbatim>\<open>str\<close> has \<^verbatim>\<open>size + 1\<close> elements, computed in 32 bits.
\<close>

definition ta_get_cust_active :: "(nat \<Rightarrow> tad_service) \<Rightarrow> u8 list mem" where
  "ta_get_cust_active svc =
     mbind (tad_get_size 0x8A4 0 (svc 0)) (\<lambda>(rc, sz, _).
       if rc \<noteq> 0 \<or> sz = 0 then Inr []
       else mbind (tad_read 0x8A4 (replicate (unat sz) 0) sz (svc 1)) (\<lambda>(rc, buf, _).
         if rc \<noteq> 0 then Inr []
         else mbind (store_into (unat (sz + 1)) (take (unat sz) buf @ [0])) (\<lambda>str.
           Inr (takeWhile (\<lambda>b. b \<noteq> 0) str))))"

text \<open>
  POSIX: \<^verbatim>\<open>connect\<close> returns 0 or -1, \<^verbatim>\<open>socket\<close> a descriptor or -1,
  \<^verbatim>\<open>read\<close> delivers exactly the number of bytes it returns, \<^verbatim>\<open>write\<close>
  accepts no more than the buffer.
\<close>

definition tad_posix :: "tad_service \<Rightarrow> bool" where
  "tad_posix svc \<longleftrightarrow>
     t_socket svc \<ge> -1 \<and> (t_connect svc = 0 \<or> t_connect svc = -1) \<and>
     (\<forall>s b. t_write svc s b \<le> int (length b)) \<and>
     (\<forall>s k n. case t_read svc s k n of
        (rc, data) \<Rightarrow> rc \<le> int n \<and> length data = nat rc)"

text \<open>A run of session code whose normal returns leave the descriptor closed.\<close>

definition closing :: "(int \<times> 'r \<times> tad_conn) mem \<Rightarrow> bool" where
  "closing m \<longleftrightarrow> (\<forall>rc r c. m = Inr (rc, r, c) \<longrightarrow> \<not> is_open c)"

text \<open>The bytes of the two requests.\<close>

definition size_request :: "u32 \<Rightarrow> u8 list" where
  "size_request unt = put_u32 0x0d @ [0] @ put_u32 1 @ put_u32 1 @ put_u32 unt"

definition read_request :: "u32 \<Rightarrow> u32 \<Rightarrow> u8 list" where
  "read_request unt sz = put_u32 0x11 @ [0] @ put_u32 1 @ put_u32 0 @ put_u32 unt @ put_u32 sz"

text \<open>
  The daemon takes every message and, having received \<open>req\<close>, delivers the length of
  \<open>reply\<close> and then \<open>reply\<close>, each to one \<^verbatim>\<open>read\<close>.
\<close>

definition tad_replies :: "tad_service \<Rightarrow> u8 list \<Rightarrow> u8 list \<Rightarrow> bool" where
  "tad_replies svc req reply \<longleftrightarrow>
     t_socket svc \<ge> 0 \<and> t_connect svc = 0 \<and> (\<forall>s b. t_write svc s b = int (length b)) \<and>
     length reply < 2 ^ 32 \<and>
     t_read svc req 0 4 = (4, put_u32 (of_nat (length reply))) \<and>
     t_read svc req 4 (length reply) = (int (length reply), reply)"

text \<open>
  A daemon that accepts every message and answers a request, once it has it whole, with the
  length of \<open>reply\<close> and then \<open>reply\<close>.
\<close>

definition tad_answering :: "nat \<Rightarrow> u8 list \<Rightarrow> tad_service" where
  "tad_answering reqlen reply =
     \<lparr>t_socket = 3, t_connect = 0,
      t_write = (\<lambda>s b. int (length b)),
      t_read = (\<lambda>s k n.
        let avail = (if length s = reqlen
                     then drop k (put_u32 (of_nat (length reply)) @ reply) else []);
            d = take n avail
        in (int (length d), d))\<rparr>"

text \<open>The contract of one session: whatever happens, the descriptor does not stay open.\<close>

locale tad_session =
  fixes session :: "tad_service \<Rightarrow> (int \<times> 'r \<times> tad_conn) mem"
  assumes closes: "tad_posix svc \<Longrightarrow> session svc = Inr (rc, r, c) \<Longrightarrow> \<not> is_open c"
begin

lemma no_descriptor_leak:
  assumes "\<And>i. i < n \<Longrightarrow> tad_posix (svc i)"
    and "\<And>i. i < n \<Longrightarrow> session (svc i) = Inr (out i)"
  shows "\<forall>i < n. \<not> is_open (snd (snd (out i)))"
proof (intro allI impI)
  fix i
  assume "i < n"
  with closes [of "svc i" "fst (out i)" "fst (snd (out i))" "snd (snd (out i))"] assms
  show "\<not> is_open (snd (snd (out i)))" by simp
qed

end

section \<open>Big-endian integers\<close>

lemma byte_and_ff: "(w :: u8) AND 0xff = w"
proof -
  have "(0xff :: u8) = - 1" by simp
  then show ?thesis by (simp only: and.right_neutral)
qed

lemma length_put_u32 [simp]: "length (put_u32 v) = 4"
  by (simp add: put_u32_def)

lemma get_put_u32 [simp]: "get_u32 (put_u32 v @ rest) = Inr v"
proof -
  have high: "bit v n \<Longrightarrow> \<not> bit v (16 + (n - 16)) \<Longrightarrow> n - 8 < 8" for n
    by (cases "n < 16") auto
  have "push_bit 24 (ucast (ucast (drop_bit 24 v) :: u8)) OR
        push_bit 16 (ucast (ucast (drop_bit 16 v) :: u8)) OR
        push_bit 8 (ucast (ucast (drop_bit 8 v) :: u8)) OR ucast (ucast v :: u8) = v"
    by (rule bit_word_eqI) (auto simp: bit_simps dest: high)
  then show ?thesis
    by (simp add: get_u32_def put_u32_def byte_and_ff)
qed

lemmas get_put_u32_nil [simp] = get_put_u32 [where rest = "[]", simplified]

lemma get_u32_short: "length p < 4 \<Longrightarrow> get_u32 p = Inl OobRead"
  by (auto simp: get_u32_def split: list.splits)

lemma get_u32_long: "4 \<le> length p \<Longrightarrow> \<exists>v. get_u32 p = Inr v"
  by (auto simp: get_u32_def split: list.splits)

lemma sum_words_concat:
  "sum_words (concat (map put_u32 ws)) x = Inr (x + sum_list ws)"
proof (induction ws arbitrary: x)
  case Nil
  show ?case by (simp add: sum_words.simps)
next
  case (Cons w ws)
  have "put_u32 w \<noteq> []" by (simp add: put_u32_def)
  with Cons show ?case
    by (subst sum_words.simps) (simp add: algebra_simps)
qed

lemma sum_words_ragged: "length buf mod 4 \<noteq> 0 \<Longrightarrow> sum_words buf x = Inl OobRead"
proof (induction buf x rule: sum_words.induct)
  case (1 buf x)
  then have ne: "buf \<noteq> []" by auto
  show ?case
  proof (cases "length buf < 4")
    case True
    with ne show ?thesis
      by (subst sum_words.simps) (simp add: get_u32_short)
  next
    case False
    with get_u32_long [of buf] obtain y where y: "get_u32 buf = Inr y" by auto
    from False 1(2) have "length (drop 4 buf) mod 4 \<noteq> 0"
      by (simp add: mod_if)
    with 1(1) [OF ne y] y ne show ?thesis
      by (subst sum_words.simps) simp
  qed
qed

section \<open>Sessions\<close>

lemma tad_put_eq_Inr:
  "tad_put svc s buf fl k c = Inr (rc, r, c') \<longleftrightarrow>
     (if t_write svc (sent c) buf = int (length buf)
      then k (c\<lparr>sent := sent c @ buf\<rparr>) = Inr (rc, r, c')
      else rc = -1 \<and> r = fl \<and>
        c' = tad_close s (c\<lparr>sent := sent c @ take (nat (t_write svc (sent c) buf)) buf\<rparr>))"
  by (auto simp: tad_put_def sock_write_def Let_def)

lemma tad_close_simps [simp]:
  "s \<noteq> -1 \<Longrightarrow> \<not> is_open (tad_close s c)"
  "sent (tad_close s c) = sent c"
  by (simp_all add: tad_close_def)

lemma tad_open_cases:
  assumes "tad_posix svc"
  shows "tad_open svc = (-1, \<lparr>is_open = False, sent = [], recvd = 0\<rparr>) \<or>
    (t_socket svc \<noteq> -1 \<and> tad_open svc = (t_socket svc, \<lparr>is_open = True, sent = [], recvd = 0\<rparr>))"
  using assms by (auto simp: tad_open_def tad_posix_def Let_def)

lemma closing_close [intro]: "s \<noteq> -1 \<Longrightarrow> closing (Inr (rc, r, tad_close s c))"
  by (simp add: closing_def)

lemma closing_put [intro]:
  "s \<noteq> -1 \<Longrightarrow> (\<And>c. closing (k c)) \<Longrightarrow> closing (tad_put svc s buf fl k c)"
  by (auto simp: closing_def tad_put_eq_Inr split: if_splits)

lemma closing_mbind [intro]: "(\<And>a. closing (k a)) \<Longrightarrow> closing (mbind m k)"
  by (auto simp: closing_def mbind_eq_Inr_iff)

lemma closing_if [intro]: "(b \<Longrightarrow> closing m) \<Longrightarrow> (\<not> b \<Longrightarrow> closing m') \<Longrightarrow> closing (if b then m else m')"
  by simp

lemma closing_read [intro]:
  "(\<And>rc d c. closing (k rc d c)) \<Longrightarrow>
   closing (case sock_read svc n c0 of (rc, d, c) \<Rightarrow> k rc d c)"
  by (simp split: prod.splits)

lemma tad_get_size_closing:
  assumes "tad_posix svc"
  shows "closing (tad_get_size unt sz svc)"
  using tad_open_cases [OF assms]
proof (elim disjE conjE)
  assume "tad_open svc = (-1, \<lparr>is_open = False, sent = [], recvd = 0\<rparr>)"
  then show ?thesis
    by (simp only: tad_get_size_def Let_def prod.case if_True simp_thms) (simp add: closing_def)
next
  assume s: "t_socket svc \<noteq> -1"
    and "tad_open svc = (t_socket svc, \<lparr>is_open = True, sent = [], recvd = 0\<rparr>)"
  then show ?thesis
    by (simp only: tad_get_size_def Let_def prod.case if_False)
       (rule closing_put closing_read closing_if closing_mbind closing_close s)+
qed

lemma tad_read_closing:
  assumes "tad_posix svc"
  shows "closing (tad_read unt buf sz svc)"
  using tad_open_cases [OF assms]
proof (elim disjE conjE)
  assume "tad_open svc = (-1, \<lparr>is_open = False, sent = [], recvd = 0\<rparr>)"
  then show ?thesis
    by (simp only: tad_read_def Let_def prod.case if_True simp_thms) (simp add: closing_def)
next
  assume s: "t_socket svc \<noteq> -1"
    and "tad_open svc = (t_socket svc, \<lparr>is_open = True, sent = [], recvd = 0\<rparr>)"
  then show ?thesis
    by (simp only: tad_read_def Let_def prod.case if_False)
       (rule closing_put closing_read closing_if closing_mbind closing_close s)+
qed

interpretation gs: tad_session "tad_get_size unt sz"
  using tad_get_size_closing by unfold_locales (simp add: closing_def)

interpretation rd: tad_session "tad_read unt buf sz"
  using tad_read_closing by unfold_locales (simp add: closing_def)

lemma sock_read_full:
  "t_read svc (sent c) (recvd c) n = (int n, d) \<Longrightarrow> length d = n \<Longrightarrow>
   sock_read svc n c = (int n, d, c\<lparr>recvd := recvd c + n\<rparr>)"
  by (simp add: sock_read_def)

lemma tad_put_full:
  assumes "\<forall>s b. t_write svc s b = int (length b)"
  shows "tad_put svc s buf fl k c = k (c\<lparr>sent := sent c @ buf\<rparr>)"
  using assms by (simp add: tad_put_def sock_write_def Let_def)

lemma tad_open_replies:
  "tad_replies svc req reply \<Longrightarrow>
   tad_open svc = (t_socket svc, \<lparr>is_open = True, sent = [], recvd = 0\<rparr>)"
  by (simp add: tad_open_def tad_replies_def Let_def)


lemma tad_get_size_replies:
  assumes rep: "tad_replies svc (size_request unt) (concat (map put_u32 ws))" and "ws \<noteq> []"
  shows "\<exists>c. tad_get_size unt sz svc = Inr (0, sum_list ws, c)"
proof -
  let ?reply = "concat (map put_u32 ws)"
  obtain w us where ws: "ws = w # us" using assms(2) by (cases ws) auto
  have len: "length ?reply < 2 ^ 32" "0 < length ?reply"
    using rep by (auto simp: tad_replies_def ws)
  then have len': "unat (word_of_nat (length ?reply) :: u32) = length ?reply"
      "(0 :: u32) < word_of_nat (length ?reply)"
    by (simp_all add: unat_of_nat word_less_nat_alt)
  from rep have sock: "t_socket svc \<noteq> -1" and wr: "\<forall>s b. t_write svc s b = int (length b)"
    and rd4: "t_read svc (size_request unt) 0 4 = (4, put_u32 (of_nat (length ?reply)))"
    and rdn: "t_read svc (size_request unt) 4 (length ?reply) = (int (length ?reply), ?reply)"
    by (auto simp: tad_replies_def)
  have sum: "sum_words (drop 4 ?reply) w = Inr (sum_list ws)" "get_u32 ?reply = Inr w"
    using sum_words_concat [of us w] by (simp_all add: ws)
  let ?c = "\<lambda>k. \<lparr>is_open = True, sent = size_request unt, recvd = k\<rparr>"
  have r4: "sock_read svc 4 (?c 0) = (4, put_u32 (of_nat (length ?reply)), ?c 4)"
    using sock_read_full [of svc "?c 0" 4] rd4 by simp
  have rn: "sock_read svc (length ?reply) (?c 4) =
      (int (length ?reply), ?reply, ?c (4 + length ?reply))"
    using sock_read_full [of svc "?c 4" "length ?reply"] rdn by simp
  have "tad_get_size unt sz svc =
      Inr (0, sum_list ws, tad_close (t_socket svc) (?c (4 + length ?reply)))"
    using sock len'(2)
    by (simp only: tad_get_size_def tad_open_replies [OF rep] Let_def prod.case if_False
          tad_put_full [OF wr],
        simp only: tad_conn.simps append_Nil append_assoc size_request_def [symmetric],
        simp only: r4 rn len' sum prod.case get_put_u32_nil mbind_Inr if_True if_False simp_thms)
  then show ?thesis by blast
qed

lemma tad_read_replies:
  assumes rep: "tad_replies svc (read_request unt sz) reply" and "length buf = unat sz"
  shows "\<exists>c. tad_read unt buf sz svc =
    Inr (0, if unat sz < length reply then drop (length reply - unat sz) reply else buf, c)"
proof -
  have len: "unat (word_of_nat (length reply) :: u32) = length reply"
    using rep by (simp add: tad_replies_def unat_of_nat)
  from rep have sock: "t_socket svc \<noteq> -1" and wr: "\<forall>s b. t_write svc s b = int (length b)"
    and rd4: "t_read svc (read_request unt sz) 0 4 = (4, put_u32 (of_nat (length reply)))"
    and rdn: "t_read svc (read_request unt sz) 4 (length reply) = (int (length reply), reply)"
    by (auto simp: tad_replies_def)
  let ?c = "\<lambda>k. \<lparr>is_open = True, sent = read_request unt sz, recvd = k\<rparr>"
  have r4: "sock_read svc 4 (?c 0) = (4, put_u32 (of_nat (length reply)), ?c 4)"
    using sock_read_full [of svc "?c 0" 4] rd4 by simp
  have rn: "sock_read svc (length reply) (?c 4) = (int (length reply), reply, ?c (4 + length reply))"
    using sock_read_full [of svc "?c 4" "length reply"] rdn by simp
  have start: "tad_read unt buf sz svc =
      (if (0 :: u32) < word_of_nat (length reply) then
         if sz < word_of_nat (length reply) then
           mbind (store_into (length buf)
                    (take (unat sz) (drop (unat (word_of_nat (length reply) - sz)) reply)))
             (\<lambda>w. Inr (0, w @ drop (length w) buf, tad_close (t_socket svc) (?c (4 + length reply))))
         else Inr (0, buf, tad_close (t_socket svc) (?c (4 + length reply)))
       else Inr (0, buf, tad_close (t_socket svc) (?c 4)))"
    using sock
    by (simp only: tad_read_def tad_open_replies [OF rep] Let_def prod.case if_False
          tad_put_full [OF wr],
        simp only: tad_conn.simps append_Nil append_assoc read_request_def [symmetric],
        simp only: r4 rn len prod.case get_put_u32_nil mbind_Inr if_False simp_thms)
  have diff: "unat sz < length reply \<Longrightarrow>
      unat (word_of_nat (length reply) - sz) = length reply - unat sz"
    using len by (simp add: unat_sub_if_size)
  show ?thesis
    using len diff assms(2) by (auto simp: start word_less_nat_alt)
qed

lemma tad_answering_replies:
  "length req = n \<Longrightarrow> length reply < 2 ^ 32 \<Longrightarrow> tad_replies (tad_answering n reply) req reply"
  by (simp add: tad_replies_def tad_answering_def Let_def)

section \<open>Properties\<close>



text \<open>
  C30: end to end, when the daemon answers the size request with a list of big-endian words and
  the read request with a header followed by as many payload bytes as those words add up to,
  \<^verbatim>\<open>ta_get_cust_active\<close> returns the payload up to its first zero byte.
\<close>

theorem ta_get_cust_active_payload:
  assumes "tad_replies (svc 0) (size_request 0x8A4) (concat (map put_u32 ws))"
    and "tad_replies (svc 1) (read_request 0x8A4 (sum_list ws)) (hdr @ payload)"
    and "hdr \<noteq> []" and "length payload = unat (sum_list ws)" and "payload \<noteq> []"
  shows "ta_get_cust_active svc = Inr (takeWhile (\<lambda>b. b \<noteq> 0) payload)"
proof -
  from assms(4,5) have nz: "sum_list ws \<noteq> 0" by auto
  then have "ws \<noteq> []" by auto
  with tad_get_size_replies [OF assms(1)] obtain c1
    where g: "tad_get_size 0x8A4 0 (svc 0) = Inr (0, sum_list ws, c1)" by blast
  have "unat (sum_list ws) < length (hdr @ payload)"
    using assms(3,4) by (cases hdr) auto
  with tad_read_replies [OF assms(2), of "replicate (unat (sum_list ws)) 0"] assms(4) obtain c2
    where r: "tad_read 0x8A4 (replicate (unat (sum_list ws)) 0) (sum_list ws) (svc 1) =
      Inr (0, payload, c2)" by auto
  have "unat (sum_list ws) + 1 < 2 ^ 32"
    using assms(2,3,4) by (cases hdr) (auto simp: tad_replies_def)
  then have "unat (sum_list ws + 1) = unat (sum_list ws) + 1"
    by (simp add: unat_word_ariths)
  moreover have "takeWhile (\<lambda>b. b \<noteq> 0) (payload @ [0]) = takeWhile (\<lambda>b. b \<noteq> 0) payload"
    by (induction payload) auto
  ultimately show ?thesis
    using nz g r assms(4) by (simp add: ta_get_cust_active_def)
qed

theorem ta_get_cust_active_payload_witness:
  "\<exists>svc hdr. tad_replies (svc 0) (size_request 0x8A4) (concat (map put_u32 [1, 2])) \<and>
     tad_replies (svc 1) (read_request 0x8A4 (sum_list [1, 2])) (hdr @ [0x53, 0x31, 0]) \<and>
     hdr \<noteq> [] \<and> ta_get_cust_active svc = Inr [0x53, 0x31]"
proof -
  let ?svc = "\<lambda>i :: nat. if i = 0 then tad_answering 17 (concat (map put_u32 [1, 2]))
    else tad_answering 21 ([9] @ [0x53, 0x31, 0])"
  have 1: "tad_replies (?svc 0) (size_request 0x8A4) (concat (map put_u32 [1, 2]))"
    by (simp add: tad_answering_replies size_request_def)
  have 2: "tad_replies (?svc 1) (read_request 0x8A4 (sum_list [1, 2])) ([9] @ [0x53, 0x31, 0])"
    by (simp add: tad_answering_replies read_request_def)
  from ta_get_cust_active_payload [OF 1 2] have "ta_get_cust_active ?svc = Inr [0x53, 0x31]"
    by simp
  with 1 2 show ?thesis
    by (intro exI [of _ ?svc] exI [of _ "[9]"]) simp
qed

text \<open>A size reply whose length is no multiple of four makes the loop read past the array.\<close>

lemma tad_get_size_ragged_reply:
  "tad_get_size 1 0 (tad_answering 17 [0, 0, 0, 1, 7]) = Inl OobRead"
  by code_simp

text \<open>
  \<^verbatim>\<open>tad_read\<close> copies the last \<^verbatim>\<open>size\<close> bytes of a reply that is longer
  than \<^verbatim>\<open>size\<close> into the caller's buffer, stays inside it, and leaves it as it was
  for every shorter reply and for one of exactly \<^verbatim>\<open>size\<close> bytes.
\<close>

theorem tad_read_last_bytes:
  assumes "tad_replies svc (read_request unt sz) reply" and "length buf = unat sz"
  shows "\<exists>c. tad_read unt buf sz svc =
    Inr (0, if unat sz < length reply then drop (length reply - unat sz) reply else buf, c)"
  using assms by (rule tad_read_replies)

theorem tad_read_last_bytes_witness:
  "tad_replies (tad_answering 21 [7, 8, 9]) (read_request 1 2) [7, 8, 9] \<and>
   length [0, 0 :: u8] = unat (2 :: u32) \<and>
   (\<exists>c. tad_read 1 [0, 0] 2 (tad_answering 21 [7, 8, 9]) = Inr (0, [8, 9], c))"
proof -
  have 1: "tad_replies (tad_answering 21 [7, 8, 9]) (read_request 1 2) [7, 8, 9]"
    by (simp add: tad_answering_replies read_request_def)
  have 2: "length [0, 0 :: u8] = unat (2 :: u32)" by simp
  from 1 2 tad_read_last_bytes [OF 1 2] show ?thesis by simp
qed

end
