(* ===== verification/Init_Props.thy ===== *)
theory Init_Props
  imports Ta
begin

text \<open>
  The property loader of \<^verbatim>\<open>init/init_yoshino.cpp\<close>: the line parser of
  \<^verbatim>\<open>load_properties\<close>, imports of further files, and the choice of the
  customization file in \<^verbatim>\<open>vendor_load_properties\<close>.

  The file system is a parameter \<open>fs\<close> (\<open>None\<close> where \<^verbatim>\<open>ReadFileToString\<close>
  fails); the calls of \<^verbatim>\<open>__system_property_add\<close> are the returned list of keys and
  values, in order.  The parser works in place on a NUL-terminated buffer; a pointer into it is
  the rest of the string from there, and a zero written into it ends the string there.  An
  unfiltered file may import further files, so the depth of the recursion is bounded by fuel:
  \<open>None\<close> is a call that has not returned within that depth.
\<close>

section \<open>Definitions\<close>

definition is_space :: "char \<Rightarrow> bool" where
  "is_space c \<longleftrightarrow> c \<in> {CHR '' '', CHR 0x09, CHR 0x0A, CHR 0x0B, CHR 0x0C, CHR 0x0D}"

text \<open>What C sees of a buffer: everything before the first zero.\<close>

definition c_string :: "string \<Rightarrow> string" where
  "c_string s = takeWhile (\<lambda>c. c \<noteq> CHR 0x00) s"

text \<open>\<^verbatim>\<open>strchr\<close>: the text before the first \<open>c\<close> and the text after it.\<close>

fun str_split :: "char \<Rightarrow> string \<Rightarrow> (string \<times> string) option" where
  "str_split c [] = None"
| "str_split c (x # xs) =
     (if x = c then Some ([], xs)
      else map_option (\<lambda>(a, b). (x # a, b)) (str_split c xs))"

text \<open>
  \<^verbatim>\<open>while ((tmp > key) && isspace(*tmp)) *tmp-- = 0\<close> with \<open>tmp\<close> at the last
  character: trailing blanks go, the first character stays.
\<close>

fun trim_tail :: "string \<Rightarrow> string" where
  "trim_tail [] = []"
| "trim_tail (c # cs) = c # rev (dropWhile is_space (rev cs))"

definition skip_space :: "string \<Rightarrow> string" where
  "skip_space s = dropWhile is_space s"

text \<open>The lines the loop takes: each ends in a newline; what follows the last one is not seen.\<close>

fun split_lines_acc :: "string \<Rightarrow> string \<Rightarrow> string list" where
  "split_lines_acc acc [] = []"
| "split_lines_acc acc (c # cs) =
     (if c = CHR 0x0A then rev acc # split_lines_acc [] cs else split_lines_acc (c # acc) cs)"

definition split_lines :: "string \<Rightarrow> string list" where
  "split_lines s = split_lines_acc [] s"

datatype line_action = Skip | Import string "string option" | Prop string string

definition flen :: "string option \<Rightarrow> nat" where
  "flen flt = (case flt of None \<Rightarrow> 0 | Some f \<Rightarrow> length f)"

definition key_matches :: "string \<Rightarrow> string \<Rightarrow> bool" where
  "key_matches f key =
     (if last f = CHR ''*'' then take (length f - 1) key = take (length f - 1) f
      else key = f)"

text \<open>The body of the loop, for one line.\<close>

definition handle_line :: "string option \<Rightarrow> string \<Rightarrow> line_action" where
  "handle_line flt line =
     (let key = skip_space line
      in if key \<noteq> [] \<and> hd key = CHR ''#'' then Skip
         else
           (let key = trim_tail key
            in if take 7 key = ''import '' \<and> flen flt = 0 then
                 (let fn = skip_space (drop 7 key)
                  in case str_split CHR '' '' fn of
                       None \<Rightarrow> Import fn None
                     | Some (fn', key') \<Rightarrow> Import fn' (Some (skip_space key')))
               else
                 case str_split CHR ''='' key of
                   None \<Rightarrow> Skip
                 | Some (key, val) \<Rightarrow>
                     (let key = trim_tail key; val = skip_space val
                      in if flen flt > 0 \<and> \<not> key_matches (the flt) key then Skip
                         else Prop key val)))"

type_synonym props = "(string \<times> string) list"

fun load_properties_from_file ::
    "nat \<Rightarrow> (string \<Rightarrow> string option) \<Rightarrow> string \<Rightarrow> string option \<Rightarrow> props option"
  and load_lines ::
    "nat \<Rightarrow> (string \<Rightarrow> string option) \<Rightarrow> string list \<Rightarrow> string option \<Rightarrow> props option" where
  "load_properties_from_file 0 fs filename flt = None"
| "load_properties_from_file (Suc n) fs filename flt =
     (case fs filename of
        None \<Rightarrow> Some []
      | Some data \<Rightarrow> load_lines n fs (split_lines (c_string (data @ [CHR 0x0A]))) flt)"
| "load_lines n fs [] flt = Some []"
| "load_lines n fs (l # ls) flt =
     (case handle_line flt l of
        Skip \<Rightarrow> load_lines n fs ls flt
      | Import fn key \<Rightarrow>
          (case load_properties_from_file n fs fn key of
             None \<Rightarrow> None
           | Some ps \<Rightarrow> map_option ((@) ps) (load_lines n fs ls flt))
      | Prop key val \<Rightarrow> map_option ((#) (key, val)) (load_lines n fs ls flt))"

definition load_properties ::
  "nat \<Rightarrow> (string \<Rightarrow> string option) \<Rightarrow> string \<Rightarrow> string option \<Rightarrow> props option" where
  "load_properties n fs data flt = load_lines n fs (split_lines (c_string data)) flt"

definition byte_string :: "u8 list \<Rightarrow> string" where
  "byte_string bs = map (\<lambda>b. char_of (unat b)) bs"

definition vendor_load_properties ::
  "nat \<Rightarrow> (string \<Rightarrow> string option) \<Rightarrow> (nat \<Rightarrow> tad_service) \<Rightarrow> props option mem" where
  "vendor_load_properties n fs svc =
     (let base = load_properties_from_file n fs ''/ocm/system-properties/cust.prop'' None
      in mbind (ta_get_cust_active svc) (\<lambda>cust_id.
           let more =
             (if cust_id = [] then
                load_properties_from_file n fs ''/ocm/system-properties/config.prop'' None
              else
                load_properties_from_file n fs
                  (''/ocm/system-properties/'' @ byte_string cust_id @ ''/config.prop'') None)
           in Inr (case (base, more) of (Some a, Some b) \<Rightarrow> Some (a @ b) | _ \<Rightarrow> None)))"

subsection \<open>Reference definitions\<close>

text \<open>Text that the parser keeps as it is.\<close>

definition clean :: "string \<Rightarrow> bool" where
  "clean s \<longleftrightarrow> CHR 0x0A \<notin> set s \<and> CHR 0x00 \<notin> set s \<and>
     (s \<noteq> [] \<longrightarrow> \<not> is_space (hd s) \<and> \<not> is_space (last s))"

definition clean_key :: "string \<Rightarrow> bool" where
  "clean_key k \<longleftrightarrow> clean k \<and> k \<noteq> [] \<and> hd k \<noteq> CHR ''#'' \<and> CHR ''='' \<notin> set k \<and>
     take 7 k \<noteq> ''import ''"

definition print_props :: "props \<Rightarrow> string" where
  "print_props ps = concat (map (\<lambda>(k, v). k @ ''='' @ v @ [CHR 0x0A]) ps)"

text \<open>The properties of a file read without filter and without following imports.\<close>

definition file_props :: "string list \<Rightarrow> props" where
  "file_props ls =
     List.map_filter (\<lambda>l. case handle_line (Some ''*'') l of Prop k v \<Rightarrow> Some (k, v) | _ \<Rightarrow> None) ls"

text \<open>A rank that every unfiltered import lowers: the import graph has no cycle.\<close>

definition import_ranked :: "(string \<Rightarrow> string option) \<Rightarrow> (string \<Rightarrow> nat) \<Rightarrow> bool" where
  "import_ranked fs rank \<longleftrightarrow>
     (\<forall>fn data l fn' key. fs fn = Some data \<longrightarrow>
        l \<in> set (split_lines (c_string (data @ [CHR 0x0A]))) \<longrightarrow>
        handle_line None l = Import fn' key \<longrightarrow> rank fn' < rank fn)"

section \<open>Lines\<close>

lemma split_lines_acc_line:
  "CHR 0x0A \<notin> set l \<Longrightarrow>
   split_lines_acc acc (l @ CHR 0x0A # rest) = (rev acc @ l) # split_lines_acc [] rest"
  by (induction l arbitrary: acc) auto

lemma split_lines_line [simp]:
  "CHR 0x0A \<notin> set l \<Longrightarrow> split_lines (l @ CHR 0x0A # rest) = l # split_lines rest"
  by (simp add: split_lines_def split_lines_acc_line)

lemma split_lines_Nil [simp]: "split_lines [] = []"
  by (simp add: split_lines_def)

lemma c_string_id [simp]: "CHR 0x00 \<notin> set s \<Longrightarrow> c_string s = s"
  by (simp add: c_string_def takeWhile_eq_all_conv) metis

lemma trim_tail_id: "s \<noteq> [] \<Longrightarrow> \<not> is_space (last s) \<Longrightarrow> trim_tail s = s"
proof (cases s)
  case (Cons c cs)
  assume "\<not> is_space (last s)"
  then show ?thesis
    using Cons by (cases cs rule: rev_cases) auto
qed simp

lemma skip_space_id: "\<not> is_space (hd s) \<Longrightarrow> skip_space s = s"
  by (cases s) (simp_all add: skip_space_def)

lemma str_split_append: "c \<notin> set a \<Longrightarrow> str_split c (a @ c # b) = Some (a, b)"
  by (induction a) auto

lemma is_space_eq_sign: "\<not> is_space CHR ''=''"
  by (simp add: is_space_def)

lemma take_import_key:
  assumes "CHR ''='' \<notin> set k" and "take 7 k \<noteq> ''import ''"
  shows "take 7 (k @ CHR ''='' # v) \<noteq> ''import ''"
proof (cases "7 \<le> length k")
  case True
  with assms show ?thesis by simp
next
  case False
  then have "CHR ''='' \<in> set (take 7 (k @ CHR ''='' # v))"
    by (simp add: take_Cons')
  moreover have "CHR ''='' \<notin> set ''import ''" by simp
  ultimately show ?thesis by metis
qed

lemma handle_line_printed:
  assumes "clean_key k" and "clean v"
  shows "handle_line None (k @ CHR ''='' # v) = Prop k v"
proof -
  let ?l = "k @ CHR ''='' # v"
  from assms(1) obtain c cs where k: "k = c # cs" by (cases k) (auto simp: clean_key_def)
  have 1: "skip_space ?l = ?l"
    using assms(1) k by (intro skip_space_id) (auto simp: clean_key_def clean_def)
  have "\<not> is_space (last ?l)"
    using assms(2) by (cases v rule: rev_cases) (auto simp: clean_def is_space_eq_sign)
  then have 2: "trim_tail ?l = ?l" by (intro trim_tail_id) simp_all
  have 3: "trim_tail k = k" "skip_space v = v"
    using assms by (auto simp: clean_key_def clean_def trim_tail_id intro: skip_space_id)
      (cases v; auto simp: skip_space_def)+
  have 4: "hd ?l \<noteq> CHR ''#''" "str_split CHR ''='' ?l = Some (k, v)"
    using assms(1) k by (auto simp: clean_key_def str_split_append)
  have 5: "take 7 ?l \<noteq> ''import ''"
    using assms(1) by (intro take_import_key) (auto simp: clean_key_def)
  show ?thesis
    by (simp only: handle_line_def 1 2 3 4 5 Let_def option.case prod.case simp_thms if_False)
       (simp add: 3 flen_def)
qed

section \<open>Filters\<close>

lemma handle_line_filtered:
  assumes "f \<noteq> []"
  shows "handle_line (Some f) l =
    (case handle_line (Some ''*'') l of
       Prop k v \<Rightarrow> if key_matches f k then Prop k v else Skip
     | a \<Rightarrow> a)"
  using assms
  by (simp add: handle_line_def flen_def key_matches_def Let_def split: option.splits prod.splits)

lemma handle_line_star_no_import: "handle_line (Some ''*'') l \<noteq> Import fn key"
  by (simp add: handle_line_def flen_def Let_def split: option.splits prod.splits)

lemma handle_line_import_unfiltered:
  "handle_line flt l = Import fn key \<Longrightarrow> flen flt = 0 \<and> handle_line None l = Import fn key"
  by (auto simp: handle_line_def flen_def Let_def split: option.splits prod.splits if_splits)

lemma load_lines_filtered:
  assumes "f \<noteq> []"
  shows "load_lines n fs ls (Some f) =
    Some (filter (\<lambda>(k, v). key_matches f k) (file_props ls))"
proof (induction ls)
  case Nil
  show ?case by (simp add: file_props_def List.map_filter_def)
next
  case (Cons l ls)
  then show ?case
    using handle_line_star_no_import [of l]
    by (simp add: handle_line_filtered [OF assms] file_props_def List.map_filter_def
        split: line_action.splits)
qed

section \<open>Imports\<close>

lemma load_lines_ranked:
  assumes "\<And>l fn key. l \<in> set ls \<Longrightarrow> handle_line None l = Import fn key \<Longrightarrow>
      \<exists>ps. load_properties_from_file n fs fn key = Some ps"
  shows "\<exists>ps. load_lines n fs ls flt = Some ps"
  using assms
proof (induction ls)
  case (Cons l ls)
  have IH: "\<exists>ps. load_lines n fs ls flt = Some ps"
    by (rule Cons.IH) (rule Cons.prems, auto)
  show ?case
  proof (cases "handle_line flt l")
    case (Import fn key)
    with handle_line_import_unfiltered [of flt l fn key] Cons.prems [of l fn key]
    have "\<exists>ps. load_properties_from_file n fs fn key = Some ps" by simp
    with Import IH show ?thesis by auto
  qed (use IH in auto)
qed simp

lemma load_from_file_ranked:
  assumes "import_ranked fs rank"
  shows "rank fn < n \<Longrightarrow> \<exists>ps. load_properties_from_file n fs fn flt = Some ps"
proof (induction n arbitrary: fn flt)
  case (Suc n)
  show ?case
  proof (cases "fs fn")
    case (Some data)
    have "\<exists>ps. load_properties_from_file n fs fn' key = Some ps"
      if "l \<in> set (split_lines (c_string (data @ [CHR 0x0A])))" "handle_line None l = Import fn' key"
      for l fn' key
    proof -
      from assms Some that have "rank fn' < rank fn"
        by (simp add: import_ranked_def)
      with Suc show ?thesis by simp
    qed
    from load_lines_ranked [OF this] Some show ?thesis by simp
  qed simp
qed simp

lemma load_mono:
  "load_properties_from_file n fs fn flt = Some ps \<Longrightarrow> load_properties_from_file (Suc n) fs fn flt = Some ps"
  "load_lines n fs ls flt = Some ps \<Longrightarrow> load_lines (Suc n) fs ls flt = Some ps"
proof (induction n fs fn flt and n fs ls flt arbitrary: ps and ps
    rule: load_properties_from_file_load_lines.induct)
  case (4 n fs l ls flt)
  then show ?case
    by (auto simp del: load_properties_from_file.simps split: line_action.splits option.splits)
qed (auto split: option.splits)

section \<open>Properties\<close>

text \<open>
  C22: printing and loading are inverse: a file of lines \<^verbatim>\<open>key=value\<close>, one per
  property, is loaded as exactly those properties in that order, for all keys and values free
  of newlines and of leading and trailing blanks.
\<close>

theorem load_printed_props:
  assumes "\<forall>(k, v) \<in> set ps. clean_key k \<and> clean v"
  shows "load_properties n fs (print_props ps) None = Some ps"
proof -
  have "load_lines n fs (split_lines (print_props ps)) None = Some ps"
    using assms
  proof (induction ps)
    case Nil
    show ?case by (simp add: print_props_def)
  next
    case (Cons p ps)
    obtain k v where p: "p = (k, v)" by force
    from Cons.prems p have kv: "clean_key k" "clean v" by auto
    then have "CHR 0x0A \<notin> set (k @ CHR ''='' # v)"
      by (auto simp: clean_key_def clean_def)
    from split_lines_line [OF this, of "print_props ps"]
    have "split_lines (print_props (p # ps)) = (k @ CHR ''='' # v) # split_lines (print_props ps)"
      by (simp add: p print_props_def)
    with Cons handle_line_printed [OF kv] p show ?case by simp
  qed
  moreover have "CHR 0x00 \<notin> set (print_props ps)"
    using assms by (auto simp: print_props_def clean_key_def clean_def)
  ultimately show ?thesis by (simp add: load_properties_def)
qed

theorem load_printed_props_witness:
  "clean_key ''ro.a'' \<and> clean ''1'' \<and> clean_key ''ro.b'' \<and> clean [] \<and>
   load_properties 0 (\<lambda>_. None) (print_props [(''ro.a'', ''1''), (''ro.b'', [])]) None =
     Some [(''ro.a'', ''1''), (''ro.b'', [])]"
proof -
  have h: "\<forall>(k, v) \<in> set [(''ro.a'', ''1''), (''ro.b'', [])]. clean_key k \<and> clean v"
    by (simp add: clean_key_def clean_def is_space_def)
  then show ?thesis using load_printed_props [OF h] by simp
qed





text \<open>
  A file that imports itself is not caught: the recursion has no end, at whatever depth.
\<close>

lemma self_import_never_returns:
  "load_properties_from_file n (\<lambda>_. Some ''import x'') ''x'' None = None"
proof (induction n)
  case (Suc n)
  have "split_lines (c_string (''import x'' @ [CHR 0x0A])) = [''import x'']"
    by code_simp
  moreover have "handle_line None ''import x'' = Import ''x'' None"
    by code_simp
  ultimately show ?case using Suc by simp
qed simp



end
