(* ===== verification/Lights.thy ===== *)
theory Lights
  imports Prelude
begin

text \<open>
  The light HAL of \<^verbatim>\<open>hardware/lights\<close> (\<^verbatim>\<open>Light.cpp\<close>,
  \<^verbatim>\<open>Light.h\<close>): panel backlight with low persistence mode, button backlight, and the
  RGB LED shared by battery and notification lights.

  The object is the record \<open>light\<close>; sysfs is the parameter \<open>sysfs\<close> (which paths exist,
  what a read gives, whether a write succeeds after the writes made so far), and the log is the
  list of successful writes, path and text, in order.  The HIDL types of
  \<^verbatim>\<open>ILight.hal\<close> are datatypes.  Arithmetic on \<^verbatim>\<open>int\<close> wraps at 32 bits.
\<close>

unbundle bit_operations_syntax

section \<open>Definitions\<close>

subsection \<open>Types\<close>

datatype flash = FLASH_NONE | FLASH_TIMED | FLASH_HARDWARE

datatype brightness_mode = BR_USER | BR_SENSOR | BR_LOW_PERSISTENCE

datatype light_type = BACKLIGHT | KEYBOARD | BUTTONS | BATTERY | NOTIFICATIONS | ATTENTION
  | BLUETOOTH | WIFI | UNKNOWN_TYPE int

datatype status = SUCCESS | LIGHT_NOT_SUPPORTED | UNKNOWN

record light_state =
  color :: u32
  flashMode :: flash
  flashOnMs :: int
  flashOffMs :: int
  brightnessMode :: brightness_mode

record rgb =
  red :: int
  green :: int
  blue :: int

datatype read_result = NoFile | ReadFail int | ReadOk int

type_synonym wlog = "(string \<times> string) list"

record sysfs =
  sf_exists :: "string \<Rightarrow> bool"
  sf_read :: "string \<Rightarrow> read_result"
  sf_write :: "wlog \<Rightarrow> string \<Rightarrow> bool"
  sf_lp_brightness :: int

record light =
  mLcdFile :: string
  mBacklightMax :: int
  mMaxSingle :: rgb
  mMaxMix :: rgb
  mHasButtonFile :: bool
  mHasPersistenceFile :: bool
  mLowPersistenceEnabled :: bool
  mIsBlinking :: bool
  batteryState :: light_state
  notificationState :: light_state
  mSupportedTypes :: "light_type list"

subsection \<open>Paths and printing\<close>

definition LED_FILE :: "string \<Rightarrow> string \<Rightarrow> string" where
  "LED_FILE led file = ''/sys/class/leds/'' @ led @ ''/'' @ file"

definition BUTTON_FILE :: string where
  "BUTTON_FILE = LED_FILE ''button-backlight'' ''brightness''"

definition LCD_CLASS_BASE :: string where
  "LCD_CLASS_BASE = ''/sys/class/leds/lcd-backlight''"

definition LCD_CLASS_BASE2 :: string where
  "LCD_CLASS_BASE2 = ''/sys/class/backlight/panel0-backlight''"

definition PERSISTENCE_FILE :: string where
  "PERSISTENCE_FILE = ''/sys/class/graphics/fb0/msm_fb_persist_mode''"

text \<open>Decimal output, as the stream operators and \<^verbatim>\<open>%d\<close> print an integer.\<close>

definition show_int :: "int \<Rightarrow> string" where
  "show_int x = (if x < 0 then CHR ''-'' # show_nat (nat (- x)) else show_nat (nat x))"

subsection \<open>File access\<close>

definition write_file :: "sysfs \<Rightarrow> string \<Rightarrow> string \<Rightarrow> wlog \<Rightarrow> bool \<times> wlog" where
  "write_file fs path txt log =
     (if sf_write fs log path then (True, log @ [(path, txt @ [CHR 0x0A])]) else (False, log))"

definition write_int :: "sysfs \<Rightarrow> string \<Rightarrow> int \<Rightarrow> wlog \<Rightarrow> bool \<times> wlog" where
  "write_int fs path v log = write_file fs path (show_int v) log"

text \<open>
  The two-argument \<^verbatim>\<open>read\<close>: a file that cannot be opened leaves the variable alone, a
  failed extraction stores a value and reports failure.
\<close>

definition read_int :: "sysfs \<Rightarrow> string \<Rightarrow> int \<Rightarrow> bool \<times> int" where
  "read_int fs path cur =
     (case sf_read fs path of
        NoFile \<Rightarrow> (False, cur)
      | ReadFail v \<Rightarrow> (False, v)
      | ReadOk v \<Rightarrow> (True, v))"

definition isLit :: "light_state \<Rightarrow> bool" where
  "isLit st \<longleftrightarrow> color st AND 0x00ffffff \<noteq> 0"

definition rgbToBrightness :: "light_state \<Rightarrow> int" where
  "rgbToBrightness st =
     (let c = color st
      in (77 * uint (drop_bit 16 c AND 0x00ff) + 150 * uint (drop_bit 8 c AND 0x00ff)
          + 29 * uint (c AND 0x00ff)) div 256)"

definition scaleBrightness :: "int \<Rightarrow> int \<Rightarrow> int" where
  "scaleBrightness brightness maxBrightness =
     cdiv (wrap32 (brightness * maxBrightness + 127)) 255"

text \<open>
  The comparison of the \<^verbatim>\<open>bool\<close> result of \<^verbatim>\<open>read\<close> with zero is the source's.
\<close>

definition readMaxBrightness :: "sysfs \<Rightarrow> string \<Rightarrow> int \<Rightarrow> int \<Rightarrow> int" where
  "readMaxBrightness fs file cur defaultValue =
     (let (ok, maxBrightness) = read_int fs file cur
      in if (if ok then 1 else 0 :: int) < 0 then defaultValue
         else if maxBrightness < 0 then defaultValue
         else maxBrightness)"

definition Color_of :: "u32 \<Rightarrow> rgb" where
  "Color_of c =
     \<lparr>red = uint (drop_bit 16 c AND 0xFF), green = uint (drop_bit 8 c AND 0xFF),
      blue = uint (c AND 0xFF)\<rparr>"

text \<open>
  The constructor.  \<open>junk1\<close> and \<open>junk2\<close> are what the two \<^verbatim>\<open>Color\<close>
  members hold before they are read, \<open>bat0\<close> and \<open>not0\<close> what the two
  \<^verbatim>\<open>LightState\<close> members hold: the constructor initialises none of them.
  \<open>None\<close> is the abort of \<^verbatim>\<open>LOG(FATAL)\<close>.
\<close>

definition Light ::
  "sysfs \<Rightarrow> rgb \<Rightarrow> rgb \<Rightarrow> light_state \<Rightarrow> light_state \<Rightarrow> light option" where
  "Light fs junk1 junk2 bat0 not0 =
     (let supportedTypes = [BACKLIGHT, BATTERY, NOTIFICATIONS, ATTENTION];
          lcd_class_base = (if sf_exists fs LCD_CLASS_BASE then LCD_CLASS_BASE
                            else LCD_CLASS_BASE2);
          lcdFile = lcd_class_base @ ''/brightness''
      in if \<not> sf_exists fs lcdFile then None
         else
           (let single = ''max_single_brightness''; mix = ''max_mix_brightness'';
                hasButton = sf_exists fs BUTTON_FILE
            in Some
              \<lparr>mLcdFile = lcdFile,
               mBacklightMax = readMaxBrightness fs (lcd_class_base @ ''/max_brightness'') 0 (-1),
               mMaxSingle =
                 \<lparr>red = readMaxBrightness fs (LED_FILE ''red'' single) (red junk1) 0xFF,
                  green = readMaxBrightness fs (LED_FILE ''green'' single) (green junk1) 0xFF,
                  blue = readMaxBrightness fs (LED_FILE ''blue'' single) (blue junk1) 0xFF\<rparr>,
               mMaxMix =
                 \<lparr>red = readMaxBrightness fs (LED_FILE ''red'' mix) (red junk2) 0xFF,
                  green = readMaxBrightness fs (LED_FILE ''green'' mix) (green junk2) 0xFF,
                  blue = readMaxBrightness fs (LED_FILE ''blue'' mix) (blue junk2) 0xFF\<rparr>,
               mHasButtonFile = hasButton,
               mHasPersistenceFile = sf_exists fs PERSISTENCE_FILE,
               mLowPersistenceEnabled = False,
               mIsBlinking = False,
               batteryState = bat0,
               notificationState = not0,
               mSupportedTypes =
                 (if hasButton then supportedTypes @ [BUTTONS] else supportedTypes)\<rparr>))"

subsection \<open>Backlight\<close>

definition lcd_value :: "int \<Rightarrow> int \<Rightarrow> int" where
  "lcd_value backlightMax brightness =
     (if brightness \<noteq> 0 \<and> backlightMax > 0 then
        (if brightness = 255 then backlightMax
         else scaleBrightness (brightness - 1) backlightMax + 1)
      else brightness)"

definition setLightBacklight ::
  "sysfs \<Rightarrow> light_state \<Rightarrow> light \<Rightarrow> wlog \<Rightarrow> bool \<times> light \<times> wlog" where
  "setLightBacklight fs st l log =
     (let brightness = rgbToBrightness st;
          lpEnabled = (brightnessMode st = BR_LOW_PERSISTENCE);
          cannotHandlePersistence = (\<not> mHasPersistenceFile l \<and> lpEnabled);
          (status, brightness, l, log) =
            (if mHasPersistenceFile l \<and> mLowPersistenceEnabled l \<noteq> lpEnabled then
               (let (ok, log) = write_int fs PERSISTENCE_FILE (if lpEnabled then 1 else 0) log
                in (ok, if lpEnabled then sf_lp_brightness fs else brightness,
                    l\<lparr>mLowPersistenceEnabled := lpEnabled\<rparr>, log))
             else (True, brightness, l, log));
          (status, log) =
            (if status then write_int fs (mLcdFile l) (lcd_value (mBacklightMax l) brightness) log
             else (status, log))
      in (\<not> cannotHandlePersistence \<and> status, l, log))"

subsection \<open>LED\<close>

definition write_lut :: "sysfs \<Rightarrow> string \<Rightarrow> int \<Rightarrow> wlog \<Rightarrow> bool \<times> wlog" where
  "write_lut fs file brightness log =
     (let buffer = show_int brightness @ '',0'' @ [CHR 0x0A]
      in if length buffer \<ge> 22 then (False, log) else write_file fs file buffer log)"

text \<open>The macro \<^verbatim>\<open>HANDLE_LED_BLINK_VALUES\<close>: all four writes are made.\<close>

definition HANDLE_LED_BLINK_VALUES ::
  "sysfs \<Rightarrow> string \<Rightarrow> int \<Rightarrow> int \<Rightarrow> int \<Rightarrow> bool \<times> wlog \<Rightarrow> bool \<times> wlog" where
  "HANDLE_LED_BLINK_VALUES fs led v onMS offMS sl =
     (if v \<noteq> 0 then
        (let (status, log) = sl;
             (s1, log) = write_lut fs (LED_FILE led ''lut_pwm'') v log;
             (s2, log) = write_int fs (LED_FILE led ''pause_lo_multi'') onMS log;
             (s3, log) = write_int fs (LED_FILE led ''pause_hi_multi'') offMS log;
             (s4, log) = write_int fs (LED_FILE led ''step_duration'') 0 log
         in (status \<and> s1 \<and> s2 \<and> s3 \<and> s4, log))
      else sl)"

text \<open>\<^verbatim>\<open>write && write\<close>: the second write is made only after the first succeeded.\<close>

definition write_and :: "sysfs \<Rightarrow> string \<Rightarrow> int \<Rightarrow> bool \<times> wlog \<Rightarrow> bool \<times> wlog" where
  "write_and fs path v sl = (if fst sl then write_int fs path v (snd sl) else sl)"

definition led_color :: "light \<Rightarrow> light_state \<Rightarrow> rgb" where
  "led_color l st =
     (let c = Color_of (color st);
          lit = (\<lambda>x. if x \<noteq> 0 then 1 else 0 :: nat);
          m = (if lit (red c) + lit (green c) + lit (blue c) > 1 then mMaxMix l else mMaxSingle l)
      in \<lparr>red = scaleBrightness (red c) (red m), green = scaleBrightness (green c) (green m),
          blue = scaleBrightness (blue c) (blue m)\<rparr>)"

definition setSpeakerLightLocked ::
  "sysfs \<Rightarrow> light_state \<Rightarrow> light \<Rightarrow> wlog \<Rightarrow> bool \<times> light \<times> wlog" where
  "setSpeakerLightLocked fs st l log =
     (let c = led_color l st; onMS = flashOnMs st; offMS = flashOffMs st
      in if flashMode st \<noteq> FLASH_NONE then
           (let sl = write_int fs (LED_FILE ''rgb'' ''sync_state'') 1 log;
                sl = HANDLE_LED_BLINK_VALUES fs ''red'' (red c) onMS offMS sl;
                sl = HANDLE_LED_BLINK_VALUES fs ''green'' (green c) onMS offMS sl;
                (status, log) = HANDLE_LED_BLINK_VALUES fs ''blue'' (blue c) onMS offMS sl;
                (s, log) = write_int fs (LED_FILE ''rgb'' ''start_blink'') 1 log
            in (status \<and> s, l\<lparr>mIsBlinking := True\<rparr>, log))
         else
           (let log = (if mIsBlinking l
                       then snd (write_int fs (LED_FILE ''rgb'' ''sync_state'') 0 log) else log);
                l = l\<lparr>mIsBlinking := False\<rparr>;
                sl = write_int fs (LED_FILE ''red'' ''brightness'') (red c) log;
                sl = write_and fs (LED_FILE ''green'' ''brightness'') (green c) sl;
                (status, log) = write_and fs (LED_FILE ''blue'' ''brightness'') (blue c) sl
            in (status, l, log)))"

definition handleSpeakerBatteryLocked :: "sysfs \<Rightarrow> light \<Rightarrow> wlog \<Rightarrow> bool \<times> light \<times> wlog" where
  "handleSpeakerBatteryLocked fs l log =
     (if isLit (batteryState l) then setSpeakerLightLocked fs (batteryState l) l log
      else setSpeakerLightLocked fs (notificationState l) l log)"

definition setLightBattery ::
  "sysfs \<Rightarrow> light_state \<Rightarrow> light \<Rightarrow> wlog \<Rightarrow> bool \<times> light \<times> wlog" where
  "setLightBattery fs st l log = handleSpeakerBatteryLocked fs (l\<lparr>batteryState := st\<rparr>) log"

definition setLightNotifications ::
  "sysfs \<Rightarrow> light_state \<Rightarrow> light \<Rightarrow> wlog \<Rightarrow> bool \<times> light \<times> wlog" where
  "setLightNotifications fs st l log =
     handleSpeakerBatteryLocked fs (l\<lparr>notificationState := st\<rparr>) log"

definition setLightButtons ::
  "sysfs \<Rightarrow> light_state \<Rightarrow> light \<Rightarrow> wlog \<Rightarrow> status \<times> wlog" where
  "setLightButtons fs st l log =
     (if \<not> mHasButtonFile l then (LIGHT_NOT_SUPPORTED, log)
      else
        (let (ok, log) = write_int fs BUTTON_FILE (uint (color st AND 0xFF)) log
         in (if ok then SUCCESS else UNKNOWN, log)))"

definition setLight ::
  "sysfs \<Rightarrow> light_type \<Rightarrow> light_state \<Rightarrow> light \<times> wlog \<Rightarrow> status \<times> light \<times> wlog" where
  "setLight fs type st ll =
     (let (l, log) = ll; fin = (\<lambda>(ok, l, log). (if ok then SUCCESS else UNKNOWN, l, log))
      in case type of
           BACKLIGHT \<Rightarrow> fin (setLightBacklight fs st l log)
         | BUTTONS \<Rightarrow> (let (s, log) = setLightButtons fs st l log in (s, l, log))
         | BATTERY \<Rightarrow> fin (setLightBattery fs st l log)
         | NOTIFICATIONS \<Rightarrow> fin (setLightNotifications fs st l log)
         | ATTENTION \<Rightarrow> fin (setLightNotifications fs st l log)
         | _ \<Rightarrow> (LIGHT_NOT_SUPPORTED, l, log))"

definition getSupportedTypes :: "light \<Rightarrow> light_type list" where
  "getSupportedTypes l = mSupportedTypes l"

text \<open>A client's sequence of calls.\<close>

fun light_run ::
  "sysfs \<Rightarrow> (light_type \<times> light_state) list \<Rightarrow> light \<times> wlog \<Rightarrow> light \<times> wlog" where
  "light_run fs [] ll = ll"
| "light_run fs ((t, st) # cs) ll = light_run fs cs (snd (setLight fs t st ll))"

subsection \<open>Reference definitions\<close>

definition dark :: light_state where
  "dark = \<lparr>color = 0, flashMode = FLASH_NONE, flashOnMs = 0, flashOffMs = 0,
           brightnessMode = BR_USER\<rparr>"

text \<open>A sysfs whose answers to writes do not depend on what was written before.\<close>

definition static_fs ::
  "(string \<Rightarrow> bool) \<Rightarrow> (string \<Rightarrow> read_result) \<Rightarrow> (string \<Rightarrow> bool) \<Rightarrow> int \<Rightarrow> sysfs" where
  "static_fs ex rd ok lp =
     \<lparr>sf_exists = ex, sf_read = rd, sf_write = (\<lambda>_. ok), sf_lp_brightness = lp\<rparr>"

text \<open>What the LED is to show: the battery light wins while it is lit.\<close>

definition led_spec :: "light \<Rightarrow> light_state" where
  "led_spec l = (if isLit (batteryState l) then batteryState l else notificationState l)"

definition led_writes :: "light \<Rightarrow> light_state \<Rightarrow> wlog" where
  "led_writes l st =
     (let c = led_color l st
      in [(LED_FILE ''red'' ''brightness'', show_int (red c) @ [CHR 0x0A]),
          (LED_FILE ''green'' ''brightness'', show_int (green c) @ [CHR 0x0A]),
          (LED_FILE ''blue'' ''brightness'', show_int (blue c) @ [CHR 0x0A])])"

text \<open>The blink switch of the LED driver: the last value written to it.\<close>

definition sync_value :: "wlog \<Rightarrow> string option" where
  "sync_value log = map_of (rev log) (LED_FILE ''rgb'' ''sync_state'')"

definition blink_inv :: "light \<times> wlog \<Rightarrow> bool" where
  "blink_inv ll \<longleftrightarrow>
     (mIsBlinking (fst ll) \<longleftrightarrow> sync_value (snd ll) = Some (''1'' @ [CHR 0x0A]))"

definition light_inv :: "light \<times> wlog \<Rightarrow> bool" where
  "light_inv ll \<longleftrightarrow> blink_inv ll \<and> mLcdFile (fst ll) \<noteq> LED_FILE ''rgb'' ''sync_state''"

text \<open>
  The contract of a handler that runs under one of the two locks: its answer, and the text it
  appends to the log, do not depend on what other handlers wrote before.
\<close>

locale appender =
  fixes act :: "wlog \<Rightarrow> 'a \<times> wlog"
  assumes appends: "\<exists>a w. \<forall>log. act log = (a, log @ w)"

locale two_appenders = f: appender act + g: appender act'
  for act :: "wlog \<Rightarrow> 'a \<times> wlog" and act' :: "wlog \<Rightarrow> 'b \<times> wlog"
begin

lemma commute:
  "\<exists>a b w w'. \<forall>log.
     (let (x, log1) = act log; (y, log2) = act' log1 in (x, y, log2)) = (a, b, log @ w @ w') \<and>
     (let (y, log1) = act' log; (x, log2) = act log1 in (x, y, log2)) = (a, b, log @ w' @ w)"
proof -
  obtain a w where "\<forall>log. act log = (a, log @ w)"
    using f.appends by blast
  moreover obtain b w' where "\<forall>log. act' log = (b, log @ w')"
    using g.appends by blast
  ultimately have "\<forall>log.
     (let (x, log1) = act log; (y, log2) = act' log1 in (x, y, log2)) = (a, b, log @ w @ w') \<and>
     (let (y, log1) = act' log; (x, log2) = act log1 in (x, y, log2)) = (a, b, log @ w' @ w)"
    by simp
  then show ?thesis by blast
qed

end

section \<open>Arithmetic\<close>

lemma channel_range: "0 \<le> uint ((x :: u32) AND 0xff) \<and> uint (x AND 0xff) \<le> 255"
proof -
  have "uint (x AND 0xff) \<le> uint (0xff :: u32)"
    using word_and_le1 [of x "0xff"] by (simp only: word_le_def)
  then show ?thesis by simp
qed

lemma weighted_channels:
  fixes r g b :: int
  assumes "0 \<le> r" "r \<le> 255" "0 \<le> g" "g \<le> 255" "0 \<le> b" "b \<le> 255"
  shows "0 \<le> (77 * r + 150 * g + 29 * b) div 256 \<and> (77 * r + 150 * g + 29 * b) div 256 \<le> 255"
proof -
  have "(77 * r + 150 * g + 29 * b) div 256 \<le> (255 * 256) div 256"
    using assms by (intro zdiv_mono1) auto
  with assms show ?thesis by (simp add: pos_imp_zdiv_nonneg_iff)
qed

lemma rgbToBrightness_range: "0 \<le> rgbToBrightness st \<and> rgbToBrightness st \<le> 255"
  unfolding rgbToBrightness_def Let_def
  using channel_range by (intro weighted_channels) auto

lemma scaleBrightness_eq:
  assumes "0 \<le> b" "b \<le> 255" "0 \<le> m" "m \<le> 2 ^ 23"
  shows "scaleBrightness b m = (b * m + 127) div 255"
proof -
  have "b * m \<le> 255 * 2 ^ 23"
    using assms by (intro mult_mono) auto
  moreover have "0 \<le> b * m" using assms by simp
  ultimately have "wrap32 (b * m + 127) = b * m + 127"
    by (intro wrap32_id) auto
  with \<open>0 \<le> b * m\<close> show ?thesis
    by (simp add: scaleBrightness_def cdiv_nonneg)
qed

lemma scaleBrightness_range:
  assumes "0 \<le> b" "b \<le> 255" "0 \<le> m" "m \<le> 2 ^ 23"
  shows "0 \<le> scaleBrightness b m \<and> scaleBrightness b m \<le> m"
proof -
  have "b * m \<le> 255 * m" using assms by (intro mult_right_mono) auto
  then have "(b * m + 127) div 255 \<le> (255 * m + 127) div 255"
    by (intro zdiv_mono1) auto
  also have "\<dots> = m" by simp
  finally show ?thesis using assms by (simp add: scaleBrightness_eq pos_imp_zdiv_nonneg_iff)
qed

lemma lcd_value_range:
  assumes "1 \<le> b" "b \<le> 255" "64 \<le> m" "m \<le> 2 ^ 23"
  shows "1 \<le> lcd_value m b \<and> lcd_value m b \<le> m"
proof (cases "b = 255")
  case True
  with assms show ?thesis by (simp add: lcd_value_def)
next
  case False
  then have "(b - 1) * m \<le> 253 * m" using assms by (intro mult_right_mono) auto
  moreover have "253 * m + 127 \<le> 255 * (m - 1) + 254"
    using assms(3) by (simp add: algebra_simps)
  ultimately have "(b - 1) * m + 127 \<le> 255 * (m - 1) + 254"
    by linarith
  then have "((b - 1) * m + 127) div 255 \<le> (255 * (m - 1) + 254) div 255"
    by (intro zdiv_mono1) auto
  also have "\<dots> = m - 1" by simp
  finally show ?thesis
    using assms False scaleBrightness_eq [of "b - 1" m] scaleBrightness_range [of "b - 1" m]
    by (simp add: lcd_value_def)
qed

lemma lcd_value_mono:
  assumes "1 \<le> b" "b \<le> b'" "b' \<le> 255" "64 \<le> m" "m \<le> 2 ^ 23"
  shows "lcd_value m b \<le> lcd_value m b'"
proof (cases "b' = 255")
  case True
  with assms lcd_value_range [of b m] show ?thesis by (simp add: lcd_value_def)
next
  case False
  then have "(b - 1) * m + 127 \<le> (b' - 1) * m + 127"
    using assms by (simp add: mult_right_mono)
  then have "((b - 1) * m + 127) div 255 \<le> ((b' - 1) * m + 127) div 255"
    by (intro zdiv_mono1) auto
  with assms False show ?thesis
    using scaleBrightness_eq [of "b - 1" m] scaleBrightness_eq [of "b' - 1" m]
    by (simp add: lcd_value_def)
qed

lemma show_int_length:
  assumes "- (2 ^ 31) \<le> x" and "x < 2 ^ 31"
  shows "length (show_int x) \<le> 11"
proof (cases "x < 0")
  case True
  have "nat (- x) \<le> 2 ^ 31" using assms by simp
  then have "nat (- x) < 10 ^ 10" by (rule order.strict_trans1) simp
  with show_nat_length [of 10 "nat (- x)"] True show ?thesis by (simp add: show_int_def)
next
  case False
  have "nat x \<le> 2 ^ 31" using assms by simp
  then have "nat x < 10 ^ 10" by (rule order.strict_trans1) simp
  with show_nat_length [of 10 "nat x"] False show ?thesis by (simp add: show_int_def)
qed

lemma cdiv_int32:
  assumes "- (2 ^ 31) \<le> x" and "x < 2 ^ 31"
  shows "- (2 ^ 31) \<le> cdiv x 255 \<and> cdiv x 255 < 2 ^ 31"
proof -
  have "\<bar>x\<bar> div 255 \<le> (2 ^ 31) div 255"
    using assms by (intro zdiv_mono1) auto
  moreover have "0 \<le> \<bar>x\<bar> div 255" by (simp add: pos_imp_zdiv_nonneg_iff)
  ultimately show ?thesis by (cases "x < 0"; cases "x = 0") (auto simp: cdiv_def)
qed

text \<open>The buffer of \<^verbatim>\<open>write_lut\<close> is large enough for every \<^verbatim>\<open>int\<close>.\<close>

lemma write_lut_scaled:
  "write_lut fs file (scaleBrightness b m) log =
     write_file fs file (show_int (scaleBrightness b m) @ '',0'' @ [CHR 0x0A]) log"
  using show_int_length [of "scaleBrightness b m"] cdiv_int32 [of "wrap32 (b * m + 127)"]
    wrap32_range [of "b * m + 127"]
  by (simp add: write_lut_def scaleBrightness_def)

section \<open>Paths\<close>

lemmas path_defs = LED_FILE_def BUTTON_FILE_def PERSISTENCE_FILE_def LCD_CLASS_BASE_def
  LCD_CLASS_BASE2_def

lemma sync_path_distinct:
  "LED_FILE led f = LED_FILE ''rgb'' ''sync_state'' \<longleftrightarrow> led @ ''/'' @ f = ''rgb/sync_state''"
  "BUTTON_FILE \<noteq> LED_FILE ''rgb'' ''sync_state''"
  "PERSISTENCE_FILE \<noteq> LED_FILE ''rgb'' ''sync_state''"
  by (simp_all add: path_defs)

lemma sync_value_snoc:
  "sync_value (log @ [(p, t)]) =
     (if p = LED_FILE ''rgb'' ''sync_state'' then Some t else sync_value log)"
  by (simp add: sync_value_def)

lemma sync_value_write_file:
  "p \<noteq> LED_FILE ''rgb'' ''sync_state'' \<Longrightarrow>
   sync_value (snd (write_file fs p t log)) = sync_value log"
  by (simp add: write_file_def sync_value_snoc)

lemma sync_value_write_int:
  "p \<noteq> LED_FILE ''rgb'' ''sync_state'' \<Longrightarrow>
   sync_value (snd (write_int fs p v log)) = sync_value log"
  by (simp add: write_int_def sync_value_write_file)

lemma sync_value_write_lut:
  "p \<noteq> LED_FILE ''rgb'' ''sync_state'' \<Longrightarrow>
   sync_value (snd (write_lut fs p v log)) = sync_value log"
  by (simp add: write_lut_def Let_def sync_value_write_file)

lemma sync_value_write_and:
  "p \<noteq> LED_FILE ''rgb'' ''sync_state'' \<Longrightarrow>
   sync_value (snd (write_and fs p v sl)) = sync_value (snd sl)"
  by (simp add: write_and_def sync_value_write_int)

lemma sync_value_blink_values:
  assumes "led \<in> {''red'', ''green'', ''blue''}"
  shows "sync_value (snd (HANDLE_LED_BLINK_VALUES fs led v on off sl)) = sync_value (snd sl)"
  using assms
  by (auto simp: HANDLE_LED_BLINK_VALUES_def Let_def split_beta sync_value_write_int
      sync_value_write_lut sync_path_distinct)

lemma sync_value_speaker:
  assumes "\<And>log. sf_write fs log (LED_FILE ''rgb'' ''sync_state'')"
  shows "sync_value (snd (snd (setSpeakerLightLocked fs st l log))) =
    (if flashMode st \<noteq> FLASH_NONE then Some (show_int 1 @ [CHR 0x0A])
     else if mIsBlinking l then Some (show_int 0 @ [CHR 0x0A]) else sync_value log)"
proof -
  have sync: "sync_value (snd (write_int fs (LED_FILE ''rgb'' ''sync_state'') v log)) =
      Some (show_int v @ [CHR 0x0A])" for v
    using assms by (simp add: write_int_def write_file_def sync_value_snoc)
  show ?thesis
    by (simp add: setSpeakerLightLocked_def Let_def split_beta sync sync_value_write_int
        sync_value_write_and sync_value_blink_values sync_path_distinct)
qed

lemma setSpeakerLightLocked_state:
  "fst (snd (setSpeakerLightLocked fs st l log)) = l\<lparr>mIsBlinking := (flashMode st \<noteq> FLASH_NONE)\<rparr>"
  by (simp add: setSpeakerLightLocked_def Let_def split_beta)

lemma setLightBacklight_sync:
  assumes "mLcdFile l \<noteq> LED_FILE ''rgb'' ''sync_state''"
  shows "sync_value (snd (snd (setLightBacklight fs st l log))) = sync_value log"
    and "mIsBlinking (fst (snd (setLightBacklight fs st l log))) = mIsBlinking l"
    and "mLcdFile (fst (snd (setLightBacklight fs st l log))) = mLcdFile l"
  using assms
  by (simp_all add: setLightBacklight_def Let_def split_beta sync_value_write_int
      sync_path_distinct)

lemma show_int_digits [simp]: "show_int 1 = ''1''" "show_int 0 = ''0''"
  by code_simp+

lemma speaker_light_inv:
  assumes "\<And>log. sf_write fs log (LED_FILE ''rgb'' ''sync_state'')" and "light_inv (l, log)"
    and "mIsBlinking l' = mIsBlinking l" and "mLcdFile l' = mLcdFile l"
  shows "light_inv (snd (setSpeakerLightLocked fs st l' log))"
  using assms(2-) sync_value_speaker [OF assms(1), of st l' log]
    setSpeakerLightLocked_state [of fs st l' log]
  by (auto simp: light_inv_def blink_inv_def split_beta split: if_splits)

lemma setLight_light_inv:
  assumes "\<And>log. sf_write fs log (LED_FILE ''rgb'' ''sync_state'')" and "light_inv ll"
  shows "light_inv (snd (setLight fs t st ll))"
proof -
  obtain l log where ll: "ll = (l, log)" by force
  note spk = speaker_light_inv [OF assms(1) assms(2) [unfolded ll]]
  have fin: "snd (case r of (ok, x) \<Rightarrow> (if ok then SUCCESS else UNKNOWN, x)) = snd r"
    for r :: "bool \<times> light \<times> wlog"
    by (simp split: prod.splits)
  show ?thesis
  proof (cases t)
    case BACKLIGHT
    then have "snd (setLight fs t st ll) = snd (setLightBacklight fs st l log)"
      by (simp add: setLight_def ll split: prod.splits)
    moreover have lcd: "mLcdFile l \<noteq> LED_FILE ''rgb'' ''sync_state''"
      using assms(2) by (simp add: light_inv_def ll)
    ultimately show ?thesis
      using assms(2)
      by (simp add: light_inv_def blink_inv_def ll setLightBacklight_sync [OF lcd])
  next
    case BUTTONS
    with assms(2) ll show ?thesis
      by (simp add: setLight_def setLightButtons_def light_inv_def blink_inv_def split_beta Let_def
          sync_value_write_int sync_path_distinct)
  qed (use assms(2) ll spk in \<open>simp_all add: setLight_def fin setLightBattery_def
      setLightNotifications_def handleSpeakerBatteryLocked_def\<close>)
qed

lemma light_run_inv:
  assumes "\<And>log. sf_write fs log (LED_FILE ''rgb'' ''sync_state'')"
  shows "light_inv ll \<Longrightarrow> light_inv (light_run fs cs ll)"
proof (induction cs arbitrary: ll)
  case (Cons c cs)
  then show ?case
    using setLight_light_inv [OF assms Cons.prems] by (cases c) simp
qed simp

lemma Light_light_inv:
  assumes "Light fs j1 j2 b n = Some l"
  shows "light_inv (l, [])"
proof -
  from assms have "mLcdFile l \<in> {LCD_CLASS_BASE @ ''/brightness'', LCD_CLASS_BASE2 @ ''/brightness''}"
      "\<not> mIsBlinking l"
    by (auto simp: Light_def Let_def split: if_splits)
  then show ?thesis
    by (auto simp: light_inv_def blink_inv_def sync_value_def path_defs)
qed

section \<open>Handlers of the two locks\<close>

lemma write_static:
  "write_int (static_fs ex rd ok lp) p v log =
     (ok p, log @ (if ok p then [(p, show_int v @ [CHR 0x0A])] else []))"
  "write_file (static_fs ex rd ok lp) p t log =
     (ok p, log @ (if ok p then [(p, t @ [CHR 0x0A])] else []))"
  by (simp_all add: write_int_def write_file_def static_fs_def)

lemma write_lut_static:
  "\<exists>s w. \<forall>log. write_lut (static_fs ex rd ok lp) p v log = (s, log @ w)"
  by (auto simp: write_lut_def Let_def write_static)

lemma blink_values_static:
  "\<exists>s' w. \<forall>s log. HANDLE_LED_BLINK_VALUES (static_fs ex rd ok lp) led v on off (s, log) =
     (s \<and> s', log @ w)"
proof -
  obtain s1 w1 where "\<forall>log. write_lut (static_fs ex rd ok lp) (LED_FILE led ''lut_pwm'') v log =
      (s1, log @ w1)"
    using write_lut_static by blast
  then show ?thesis
    by (cases "v = 0") (auto simp: HANDLE_LED_BLINK_VALUES_def write_static)
qed

lemma speaker_static:
  "\<exists>s w. \<forall>log. setSpeakerLightLocked (static_fs ex rd ok lp) st l log =
     (s, l\<lparr>mIsBlinking := (flashMode st \<noteq> FLASH_NONE)\<rparr>, log @ w)"
proof -
  let ?h = "\<lambda>led v. HANDLE_LED_BLINK_VALUES (static_fs ex rd ok lp) led v (flashOnMs st) (flashOffMs st)"
  obtain sr wr where r: "\<forall>s log. ?h ''red'' (red (led_color l st)) (s, log) = (s \<and> sr, log @ wr)"
    using blink_values_static by blast
  obtain sg wg where g: "\<forall>s log. ?h ''green'' (green (led_color l st)) (s, log) = (s \<and> sg, log @ wg)"
    using blink_values_static by blast
  obtain sb wb where b: "\<forall>s log. ?h ''blue'' (blue (led_color l st)) (s, log) = (s \<and> sb, log @ wb)"
    using blink_values_static by blast
  show ?thesis
  proof (cases "flashMode st = FLASH_NONE")
    case True
    then show ?thesis
      by (cases "mIsBlinking l"; cases "ok (LED_FILE ''red'' ''brightness'')";
          cases "ok (LED_FILE ''green'' ''brightness'')")
         (auto simp: setSpeakerLightLocked_def Let_def write_static write_and_def)
  next
    case False
    with r g b show ?thesis
      by (simp add: setSpeakerLightLocked_def Let_def write_static)
  qed
qed

lemma backlight_static:
  "\<exists>s l' w. \<forall>log. setLightBacklight (static_fs ex rd ok lp) st l log = (s, l', log @ w)"
proof -
  let ?change = "mHasPersistenceFile l \<and>
    mLowPersistenceEnabled l \<noteq> (brightnessMode st = BR_LOW_PERSISTENCE)"
  show ?thesis
  proof (cases ?change)
    case True
    then show ?thesis
      by (cases "ok PERSISTENCE_FILE") (auto simp: setLightBacklight_def Let_def write_static)
  next
    case False
    then show ?thesis
      by (simp only: setLightBacklight_def Let_def if_False prod.case) (simp add: write_static)
  qed
qed

interpretation backlight: appender
  "\<lambda>log. let (ok, l', log') = setLightBacklight (static_fs ex rd ok0 lp) st l log
         in ((ok, mLowPersistenceEnabled l'), log')"
  using backlight_static [of ex rd ok0 lp st l] by unfold_locales auto

interpretation speaker: appender
  "\<lambda>log. let (ok, l', log') = setSpeakerLightLocked (static_fs ex rd ok0 lp) st l log
         in ((ok, mIsBlinking l'), log')"
  using speaker_static [of ex rd ok0 lp st l] by unfold_locales auto

interpretation locks: two_appenders
  "\<lambda>log. let (ok, l', log') = setLightBacklight (static_fs ex rd ok0 lp) st l log
         in ((ok, mLowPersistenceEnabled l'), log')"
  "\<lambda>log. let (ok, l', log') = handleSpeakerBatteryLocked (static_fs ex rd ok0 lp) l2 log
         in ((ok, mIsBlinking l'), log')"
proof
  show "\<exists>a w. \<forall>log. (let (ok, l', log') = handleSpeakerBatteryLocked (static_fs ex rd ok0 lp) l2 log
         in ((ok, mIsBlinking l'), log')) = (a, log @ w)"
    using speaker_static [of ex rd ok0 lp "batteryState l2" l2]
      speaker_static [of ex rd ok0 lp "notificationState l2" l2]
    by (cases "isLit (batteryState l2)") (auto simp: handleSpeakerBatteryLocked_def)
qed

section \<open>Properties\<close>

lemma write_int_ok:
  "sf_write fs log p \<Longrightarrow> write_int fs p v log = (True, log @ [(p, show_int v @ [CHR 0x0A])])"
  by (simp add: write_int_def write_file_def)

lemma speaker_steady_writes:
  assumes "\<And>log p. sf_write fs log p" and "flashMode st = FLASH_NONE"
  shows "\<exists>w. setSpeakerLightLocked fs st l log =
    (True, l\<lparr>mIsBlinking := False\<rparr>, log @ w @ led_writes l st)"
  using assms(2)
  by (auto simp: setSpeakerLightLocked_def Let_def write_int_ok [OF assms(1)] write_and_def
      led_writes_def)

text \<open>
  C18: the LED shows the battery light while it is lit and the notification light otherwise:
  after any battery, notification or attention request, with sysfs accepting the writes and the
  light to show not flashing, the last three writes program exactly that light's scaled colour,
  blinking is off, and the client is told success.
\<close>

theorem setLight_led_shows_spec:
  assumes "\<And>log p. sf_write fs log p"
    and "t \<in> {BATTERY, NOTIFICATIONS, ATTENTION}"
    and "l1 = (if t = BATTERY then l\<lparr>batteryState := st\<rparr> else l\<lparr>notificationState := st\<rparr>)"
    and "flashMode (led_spec l1) = FLASH_NONE"
  shows "\<exists>w. setLight fs t st (l, log) =
    (SUCCESS, l1\<lparr>mIsBlinking := False\<rparr>, log @ w @ led_writes l1 (led_spec l1))"
proof -
  from speaker_steady_writes [OF assms(1) assms(4), of l1 log] obtain w
    where "setSpeakerLightLocked fs (led_spec l1) l1 log =
      (True, l1\<lparr>mIsBlinking := False\<rparr>, log @ w @ led_writes l1 (led_spec l1))" by blast
  then have "handleSpeakerBatteryLocked fs l1 log =
      (True, l1\<lparr>mIsBlinking := False\<rparr>, log @ w @ led_writes l1 (led_spec l1))"
    by (simp add: handleSpeakerBatteryLocked_def led_spec_def split: if_splits)
  with assms(2,3) show ?thesis
    by (auto simp: setLight_def setLightBattery_def setLightNotifications_def)
qed

theorem setLight_led_shows_spec_witness:
  "\<exists>l w. setLight (static_fs (\<lambda>_. True) (\<lambda>_. ReadOk 255) (\<lambda>_. True) 128) BATTERY
       (dark\<lparr>color := 0xff0000\<rparr>) (l, []) =
     (SUCCESS, l\<lparr>batteryState := dark\<lparr>color := 0xff0000\<rparr>, mIsBlinking := False\<rparr>,
      w @ led_writes l (dark\<lparr>color := 0xff0000\<rparr>))"
proof -
  let ?fs = "static_fs (\<lambda>_. True) (\<lambda>_. ReadOk 255) (\<lambda>_. True) 128"
  let ?st = "dark\<lparr>color := 0xff0000\<rparr>"
  fix l0 :: light
  let ?l1 = "l0\<lparr>batteryState := ?st\<rparr>"
  have spec: "led_spec ?l1 = ?st" by (simp add: led_spec_def isLit_def)
  have "\<exists>w. setLight ?fs BATTERY ?st (l0, []) =
      (SUCCESS, ?l1\<lparr>mIsBlinking := False\<rparr>, [] @ w @ led_writes ?l1 (led_spec ?l1))"
    by (rule setLight_led_shows_spec) (simp_all add: static_fs_def spec dark_def led_spec_def isLit_def)
  moreover have "led_writes ?l1 ?st = led_writes l0 ?st"
    by (simp add: led_writes_def led_color_def Let_def)
  ultimately show ?thesis using spec by auto
qed

text \<open>
  The driver's blink switch and the object agree after any sequence of requests to a freshly
  constructed object, provided sysfs takes the writes to that one file: the last value written
  to \<^verbatim>\<open>sync_state\<close> is 1 exactly when \<^verbatim>\<open>mIsBlinking\<close> is set.
\<close>

theorem light_run_blink_inv:
  assumes "Light fs j1 j2 b n = Some l"
    and "\<And>log. sf_write fs log (LED_FILE ''rgb'' ''sync_state'')"
  shows "blink_inv (light_run fs cs (l, []))"
  using light_run_inv [OF assms(2) Light_light_inv [OF assms(1)], of cs]
  by (simp add: light_inv_def)

theorem light_run_blink_inv_witness:
  "\<exists>l. Light (static_fs (\<lambda>_. True) (\<lambda>_. ReadOk 255) (\<lambda>_. True) 128)
       \<lparr>red = 0, green = 0, blue = 0\<rparr> \<lparr>red = 0, green = 0, blue = 0\<rparr> dark dark = Some l \<and>
     blink_inv (light_run (static_fs (\<lambda>_. True) (\<lambda>_. ReadOk 255) (\<lambda>_. True) 128)
       [(BATTERY, dark\<lparr>flashMode := FLASH_TIMED\<rparr>), (ATTENTION, dark)] (l, []))"
proof -
  let ?fs = "static_fs (\<lambda>_. True) (\<lambda>_. ReadOk 255) (\<lambda>_. True) 128"
  let ?z = "\<lparr>red = 0, green = 0, blue = 0\<rparr>"
  obtain l where l: "Light ?fs ?z ?z dark dark = Some l"
    by (simp add: Light_def static_fs_def Let_def)
  have "blink_inv (light_run ?fs [(BATTERY, dark\<lparr>flashMode := FLASH_TIMED\<rparr>), (ATTENTION, dark)] (l, []))"
    by (rule light_run_blink_inv [OF l]) (simp add: static_fs_def)
  with l show ?thesis by blast
qed



text \<open>
  On a panel with fewer steps the value can pass the maximum, which the comment in the code
  rules out: 11 of 10 for brightness 254.
\<close>

lemma lcd_value_above_max: "lcd_value 10 254 = 11"
  by code_simp

text \<open>
  A handler of the backlight lock and a handler of the LED lock do not interfere: in either
  order they return the same results, leave the same flags, and append the same two pieces of
  log, which only change places.
\<close>

theorem light_locks_commute:
  "\<exists>a b w w'. \<forall>log.
     (let (x, log1) = (let (ok, l', log') = setLightBacklight (static_fs ex rd ok0 lp) st l log
                       in ((ok, mLowPersistenceEnabled l'), log'));
          (y, log2) = (let (ok, l', log') = handleSpeakerBatteryLocked (static_fs ex rd ok0 lp) l log1
                       in ((ok, mIsBlinking l'), log'))
      in (x, y, log2)) = (a, b, log @ w @ w') \<and>
     (let (y, log1) = (let (ok, l', log') = handleSpeakerBatteryLocked (static_fs ex rd ok0 lp) l log
                       in ((ok, mIsBlinking l'), log'));
          (x, log2) = (let (ok, l', log') = setLightBacklight (static_fs ex rd ok0 lp) st l log1
                       in ((ok, mLowPersistenceEnabled l'), log'))
      in (x, y, log2)) = (a, b, log @ w' @ w)"
  by (rule locks.commute)

text \<open>
  The list of supported types is honest: for a constructed object, \<^verbatim>\<open>setLight\<close>
  answers \<^verbatim>\<open>LIGHT_NOT_SUPPORTED\<close>, and then changes nothing, exactly for the types
  that \<^verbatim>\<open>getSupportedTypes\<close> does not report.
\<close>

theorem supported_types_honest:
  assumes "Light fs j1 j2 b n = Some l"
  shows "if t \<in> set (getSupportedTypes l)
    then fst (setLight fs t st (l, log)) \<noteq> LIGHT_NOT_SUPPORTED
    else setLight fs t st (l, log) = (LIGHT_NOT_SUPPORTED, l, log)"
proof -
  have "set (getSupportedTypes l) = {BACKLIGHT, BATTERY, NOTIFICATIONS, ATTENTION} \<union>
      (if mHasButtonFile l then {BUTTONS} else {})"
    using assms by (auto simp: Light_def Let_def getSupportedTypes_def split: if_splits)
  then show ?thesis
    by (cases t) (auto simp: setLight_def setLightButtons_def split_beta Let_def)
qed

theorem supported_types_honest_witness:
  "\<exists>l. Light (static_fs (\<lambda>p. p \<noteq> BUTTON_FILE) (\<lambda>_. ReadOk 255) (\<lambda>_. True) 128)
       \<lparr>red = 0, green = 0, blue = 0\<rparr> \<lparr>red = 0, green = 0, blue = 0\<rparr> dark dark = Some l \<and>
     setLight (static_fs (\<lambda>p. p \<noteq> BUTTON_FILE) (\<lambda>_. ReadOk 255) (\<lambda>_. True) 128) BUTTONS dark (l, [])
       = (LIGHT_NOT_SUPPORTED, l, [])"
proof -
  let ?fs = "static_fs (\<lambda>p. p \<noteq> BUTTON_FILE) (\<lambda>_. ReadOk 255) (\<lambda>_. True) 128"
  let ?z = "\<lparr>red = 0, green = 0, blue = 0\<rparr>"
  obtain l where l: "Light ?fs ?z ?z dark dark = Some l" "BUTTONS \<notin> set (getSupportedTypes l)"
    by (simp add: Light_def static_fs_def Let_def getSupportedTypes_def path_defs)
  with supported_types_honest [OF l(1), of BUTTONS dark "[]"] show ?thesis by auto
qed

text \<open>
  The check in \<^verbatim>\<open>readMaxBrightness\<close> never sees a failed read: when the file is
  missing the variable keeps what it held, and the default is not applied.
\<close>

lemma readMaxBrightness_missing_file:
  "sf_read fs file = NoFile \<Longrightarrow> 0 \<le> cur \<Longrightarrow> readMaxBrightness fs file cur d = cur"
  by (simp add: readMaxBrightness_def read_int_def)

end
