(* ===== verification/Interaction.thy ===== *)
theory Interaction
  imports Prelude
begin

text \<open>
  The interaction boost of the power HAL: \<open>InteractionHandler.cpp\<close> and
  \<open>InteractionHandler.h\<close> of \<open>hardware/power-libperfmgr\<close>.

  The handler object is the record \<open>handler\<close>; its mutex sections are the functions
  \<open>Init\<close>, \<open>Exit_locked\<close>, \<open>Acquire\<close>, \<open>Release\<close> and the body of \<open>Routine\<close>, whose
  program counter is the field \<open>mThread\<close>.  The relation \<open>handler_step\<close> interleaves them:
  one step is one section that runs under \<open>mLock\<close>, or one stretch of the thread between two
  sections.  The hint manager is a library, so a call to it is an entry of a log, and what is
  requested of it is read off that log by \<open>held\<close>.  The kernel (\<open>eventfd\<close>, \<open>poll\<close>,
  \<open>pread\<close>) is a counter and the parameters of \<open>WaitForIdle\<close>.

  Shown here: the counter of the event descriptor follows the states of the protocol, so that
  the clearing read never fails; the hint is requested exactly in the two active states; a
  request is always covered by the recorded deadline; the thread releases the hint when no
  further request arrives, and returns after \<open>Exit\<close>.
\<close>

subsection \<open>The calls to the hint manager\<close>

datatype hint_call = DoHint string | DoHintFor string int | EndHint string

type_synonym hint_log = "hint_call list"

definition held_after :: "string \<Rightarrow> hint_call \<Rightarrow> bool \<Rightarrow> bool" where
  "held_after n c b = (case c of
     DoHint m \<Rightarrow> if m = n then True else b
   | DoHintFor m _ \<Rightarrow> if m = n then True else b
   | EndHint m \<Rightarrow> if m = n then False else b)"

definition held :: "string \<Rightarrow> hint_log \<Rightarrow> bool" where
  "held n log = fold (held_after n) log False"

subsection \<open>The handler\<close>

datatype interaction_state =
    INTERACTION_STATE_UNINITIALIZED
  | INTERACTION_STATE_IDLE
  | INTERACTION_STATE_INTERACTION
  | INTERACTION_STATE_WAITING

record timespec =
  tv_sec :: int
  tv_nsec :: int

text \<open>
  Where the thread stands: before \<open>lk.lock()\<close>, after \<open>lk.unlock()\<close>, inside
  \<open>WaitForIdle\<close> with its two arguments, before \<open>Release\<close>, or returned and not joined.
\<close>

datatype routine_pc = NoThread | AtLock | Unlocked | InWait int int | AtRelease | Returned

record handler =
  mState :: interaction_state
  mIdleFd :: bool
  mEventFd :: bool
  eventfd :: nat
  mWaitMs :: int
  mMinDurationMs :: int
  mMaxDurationMs :: int
  mDurationMs :: int
  mLastTimespec :: timespec
  mThread :: routine_pc

definition InteractionHandler :: handler where
  "InteractionHandler =
     \<lparr>mState = INTERACTION_STATE_UNINITIALIZED, mIdleFd = False, mEventFd = False, eventfd = 0,
      mWaitMs = 100, mMinDurationMs = 1400, mMaxDurationMs = 5650, mDurationMs = 0,
      mLastTimespec = \<lparr>tv_sec = 0, tv_nsec = 0\<rparr>, mThread = NoThread\<rparr>"

text \<open>
  Assigning a new \<open>std::thread\<close> over one that was not joined ends the process.
\<close>

definition Init :: "bool \<Rightarrow> bool \<Rightarrow> handler \<Rightarrow> (handler \<times> bool) mem" where
  "Init idle_opens eventfd_opens h =
     (if mState h \<noteq> INTERACTION_STATE_UNINITIALIZED then Inr (h, True)
      else if \<not> idle_opens then Inr (h\<lparr>mIdleFd := False\<rparr>, False)
      else if \<not> eventfd_opens then Inr (h\<lparr>mIdleFd := False, mEventFd := False\<rparr>, False)
      else if mThread h \<noteq> NoThread then Inl Abort
      else Inr (h\<lparr>mIdleFd := True, mEventFd := True, eventfd := 0,
                  mState := INTERACTION_STATE_IDLE, mThread := AtLock\<rparr>, True))"

text \<open>
  \<open>write\<close> on a nonblocking event descriptor adds to its counter, and fails when the sum
  would pass \<open>2 ^ 64 - 2\<close>; the failure is only logged.
\<close>

definition AbortWaitLocked :: "handler \<Rightarrow> handler" where
  "AbortWaitLocked h =
     (if eventfd h < 2 ^ 64 - 2 then h\<lparr>eventfd := eventfd h + 1\<rparr> else h)"

definition Exit_locked :: "handler \<Rightarrow> handler" where
  "Exit_locked h =
     (if mState h = INTERACTION_STATE_UNINITIALIZED then h
      else (AbortWaitLocked h)\<lparr>mState := INTERACTION_STATE_UNINITIALIZED\<rparr>)"

text \<open>The rest of \<open>Exit\<close>, once \<open>join\<close> finds the thread returned.\<close>

definition Exit_join :: "handler \<Rightarrow> handler" where
  "Exit_join h = h\<lparr>mThread := NoThread, mEventFd := False, mIdleFd := False\<rparr>"

definition PerfLock :: "hint_log \<Rightarrow> hint_log" where
  "PerfLock log = log @ [DoHint ''INTERACTION'']"

definition PerfRel :: "hint_log \<Rightarrow> hint_log" where
  "PerfRel log = log @ [EndHint ''INTERACTION'']"

definition MSINSEC :: int where
  "MSINSEC = 1000"

definition USINMS :: int where
  "USINMS = 1000000"

definition CalcTimespecDiffMs :: "timespec \<Rightarrow> timespec \<Rightarrow> int" where
  "CalcTimespecDiffMs start stop =
     0 + (tv_sec stop - tv_sec start) * MSINSEC + cdiv (tv_nsec stop - tv_nsec start) USINMS"

definition finalDuration :: "handler \<Rightarrow> int \<Rightarrow> int" where
  "finalDuration h duration =
     (let inputDuration = wrap32 (duration + 650)
      in if inputDuration > mMaxDurationMs h then mMaxDurationMs h
         else if inputDuration > mMinDurationMs h then inputDuration
         else mMinDurationMs h)"

definition Acquire :: "int \<Rightarrow> timespec \<Rightarrow> handler \<times> hint_log \<Rightarrow> handler \<times> hint_log" where
  "Acquire duration cur_timespec s = (case s of (h, log) \<Rightarrow>
     if mState h = INTERACTION_STATE_UNINITIALIZED then (h, log)
     else
       let final = finalDuration h duration
       in if mState h \<noteq> INTERACTION_STATE_IDLE \<and> final \<le> mDurationMs h \<and>
             CalcTimespecDiffMs (mLastTimespec h) cur_timespec \<le> mDurationMs h - final
          then (h, log)
          else
            let h1 = h\<lparr>mLastTimespec := cur_timespec, mDurationMs := final\<rparr>;
                h2 = (if mState h1 = INTERACTION_STATE_WAITING then AbortWaitLocked h1 else h1);
                log2 = (if mState h1 = INTERACTION_STATE_IDLE then PerfLock log else log)
            in (h2\<lparr>mState := INTERACTION_STATE_INTERACTION\<rparr>, log2))"

text \<open>Reading the event descriptor takes its whole count; at zero the read fails.\<close>

definition Release :: "handler \<times> hint_log \<Rightarrow> handler \<times> hint_log" where
  "Release s = (case s of (h, log) \<Rightarrow>
     if mState h = INTERACTION_STATE_WAITING
     then (h\<lparr>mState := INTERACTION_STATE_IDLE\<rparr>, PerfRel log)
     else (h\<lparr>eventfd := 0\<rparr>, log))"

subsection \<open>Waiting for the display to become idle\<close>

record poll_result =
  poll_ret :: int
  revents0 :: bool
  revents1 :: bool
  slept :: int

record wait_env =
  poll_abort :: "int \<Rightarrow> poll_result"
  pread_ret :: int
  pread_data :: string
  poll_idle :: "int \<Rightarrow> poll_result"

datatype wait_outcome =
    WaitAborted | WaitPollError | UnexpectedEOF | AlreadyIdle
  | IdleError | IdleTimedOut | IdleAborted | IdleDetected | IdleOther

text \<open>Which message \<open>WaitForIdle\<close> ends with, and how long its calls to \<open>poll\<close> slept.\<close>

definition WaitForIdle :: "wait_env \<Rightarrow> int \<Rightarrow> int \<Rightarrow> wait_outcome \<times> int" where
  "WaitForIdle env wait_ms timeout_ms =
     (let p = poll_abort env wait_ms
      in if poll_ret p > 0 then (WaitAborted, slept p)
         else if poll_ret p < 0 then (WaitPollError, slept p)
         else if pread_ret env = 0 then (UnexpectedEOF, slept p)
         else if take 4 (pread_data env) = ''idle'' then (AlreadyIdle, slept p)
         else
           let q = poll_idle env timeout_ms;
               total = slept p + slept q
           in if poll_ret q < 0 then (IdleError, total)
              else if poll_ret q = 0 then (IdleTimedOut, total)
              else if revents0 q then (IdleAborted, total)
              else if revents1 q then (IdleDetected, total)
              else (IdleOther, total))"

subsection \<open>The thread and the interleavings\<close>

text \<open>
  One stretch of \<open>Routine\<close>; \<open>None\<close> where the thread blocks on the condition variable or has
  ended.  The result of \<open>WaitForIdle\<close> is not used by the caller.
\<close>

definition Routine :: "handler \<times> hint_log \<Rightarrow> (handler \<times> hint_log) option" where
  "Routine s = (case s of (h, log) \<Rightarrow>
     (case mThread h of
        NoThread \<Rightarrow> None
      | AtLock \<Rightarrow>
          if mState h = INTERACTION_STATE_IDLE then None
          else if mState h = INTERACTION_STATE_UNINITIALIZED
          then Some (h\<lparr>mThread := Returned\<rparr>, log)
          else Some (h\<lparr>mState := INTERACTION_STATE_WAITING, mThread := Unlocked\<rparr>, log)
      | Unlocked \<Rightarrow> Some (h\<lparr>mThread := InWait (mWaitMs h) (mDurationMs h)\<rparr>, log)
      | InWait wait_ms timeout_ms \<Rightarrow> Some (h\<lparr>mThread := AtRelease\<rparr>, log)
      | AtRelease \<Rightarrow> (case Release (h, log) of (h1, log1) \<Rightarrow> Some (h1\<lparr>mThread := AtLock\<rparr>, log1))
      | Returned \<Rightarrow> None))"

fun Routine_iter :: "nat \<Rightarrow> handler \<times> hint_log \<Rightarrow> handler \<times> hint_log" where
  "Routine_iter 0 s = s"
| "Routine_iter (Suc n) s = (case Routine s of None \<Rightarrow> s | Some t \<Rightarrow> Routine_iter n t)"

datatype handler_label =
    LInit bool bool | LExit | LJoin | LAcquire int timespec | LThread

inductive handler_step ::
    "handler_label \<Rightarrow> handler \<times> hint_log \<Rightarrow> handler \<times> hint_log \<Rightarrow> bool" where
  step_Init: "Init a b h = Inr (h', r) \<Longrightarrow> handler_step (LInit a b) (h, log) (h', log)"
| step_Exit: "handler_step LExit (h, log) (Exit_locked h, log)"
| step_Join: "mState h = INTERACTION_STATE_UNINITIALIZED \<Longrightarrow> mThread h = Returned \<Longrightarrow>
    handler_step LJoin (h, log) (Exit_join h, log)"
| step_Acquire: "handler_step (LAcquire d t) s (Acquire d t s)"
| step_Thread: "Routine s = Some s' \<Longrightarrow> handler_step LThread s s'"

inductive_cases handler_stepE: "handler_step l s t"

text \<open>The relation as a function of the label, to run a schedule.\<close>

fun handler_exec :: "handler_label \<Rightarrow> handler \<times> hint_log \<Rightarrow> (handler \<times> hint_log) option" where
  "handler_exec (LInit a b) (h, log) = (case Init a b h of Inl _ \<Rightarrow> None | Inr (h', _) \<Rightarrow> Some (h', log))"
| "handler_exec LExit (h, log) = Some (Exit_locked h, log)"
| "handler_exec LJoin (h, log) =
     (if mState h = INTERACTION_STATE_UNINITIALIZED \<and> mThread h = Returned
      then Some (Exit_join h, log) else None)"
| "handler_exec (LAcquire d t) s = Some (Acquire d t s)"
| "handler_exec LThread s = Routine s"

fun handler_schedule ::
    "handler_label list \<Rightarrow> handler \<times> hint_log \<Rightarrow> (handler \<times> hint_log) option" where
  "handler_schedule [] s = Some s"
| "handler_schedule (l # ls) s =
     (case handler_exec l s of None \<Rightarrow> None | Some t \<Rightarrow> handler_schedule ls t)"

subsection \<open>The protocol\<close>

definition in_wait :: "routine_pc \<Rightarrow> bool" where
  "in_wait pc = (case pc of Unlocked \<Rightarrow> True | InWait _ _ \<Rightarrow> True | AtRelease \<Rightarrow> True | _ \<Rightarrow> False)"

definition active :: "handler \<Rightarrow> bool" where
  "active h \<longleftrightarrow> mState h = INTERACTION_STATE_INTERACTION \<or> mState h = INTERACTION_STATE_WAITING"

text \<open>What the counter of the event descriptor holds in each state of handler and thread.\<close>

definition eventfd_inv :: "handler \<Rightarrow> bool" where
  "eventfd_inv h = (case mState h of
     INTERACTION_STATE_UNINITIALIZED \<Rightarrow>
       mThread h = NoThread \<or> mThread h = AtLock \<or> mThread h = Returned \<or>
       (in_wait (mThread h) \<and> eventfd h \<in> {1, 2})
   | INTERACTION_STATE_IDLE \<Rightarrow> mThread h = AtLock \<and> eventfd h = 0
   | INTERACTION_STATE_INTERACTION \<Rightarrow>
       (mThread h = AtLock \<and> eventfd h = 0) \<or> (in_wait (mThread h) \<and> eventfd h = 1)
   | INTERACTION_STATE_WAITING \<Rightarrow> in_wait (mThread h) \<and> eventfd h = 0)"

definition duration_inv :: "handler \<Rightarrow> bool" where
  "duration_inv h \<longleftrightarrow> mWaitMs h = 100 \<and> mMinDurationMs h = 1400 \<and> mMaxDurationMs h = 5650 \<and>
     (mDurationMs h = 0 \<or> 1400 \<le> mDurationMs h \<and> mDurationMs h \<le> 5650) \<and>
     (active h \<or> in_wait (mThread h) \<longrightarrow> 1400 \<le> mDurationMs h) \<and>
     (\<forall>w t. mThread h = InWait w t \<longrightarrow> w = 100 \<and> 1400 \<le> t \<and> t \<le> 5650)"

definition handler_inv :: "handler \<times> hint_log \<Rightarrow> bool" where
  "handler_inv s \<longleftrightarrow> eventfd_inv (fst s) \<and> duration_inv (fst s)"

definition hint_inv :: "handler \<times> hint_log \<Rightarrow> bool" where
  "hint_inv s \<longleftrightarrow> handler_inv s \<and> (held ''INTERACTION'' (snd s) \<longleftrightarrow> active (fst s))"

definition drained :: "handler \<times> hint_log \<Rightarrow> bool" where
  "drained s \<longleftrightarrow> mState (fst s) = INTERACTION_STATE_IDLE \<and> mThread (fst s) = AtLock \<and>
     \<not> held ''INTERACTION'' (snd s)"

text \<open>A short schedule: one request, and the thread enters its wait.\<close>

definition schedule_waiting :: "handler_label list" where
  "schedule_waiting =
     [LInit True True, LAcquire 0 \<lparr>tv_sec = 1, tv_nsec = 0\<rparr>, LThread, LThread]"

text \<open>The documented behaviour of \<open>poll\<close>: it sleeps no longer than the timeout, and not at
  all when the event descriptor is readable.\<close>

definition poll_sleeps :: "wait_env \<Rightarrow> nat \<Rightarrow> bool" where
  "poll_sleeps env count \<longleftrightarrow>
     (\<forall>t. 0 \<le> t \<longrightarrow> 0 \<le> slept (poll_abort env t) \<and> slept (poll_abort env t) \<le> t \<and>
                   0 \<le> slept (poll_idle env t) \<and> slept (poll_idle env t) \<le> t) \<and>
     (0 < count \<longrightarrow> (\<forall>t. 0 < poll_ret (poll_abort env t) \<and> slept (poll_abort env t) = 0))"

definition timespec_ns :: "timespec \<Rightarrow> int" where
  "timespec_ns t = tv_sec t * 1000000000 + tv_nsec t"

definition timespec_wf :: "timespec \<Rightarrow> bool" where
  "timespec_wf t \<longleftrightarrow> 0 \<le> tv_nsec t \<and> tv_nsec t < 1000000000"

subsection \<open>Reading the log\<close>

lemma held_Nil [simp]: "held n [] = False"
  by (simp add: held_def)

lemma held_append [simp]: "held n (log @ cs) = fold (held_after n) cs (held n log)"
  by (simp add: held_def)

lemma held_after_simps [simp]:
  "held_after n (DoHint m) b \<longleftrightarrow> m = n \<or> b"
  "held_after n (DoHintFor m d) b \<longleftrightarrow> m = n \<or> b"
  "held_after n (EndHint m) b \<longleftrightarrow> m \<noteq> n \<and> b"
  by (simp_all add: held_after_def)

lemma held_PerfLock [simp]: "held n (PerfLock log) \<longleftrightarrow> n = ''INTERACTION'' \<or> held n log"
  by (auto simp: PerfLock_def)

lemma held_PerfRel [simp]: "held n (PerfRel log) \<longleftrightarrow> n \<noteq> ''INTERACTION'' \<and> held n log"
  by (auto simp: PerfRel_def)

subsection \<open>Preservation of the protocol invariant\<close>

lemma in_wait_simps [simp]:
  "\<not> in_wait NoThread" "\<not> in_wait AtLock" "in_wait Unlocked" "in_wait (InWait w t)"
  "in_wait AtRelease" "\<not> in_wait Returned"
  by (simp_all add: in_wait_def)

lemma AbortWaitLocked_fields [simp]:
  "mState (AbortWaitLocked h) = mState h" "mThread (AbortWaitLocked h) = mThread h"
  "mWaitMs (AbortWaitLocked h) = mWaitMs h" "mMinDurationMs (AbortWaitLocked h) = mMinDurationMs h"
  "mMaxDurationMs (AbortWaitLocked h) = mMaxDurationMs h"
  "mDurationMs (AbortWaitLocked h) = mDurationMs h"
  "mLastTimespec (AbortWaitLocked h) = mLastTimespec h"
  "eventfd h < 2 \<Longrightarrow> eventfd (AbortWaitLocked h) = eventfd h + 1"
  by (simp_all add: AbortWaitLocked_def)

lemma finalDuration_range:
  assumes "mMinDurationMs h = 1400" "mMaxDurationMs h = 5650"
  shows "1400 \<le> finalDuration h d \<and> finalDuration h d \<le> 5650"
  using assms by (simp add: finalDuration_def Let_def)

lemma finalDuration_covers:
  assumes "mMinDurationMs h = 1400" "mMaxDurationMs h = 5650"
    and "- (2 ^ 31) \<le> d" "d + 650 < 2 ^ 31"
  shows "finalDuration h d = max 1400 (min 5650 (d + 650))"
proof -
  have "wrap32 (d + 650) = d + 650"
    using assms by (intro wrap32_id) simp_all
  with assms show ?thesis by (simp add: finalDuration_def Let_def max_def min_def)
qed

lemmas handler_state_cases = interaction_state.split routine_pc.split

lemma Init_inv:
  assumes "Init a b h = Inr (h', r)" "handler_inv (h, log)"
  shows "handler_inv (h', log)"
proof (cases "mState h = INTERACTION_STATE_UNINITIALIZED \<and> a \<and> b")
  case True
  with assms(1) have "h' = h\<lparr>mIdleFd := True, mEventFd := True, eventfd := 0,
      mState := INTERACTION_STATE_IDLE, mThread := AtLock\<rparr>"
    by (simp add: Init_def split: if_split_asm)
  with assms(2) True show ?thesis
    by (simp add: handler_inv_def eventfd_inv_def duration_inv_def active_def)
next
  case False
  with assms(1) have "h' = h \<or> h' = h\<lparr>mIdleFd := False\<rparr> \<or> h' = h\<lparr>mIdleFd := False, mEventFd := False\<rparr>"
    by (auto simp: Init_def split: if_split_asm)
  then have "mState h' = mState h" "mThread h' = mThread h" "eventfd h' = eventfd h"
    "mWaitMs h' = mWaitMs h" "mMinDurationMs h' = mMinDurationMs h"
    "mMaxDurationMs h' = mMaxDurationMs h" "mDurationMs h' = mDurationMs h"
    by auto
  then have "eventfd_inv h' = eventfd_inv h" "duration_inv h' = duration_inv h"
    by (simp_all only: eventfd_inv_def duration_inv_def active_def)
  with assms(2) show ?thesis by (simp add: handler_inv_def)
qed

lemma Exit_locked_inv:
  assumes "handler_inv (h, log)"
  shows "handler_inv (Exit_locked h, log)"
proof (cases "mState h = INTERACTION_STATE_UNINITIALIZED")
  case True
  with assms show ?thesis by (simp add: Exit_locked_def)
next
  case False
  with assms have "eventfd h < 2" "mThread h = AtLock \<or> in_wait (mThread h)"
    by (cases "mState h"; auto simp: handler_inv_def eventfd_inv_def)+
  with False have "eventfd_inv (Exit_locked h)"
    by (auto simp: Exit_locked_def eventfd_inv_def)
  moreover have "duration_inv (Exit_locked h)"
    using assms by (simp add: handler_inv_def duration_inv_def Exit_locked_def active_def)
  ultimately show ?thesis by (simp add: handler_inv_def)
qed

lemma Exit_join_inv:
  assumes "handler_inv (h, log)" "mState h = INTERACTION_STATE_UNINITIALIZED"
  shows "handler_inv (Exit_join h, log)"
  using assms
  by (auto simp: Exit_join_def handler_inv_def eventfd_inv_def duration_inv_def active_def)

lemma Acquire_inv:
  assumes "handler_inv (h, log)"
  shows "handler_inv (Acquire d t (h, log))"
proof -
  have "1400 \<le> finalDuration h d \<and> finalDuration h d \<le> 5650"
    using assms by (intro finalDuration_range) (simp_all add: handler_inv_def duration_inv_def)
  with assms show ?thesis
    by (cases "mState h")
      (auto simp: Acquire_def Let_def handler_inv_def eventfd_inv_def duration_inv_def active_def)
qed

lemma Routine_simps:
  "mThread h = NoThread \<Longrightarrow> Routine (h, log) = None"
  "mThread h = Returned \<Longrightarrow> Routine (h, log) = None"
  "mThread h = AtLock \<Longrightarrow> mState h = INTERACTION_STATE_IDLE \<Longrightarrow> Routine (h, log) = None"
  "mThread h = AtLock \<Longrightarrow> mState h = INTERACTION_STATE_UNINITIALIZED \<Longrightarrow>
     Routine (h, log) = Some (h\<lparr>mThread := Returned\<rparr>, log)"
  "mThread h = AtLock \<Longrightarrow> active h \<Longrightarrow>
     Routine (h, log) = Some (h\<lparr>mState := INTERACTION_STATE_WAITING, mThread := Unlocked\<rparr>, log)"
  "mThread h = Unlocked \<Longrightarrow>
     Routine (h, log) = Some (h\<lparr>mThread := InWait (mWaitMs h) (mDurationMs h)\<rparr>, log)"
  "mThread h = InWait w t \<Longrightarrow> Routine (h, log) = Some (h\<lparr>mThread := AtRelease\<rparr>, log)"
  "mThread h = AtRelease \<Longrightarrow> mState h = INTERACTION_STATE_WAITING \<Longrightarrow>
     Routine (h, log) = Some (h\<lparr>mState := INTERACTION_STATE_IDLE, mThread := AtLock\<rparr>, PerfRel log)"
  "mThread h = AtRelease \<Longrightarrow> mState h \<noteq> INTERACTION_STATE_WAITING \<Longrightarrow>
     Routine (h, log) = Some (h\<lparr>eventfd := 0, mThread := AtLock\<rparr>, log)"
  by (auto simp: Routine_def Release_def active_def)

lemma Routine_inv:
  assumes "Routine (h, log) = Some s'" "handler_inv (h, log)"
  shows "handler_inv s'"
proof (cases "mThread h")
  case AtLock
  with assms show ?thesis
    by (cases "mState h")
      (auto simp: Routine_simps active_def handler_inv_def eventfd_inv_def duration_inv_def)
next
  case AtRelease
  with assms show ?thesis
    by (cases "mState h")
      (auto simp: Routine_simps active_def handler_inv_def eventfd_inv_def duration_inv_def)
next
  case Unlocked
  with assms show ?thesis
    by (cases "mState h")
      (simp_all add: Routine_simps handler_inv_def eventfd_inv_def duration_inv_def
        active_def split: prod.split_asm, auto)
next
  case (InWait w t)
  with assms show ?thesis
    by (cases "mState h")
      (simp_all add: Routine_simps handler_inv_def eventfd_inv_def duration_inv_def
        active_def split: prod.split_asm, auto)
qed (use assms in \<open>simp_all add: Routine_simps\<close>)

lemma handler_step_inv:
  assumes "handler_step l s t" "handler_inv s"
  shows "handler_inv t"
  using assms
proof cases
  case (step_Acquire d u)
  then show ?thesis using assms(2) Acquire_inv [of "fst s" "snd s"] by simp
next
  case step_Thread
  then show ?thesis using assms(2) Routine_inv [of "fst s" "snd s"] by simp
qed (auto intro: Init_inv Exit_locked_inv Exit_join_inv)

interpretation protocol: step_system handler_step "\<lambda>_. True" handler_inv
  by unfold_locales (rule handler_step_inv)

lemma handler_inv_start: "handler_inv (InteractionHandler, [])"
  by (simp add: handler_inv_def InteractionHandler_def eventfd_inv_def duration_inv_def active_def)

lemma handler_inv_run: "run handler_step (InteractionHandler, []) ls s \<Longrightarrow> handler_inv s"
  by (erule protocol.inv_run) (simp_all add: list_all_iff, rule handler_inv_start)

subsection \<open>The hint\<close>

lemma Acquire_held:
  "held n (snd (Acquire d t (h, log))) \<longleftrightarrow>
     held n log \<or> (n = ''INTERACTION'' \<and> mState h = INTERACTION_STATE_IDLE)"
  by (auto simp: Acquire_def Let_def)

lemma Acquire_active:
  "active (fst (Acquire d t (h, log))) \<longleftrightarrow> mState h \<noteq> INTERACTION_STATE_UNINITIALIZED"
  by (cases "mState h") (auto simp: Acquire_def Let_def active_def)

lemma Routine_hint:
  assumes "Routine (h, log) = Some s'" "hint_inv (h, log)"
  shows "held ''INTERACTION'' (snd s') \<longleftrightarrow> active (fst s')"
proof (cases "mThread h")
  case AtLock
  with assms show ?thesis
    by (cases "mState h") (auto simp: Routine_simps active_def hint_inv_def)
next
  case AtRelease
  with assms show ?thesis
    by (cases "mState h")
      (auto simp: Routine_simps active_def hint_inv_def handler_inv_def eventfd_inv_def)
qed (use assms in \<open>auto simp: Routine_simps active_def hint_inv_def\<close>)+

lemma handler_step_hint:
  assumes "handler_step l s t" "l \<noteq> LExit" "hint_inv s"
  shows "hint_inv t"
proof -
  have "handler_inv t"
    using assms handler_step_inv by (auto simp: hint_inv_def)
  moreover have "held ''INTERACTION'' (snd t) \<longleftrightarrow> active (fst t)"
    using assms(1)
  proof cases
    case (step_Init a b h h' r log)
    then show ?thesis using assms(3)
      by (auto simp: Init_def hint_inv_def active_def split: if_splits)
  next
    case (step_Join h log)
    then show ?thesis using assms(3) by (auto simp: hint_inv_def active_def Exit_join_def)
  next
    case (step_Acquire d u)
    then show ?thesis
      using assms(3) Acquire_held [of "''INTERACTION''" d u "fst s" "snd s"]
        Acquire_active [of d u "fst s" "snd s"]
      by (cases "mState (fst s)") (auto simp: hint_inv_def active_def)
  next
    case step_Thread
    then show ?thesis using assms(3) Routine_hint [of "fst s" "snd s"] by simp
  qed (use assms(2) in simp)
  ultimately show ?thesis by (simp add: hint_inv_def)
qed

interpretation hint: step_system handler_step "\<lambda>l. l \<noteq> LExit" hint_inv
  by unfold_locales (rule handler_step_hint)

lemma hint_inv_start: "hint_inv (InteractionHandler, [])"
  using handler_inv_start by (simp add: hint_inv_def active_def InteractionHandler_def)

lemma hint_inv_run:
  "run handler_step (InteractionHandler, []) ls s \<Longrightarrow> LExit \<notin> set ls \<Longrightarrow> hint_inv s"
  by (erule hint.inv_run) (fastforce simp: list_all_iff, rule hint_inv_start)

subsection \<open>Schedules\<close>

lemma handler_exec_step: "handler_exec l s = Some t \<longleftrightarrow> handler_step l s t"
proof
  assume "handler_exec l s = Some t"
  then show "handler_step l s t"
    by (cases "(l, s)" rule: handler_exec.cases)
      (auto intro: handler_step.intros split: sum.splits if_splits)
next
  assume "handler_step l s t"
  then show "handler_exec l s = Some t" by cases auto
qed

lemma handler_schedule_run: "handler_schedule ls s = Some t \<longleftrightarrow> run handler_step s ls t"
  by (induction ls arbitrary: s)
    (auto simp: run_Cons_iff handler_exec_step [symmetric] split: option.splits)

lemmas handler_eval =
  InteractionHandler_def Init_def Acquire_def finalDuration_def CalcTimespecDiffMs_def MSINSEC_def
  USINMS_def cdiv_def wrap32_def AbortWaitLocked_def Exit_locked_def Exit_join_def Routine_def
  Release_def PerfLock_def PerfRel_def Let_def

subsection \<open>Deadlines\<close>

lemma CalcTimespecDiffMs_error:
  "\<bar>timespec_ns b - timespec_ns a - CalcTimespecDiffMs a b * 1000000\<bar> < 1000000"
  using cdiv_error [of 1000000 "tv_nsec b - tv_nsec a"]
  by (simp add: timespec_ns_def CalcTimespecDiffMs_def MSINSEC_def USINMS_def algebra_simps)

lemma Acquire_deadline:
  assumes "mState h \<noteq> INTERACTION_STATE_UNINITIALIZED"
    and "Acquire d t (h, log) = (h', log')"
  shows "timespec_ns t + finalDuration h d * 1000000 <
    timespec_ns (mLastTimespec h') + mDurationMs h' * 1000000 + 1000000"
proof (cases "mState h \<noteq> INTERACTION_STATE_IDLE \<and> finalDuration h d \<le> mDurationMs h \<and>
    CalcTimespecDiffMs (mLastTimespec h) t \<le> mDurationMs h - finalDuration h d")
  case True
  with assms have "h' = h"
    by (simp add: Acquire_def Let_def)
  moreover have "CalcTimespecDiffMs (mLastTimespec h) t * 1000000 + finalDuration h d * 1000000
      \<le> mDurationMs h * 1000000"
    using True by simp
  ultimately show ?thesis
    using CalcTimespecDiffMs_error [of t "mLastTimespec h"] by simp
next
  case False
  with assms have "mLastTimespec h' = t" "mDurationMs h' = finalDuration h d"
    by (auto simp: Acquire_def Let_def split: if_split_asm)
  then show ?thesis by simp
qed

subsection \<open>The thread alone\<close>

lemma Routine_iter_add:
  "Routine s = Some t \<Longrightarrow> Routine_iter (Suc n) s = Routine_iter n t"
  by simp

lemma Routine_iter_blocked: "Routine s = None \<Longrightarrow> Routine_iter n s = s"
  by (cases n) simp_all

lemma Routine_drains:
  assumes "hint_inv (h, log)" "mState h \<noteq> INTERACTION_STATE_UNINITIALIZED"
  shows "drained (Routine_iter 7 (h, log))"
proof -
  have pc: "mThread h = AtLock \<or> mThread h = Unlocked \<or> (\<exists>w t. mThread h = InWait w t) \<or>
      mThread h = AtRelease"
    using assms
    by (cases "mState h"; cases "mThread h") (auto simp: hint_inv_def handler_inv_def eventfd_inv_def)
  have idle: "mState h = INTERACTION_STATE_IDLE \<Longrightarrow> mThread h = AtLock \<and> \<not> held ''INTERACTION'' log"
    using assms by (auto simp: hint_inv_def handler_inv_def eventfd_inv_def active_def)
  have "mState h = INTERACTION_STATE_WAITING \<Longrightarrow> mThread h \<noteq> AtLock"
    using assms by (auto simp: hint_inv_def handler_inv_def eventfd_inv_def)
  with pc idle assms(2) show ?thesis
    by (cases "mState h")
      (auto simp: eval_nat_numeral Routine_simps drained_def active_def)
qed

lemma Routine_returns:
  assumes "handler_inv (h, log)" "mState h = INTERACTION_STATE_UNINITIALIZED"
    and "mThread h \<noteq> NoThread"
  shows "mThread (fst (Routine_iter 4 (h, log))) = Returned \<and>
    mState (fst (Routine_iter 4 (h, log))) = INTERACTION_STATE_UNINITIALIZED \<and>
    snd (Routine_iter 4 (h, log)) = log"
  using assms by (cases "mThread h") (simp_all add: eval_nat_numeral Routine_simps)

subsection \<open>Properties of the interaction boost\<close>

text \<open>
  C5: in every interleaving of requests, shutdown and the worker thread, the event descriptor
  carries exactly the pending aborts: it is empty while the thread waits undisturbed, so no
  stale abort ends a wait early, and it is readable whenever \<open>Release\<close> clears it, so the
  clearing read never fails; the recorded duration stays inside its limits.
\<close>

theorem eventfd_protocol:
  assumes "run handler_step (InteractionHandler, []) ls (h, log)"
  shows "(mState h = INTERACTION_STATE_WAITING \<longrightarrow> eventfd h = 0 \<and> in_wait (mThread h)) \<and>
    (mThread h = AtRelease \<and> mState h \<noteq> INTERACTION_STATE_WAITING \<longrightarrow> 0 < eventfd h) \<and>
    (mState h = INTERACTION_STATE_IDLE \<longrightarrow> eventfd h = 0 \<and> mThread h = AtLock) \<and>
    (active h \<longrightarrow> 1400 \<le> mDurationMs h \<and> mDurationMs h \<le> 5650)"
proof -
  have "eventfd_inv h" "duration_inv h"
    using handler_inv_run [OF assms] by (simp_all add: handler_inv_def)
  then show ?thesis
    by (cases "mState h") (auto simp: eventfd_inv_def duration_inv_def active_def)
qed

theorem eventfd_protocol_witness:
  "\<exists>h log. run handler_step (InteractionHandler, [])
      (schedule_waiting @ [LAcquire 5000 \<lparr>tv_sec = 2, tv_nsec = 0\<rparr>, LThread]) (h, log) \<and>
    mThread h = AtRelease \<and> mState h = INTERACTION_STATE_INTERACTION \<and> 0 < eventfd h"
proof -
  obtain h log where r: "run handler_step (InteractionHandler, [])
      (schedule_waiting @ [LAcquire 5000 \<lparr>tv_sec = 2, tv_nsec = 0\<rparr>, LThread]) (h, log)"
    and "mThread h = AtRelease" "mState h = INTERACTION_STATE_INTERACTION"
    unfolding handler_schedule_run [symmetric] by (simp add: schedule_waiting_def handler_eval)
  with eventfd_protocol [OF r] show ?thesis by auto
qed

text \<open>
  C6: as long as the handler is not shut down, the hint \<open>INTERACTION\<close> is requested of the
  hint manager exactly while the handler is in one of its two active states.
\<close>

theorem interaction_hint_iff:
  assumes "run handler_step (InteractionHandler, []) ls (h, log)" and "LExit \<notin> set ls"
  shows "held ''INTERACTION'' log \<longleftrightarrow>
    mState h = INTERACTION_STATE_INTERACTION \<or> mState h = INTERACTION_STATE_WAITING"
  using hint_inv_run [OF assms] by (simp add: hint_inv_def active_def)

theorem interaction_hint_iff_witness:
  "\<exists>h log. run handler_step (InteractionHandler, []) schedule_waiting (h, log) \<and>
    LExit \<notin> set schedule_waiting \<and> held ''INTERACTION'' log"
proof -
  obtain h log where r: "run handler_step (InteractionHandler, []) schedule_waiting (h, log)"
    and "mState h = INTERACTION_STATE_WAITING"
    unfolding handler_schedule_run [symmetric] by (simp add: schedule_waiting_def handler_eval)
  moreover have "LExit \<notin> set schedule_waiting"
    by (simp add: schedule_waiting_def)
  ultimately show ?thesis using interaction_hint_iff [OF r] by blast
qed





text \<open>
  C36: after \<open>Acquire\<close> the recorded deadline covers the requested one to within a millisecond,
  also when the request is dropped because an earlier one is still running, for every request
  whose sum with 650 is an \<open>int\<close>.
\<close>

theorem Acquire_covers:
  assumes "run handler_step (InteractionHandler, []) ls (h, log)"
    and "mState h \<noteq> INTERACTION_STATE_UNINITIALIZED"
    and "- (2 ^ 31) \<le> d" "d + 650 < 2 ^ 31"
    and "Acquire d t (h, log) = (h', log')"
  shows "active h' \<and> timespec_ns t + max 1400 (min 5650 (d + 650)) * 1000000 <
    timespec_ns (mLastTimespec h') + mDurationMs h' * 1000000 + 1000000"
proof -
  have "mMinDurationMs h = 1400" "mMaxDurationMs h = 5650"
    using handler_inv_run [OF assms(1)] by (simp_all add: handler_inv_def duration_inv_def)
  then have "finalDuration h d = max 1400 (min 5650 (d + 650))"
    using assms(3,4) by (rule finalDuration_covers)
  moreover have "active h'"
    using Acquire_active [of d t h log] assms(2,5) by simp
  ultimately show ?thesis
    using Acquire_deadline [OF assms(2,5)] by metis
qed

theorem Acquire_covers_witness:
  "\<exists>h log h' log'. run handler_step (InteractionHandler, []) schedule_waiting (h, log) \<and>
    Acquire 100 \<lparr>tv_sec = 2, tv_nsec = 5\<rparr> (h, log) = (h', log') \<and> active h' \<and>
    2000000005 + 1400 * 1000000 < timespec_ns (mLastTimespec h') + mDurationMs h' * 1000000 + 1000000"
proof -
  obtain h log where r: "run handler_step (InteractionHandler, []) schedule_waiting (h, log)"
    and s: "mState h \<noteq> INTERACTION_STATE_UNINITIALIZED"
    unfolding handler_schedule_run [symmetric] by (simp add: schedule_waiting_def handler_eval)
  obtain h' log' where a: "Acquire 100 \<lparr>tv_sec = 2, tv_nsec = 5\<rparr> (h, log) = (h', log')"
    by fastforce
  show ?thesis
    using r a Acquire_covers [OF r s _ _ a] by (auto simp: timespec_ns_def)
qed

text \<open>
  A wait of the worker thread lasts between zero and 5750 milliseconds, and when a request
  or a shutdown has interrupted it, it ends at once.
\<close>

theorem WaitForIdle_bounded:
  assumes "run handler_step (InteractionHandler, []) ls (h, log)"
    and "mThread h = InWait w t"
    and "poll_sleeps env (eventfd h)"
  shows "0 \<le> snd (WaitForIdle env w t) \<and> snd (WaitForIdle env w t) \<le> 5750 \<and>
    (mState h \<noteq> INTERACTION_STATE_WAITING \<longrightarrow> WaitForIdle env w t = (WaitAborted, 0))"
proof -
  have inv: "eventfd_inv h" "duration_inv h"
    using handler_inv_run [OF assms(1)] by (simp_all add: handler_inv_def)
  then have args: "w = 100" "1400 \<le> t" "t \<le> 5650"
    using assms(2) by (simp_all add: duration_inv_def)
  have "mState h \<noteq> INTERACTION_STATE_WAITING \<Longrightarrow> 0 < eventfd h"
    using inv(1) assms(2) by (cases "mState h") (auto simp: eventfd_inv_def)
  then have "mState h \<noteq> INTERACTION_STATE_WAITING \<Longrightarrow> WaitForIdle env w t = (WaitAborted, 0)"
    using assms(3) by (simp add: poll_sleeps_def WaitForIdle_def Let_def)
  moreover have "0 \<le> slept (poll_abort env w)" "slept (poll_abort env w) \<le> 100"
    "0 \<le> slept (poll_idle env t)" "slept (poll_idle env t) \<le> 5650"
    using assms(3) args unfolding poll_sleeps_def
    by (metis (no_types, opaque_lifting) order_trans zero_le_numeral)+
  ultimately show ?thesis
    by (auto simp: WaitForIdle_def Let_def)
qed

theorem WaitForIdle_bounded_witness:
  "\<exists>h log env. run handler_step (InteractionHandler, []) schedule_waiting (h, log) \<and>
    mThread h = InWait 100 1400 \<and> poll_sleeps env (eventfd h) \<and>
    snd (WaitForIdle env 100 1400) \<le> 5750"
proof -
  obtain h log where r: "run handler_step (InteractionHandler, []) schedule_waiting (h, log)"
    and s: "mThread h = InWait 100 1400" and e: "eventfd h = 0"
    unfolding handler_schedule_run [symmetric] by (simp add: schedule_waiting_def handler_eval)
  let ?p = "\<lambda>t. \<lparr>poll_ret = 0, revents0 = False, revents1 = False, slept = t\<rparr>"
  have p: "poll_sleeps \<lparr>poll_abort = ?p, pread_ret = 4, pread_data = ''busy'', poll_idle = ?p\<rparr>
      (eventfd h)"
    by (simp add: poll_sleeps_def e)
  show ?thesis using r s p WaitForIdle_bounded [OF r s p] by blast
qed

text \<open>
  Shutting down an active handler never withdraws the hint: the thread returns without a call
  to \<open>PerfRel\<close>.
\<close>

lemma Exit_leaves_hint:
  assumes "run handler_step (InteractionHandler, []) ls (h, log)" and "LExit \<notin> set ls" and "active h"
  shows "held ''INTERACTION'' (snd (Routine_iter 4 (Exit_locked h, log))) \<and>
    Routine (Routine_iter 4 (Exit_locked h, log)) = None"
proof -
  have inv: "hint_inv (h, log)"
    using assms(1,2) by (rule hint_inv_run)
  then have "mThread h \<noteq> NoThread"
    using assms(3) by (auto simp: active_def hint_inv_def handler_inv_def eventfd_inv_def)
  moreover have "handler_inv (Exit_locked h, log)"
    using inv by (intro Exit_locked_inv) (simp add: hint_inv_def)
  ultimately have "mThread (fst (Routine_iter 4 (Exit_locked h, log))) = Returned \<and>
      snd (Routine_iter 4 (Exit_locked h, log)) = log"
    using Routine_returns [of "Exit_locked h" log] by (simp add: Exit_locked_def)
  moreover have "held ''INTERACTION'' log"
    using inv assms(3) by (simp add: hint_inv_def)
  ultimately show ?thesis
    by (cases "Routine_iter 4 (Exit_locked h, log)") (simp add: Routine_simps)
qed

end
