(* ===== verification/Power_Hal.thy ===== *)
theory Power_Hal
  imports Interaction
begin

text \<open>
  The power HAL service: the class \<open>Power\<close> of \<open>hardware/power-libperfmgr/Power.cpp\<close>, except
  its two statistics queries, which are in \<open>Power_Stats\<close>.

  The object is the record \<open>power\<close>.  The hint manager is a library: a call to it is an entry
  of \<open>hints\<close>, and a call through the null pointer it is before initialisation is the fault
  \<open>NullDeref\<close>.  The system property store is a field, and whether \<open>SetProperty\<close> succeeds
  a parameter.  The service runs one binder thread (\<open>configureRpcThreadpool(1, true)\<close>), so
  its requests follow each other; the initialisation thread and the worker thread of the
  interaction handler run between them.  \<open>power_life\<close> is such a life of the service.

  Shown here: no request is served before the pointers are set; the mode flags and the hints
  requested agree; the four hints that yield to a performance mode are ignored while it is on;
  the on/off hints reach the manager through every interface version; the state property
  restores the encoder mode after a restart.
\<close>

subsection \<open>Requests\<close>

datatype power_hint =
    INTERACTION | VIDEO_ENCODE | SUSTAINED_PERFORMANCE | VR_MODE | LAUNCH
  | AUDIO_LOW_LATENCY | AUDIO_STREAMING | CAMERA_LAUNCH | CAMERA_STREAMING | CAMERA_SHOT
  | EXPENSIVE_RENDERING | OtherHint int

definition kPowerHalStateProp :: string where
  "kPowerHalStateProp = ''vendor.powerhal.state''"

definition kPowerHalAudioProp :: string where
  "kPowerHalAudioProp = ''vendor.powerhal.audio''"

definition kPowerHalRenderingProp :: string where
  "kPowerHalRenderingProp = ''vendor.powerhal.rendering''"

subsection \<open>The service object\<close>

record power =
  mHintManager :: bool
  hints :: hint_log
  mInteractionHandler :: "handler option"
  mVRModeOn :: bool
  mSustainedPerfModeOn :: bool
  mEncoderModeOn :: bool
  mReady :: bool
  sysprops :: "string \<Rightarrow> string"

text \<open>What the requests depend on besides the object.\<close>

record power_env =
  json_ok :: bool
  idle_opens :: bool
  eventfd_opens :: bool
  set_ok :: "string \<Rightarrow> string \<Rightarrow> bool"

definition manager_call :: "hint_call \<Rightarrow> power \<Rightarrow> power mem" where
  "manager_call c p =
     (if mHintManager p then Inr (p\<lparr>hints := hints p @ [c]\<rparr>) else Inl NullDeref)"

definition SetProperty :: "power_env \<Rightarrow> string \<Rightarrow> string \<Rightarrow> power \<Rightarrow> power" where
  "SetProperty env key v p =
     (if set_ok env key v then p\<lparr>sysprops := (sysprops p)(key := v)\<rparr> else p)"

definition Power :: "(string \<Rightarrow> string) \<Rightarrow> power" where
  "Power props =
     \<lparr>mHintManager = False, hints = [], mInteractionHandler = None, mVRModeOn = False,
      mSustainedPerfModeOn = False, mEncoderModeOn = False, mReady = False, sysprops = props\<rparr>"

text \<open>The branches on the state property in the initialisation thread.\<close>

definition init_mode :: "power \<Rightarrow> power mem" where
  "init_mode p =
     (let state = sysprops p kPowerHalStateProp
      in if state = ''VIDEO_ENCODE'' then
           mbind (manager_call (DoHint ''VIDEO_ENCODE'') p) (\<lambda>p. Inr (p\<lparr>mEncoderModeOn := True\<rparr>))
         else if state = ''SUSTAINED_PERFORMANCE'' then
           mbind (manager_call (DoHint ''SUSTAINED_PERFORMANCE'') p)
             (\<lambda>p. Inr (p\<lparr>mSustainedPerfModeOn := True\<rparr>))
         else if state = ''VR_MODE'' then
           mbind (manager_call (DoHint ''VR_MODE'') p) (\<lambda>p. Inr (p\<lparr>mVRModeOn := True\<rparr>))
         else if state = ''VR_SUSTAINED_PERFORMANCE'' then
           mbind (manager_call (DoHint ''VR_SUSTAINED_PERFORMANCE'') p)
             (\<lambda>p. Inr (p\<lparr>mSustainedPerfModeOn := True, mVRModeOn := True\<rparr>))
         else Inr p)"

text \<open>The body of the initialisation thread, once \<open>vendor.powerhal.init\<close> is set.\<close>

definition mInitThread :: "power_env \<Rightarrow> power \<Rightarrow> power mem" where
  "mInitThread env p =
     (if \<not> json_ok env then Inl Abort
      else
        mbind (Init (idle_opens env) (eventfd_opens env) InteractionHandler) (\<lambda>(h, _).
        mbind (init_mode (p\<lparr>mHintManager := True, mInteractionHandler := Some h\<rparr>)) (\<lambda>p.
        mbind (if sysprops p kPowerHalAudioProp = ''AUDIO_LOW_LATENCY''
               then manager_call (DoHint ''AUDIO_LOW_LATENCY'') p else Inr p) (\<lambda>p.
        mbind (if sysprops p kPowerHalRenderingProp = ''EXPENSIVE_RENDERING''
               then manager_call (DoHint ''EXPENSIVE_RENDERING'') p else Inr p) (\<lambda>p.
        Inr (p\<lparr>mReady := True\<rparr>))))))"

definition perf_mode :: "power \<Rightarrow> bool" where
  "perf_mode p \<longleftrightarrow> mVRModeOn p \<or> mSustainedPerfModeOn p"

definition acquire_interaction :: "int \<Rightarrow> timespec \<Rightarrow> power \<Rightarrow> power mem" where
  "acquire_interaction data now p =
     (case mInteractionHandler p of
        None \<Rightarrow> Inl NullDeref
      | Some h \<Rightarrow> (case Acquire data now (h, hints p) of
          (h', log') \<Rightarrow> Inr (p\<lparr>mInteractionHandler := Some h', hints := log'\<rparr>)))"

definition hint_VIDEO_ENCODE :: "power_env \<Rightarrow> int \<Rightarrow> power \<Rightarrow> power mem" where
  "hint_VIDEO_ENCODE env data p =
     (if perf_mode p then Inr p
      else if data \<noteq> 0 then
        mbind (manager_call (DoHint ''VIDEO_ENCODE'') p) (\<lambda>p.
          Inr ((SetProperty env kPowerHalStateProp ''VIDEO_ENCODE'' p)\<lparr>mEncoderModeOn := True\<rparr>))
      else
        mbind (manager_call (EndHint ''VIDEO_ENCODE'') p) (\<lambda>p.
          Inr ((SetProperty env kPowerHalStateProp [] p)\<lparr>mEncoderModeOn := False\<rparr>)))"

definition hint_SUSTAINED_PERFORMANCE :: "int \<Rightarrow> power \<Rightarrow> power mem" where
  "hint_SUSTAINED_PERFORMANCE data p =
     (if data \<noteq> 0 \<and> \<not> mSustainedPerfModeOn p then
        mbind (if \<not> mVRModeOn p then manager_call (DoHint ''SUSTAINED_PERFORMANCE'') p
               else mbind (manager_call (EndHint ''VR_MODE'') p)
                      (manager_call (DoHint ''VR_SUSTAINED_PERFORMANCE'')))
          (\<lambda>p. Inr (p\<lparr>mSustainedPerfModeOn := True\<rparr>))
      else if data = 0 \<and> mSustainedPerfModeOn p then
        mbind (manager_call (EndHint ''VR_SUSTAINED_PERFORMANCE'') p) (\<lambda>p.
        mbind (manager_call (EndHint ''SUSTAINED_PERFORMANCE'') p) (\<lambda>p.
        mbind (if mVRModeOn p then manager_call (DoHint ''VR_MODE'') p else Inr p) (\<lambda>p.
          Inr (p\<lparr>mSustainedPerfModeOn := False\<rparr>))))
      else Inr p)"

definition hint_VR_MODE :: "int \<Rightarrow> power \<Rightarrow> power mem" where
  "hint_VR_MODE data p =
     (if data \<noteq> 0 \<and> \<not> mVRModeOn p then
        mbind (if \<not> mSustainedPerfModeOn p then manager_call (DoHint ''VR_MODE'') p
               else mbind (manager_call (EndHint ''SUSTAINED_PERFORMANCE'') p)
                      (manager_call (DoHint ''VR_SUSTAINED_PERFORMANCE'')))
          (\<lambda>p. Inr (p\<lparr>mVRModeOn := True\<rparr>))
      else if data = 0 \<and> mVRModeOn p then
        mbind (manager_call (EndHint ''VR_SUSTAINED_PERFORMANCE'') p) (\<lambda>p.
        mbind (manager_call (EndHint ''VR_MODE'') p) (\<lambda>p.
        mbind (if mSustainedPerfModeOn p then manager_call (DoHint ''SUSTAINED_PERFORMANCE'') p
               else Inr p) (\<lambda>p.
          Inr (p\<lparr>mVRModeOn := False\<rparr>))))
      else Inr p)"

definition hint_LAUNCH :: "int \<Rightarrow> power \<Rightarrow> power mem" where
  "hint_LAUNCH data p =
     (if perf_mode p then Inr p
      else if data \<noteq> 0 then manager_call (DoHint ''LAUNCH'') p
      else manager_call (EndHint ''LAUNCH'') p)"

definition powerHint :: "power_env \<Rightarrow> timespec \<Rightarrow> power_hint \<Rightarrow> int \<Rightarrow> power \<Rightarrow> power mem" where
  "powerHint env now hint data p =
     (if \<not> mReady p then Inr p
      else case hint of
        INTERACTION \<Rightarrow> if perf_mode p then Inr p else acquire_interaction data now p
      | VIDEO_ENCODE \<Rightarrow> hint_VIDEO_ENCODE env data p
      | SUSTAINED_PERFORMANCE \<Rightarrow> hint_SUSTAINED_PERFORMANCE data p
      | VR_MODE \<Rightarrow> hint_VR_MODE data p
      | LAUNCH \<Rightarrow> hint_LAUNCH data p
      | _ \<Rightarrow> Inr p)"

definition powerHintAsync :: "power_env \<Rightarrow> timespec \<Rightarrow> power_hint \<Rightarrow> int \<Rightarrow> power \<Rightarrow> power mem" where
  "powerHintAsync = powerHint"

text \<open>The five audio and camera branches.\<close>

definition hint_onoff :: "string \<Rightarrow> int \<Rightarrow> power \<Rightarrow> power mem" where
  "hint_onoff n data p = (if data \<noteq> 0 then manager_call (DoHint n) p else manager_call (EndHint n) p)"

definition hint_CAMERA_LAUNCH :: "int \<Rightarrow> power \<Rightarrow> power mem" where
  "hint_CAMERA_LAUNCH data p =
     (if data > 0 then manager_call (DoHint ''CAMERA_LAUNCH'') p
      else if data = 0 then manager_call (EndHint ''CAMERA_LAUNCH'') p
      else Inr p)"

definition hint_timed :: "string \<Rightarrow> int \<Rightarrow> power \<Rightarrow> power mem" where
  "hint_timed n data p =
     (if data > 0 then manager_call (DoHintFor n data) p
      else if data = 0 then manager_call (EndHint n) p
      else Inr p)"

definition powerHintAsync_1_2 ::
    "power_env \<Rightarrow> timespec \<Rightarrow> power_hint \<Rightarrow> int \<Rightarrow> power \<Rightarrow> power mem" where
  "powerHintAsync_1_2 env now hint data p =
     (if \<not> mReady p then Inr p
      else case hint of
        AUDIO_LOW_LATENCY \<Rightarrow> hint_onoff ''AUDIO_LOW_LATENCY'' data p
      | AUDIO_STREAMING \<Rightarrow> hint_onoff ''AUDIO_STREAMING'' data p
      | CAMERA_LAUNCH \<Rightarrow> hint_CAMERA_LAUNCH data p
      | CAMERA_STREAMING \<Rightarrow> hint_timed ''CAMERA_STREAMING'' data p
      | CAMERA_SHOT \<Rightarrow> hint_timed ''CAMERA_SHOT'' data p
      | _ \<Rightarrow> powerHint env now hint data p)"

definition hint_EXPENSIVE_RENDERING :: "int \<Rightarrow> power \<Rightarrow> power mem" where
  "hint_EXPENSIVE_RENDERING data p =
     (if perf_mode p then Inr p
      else if data > 0 then manager_call (DoHint ''EXPENSIVE_RENDERING'') p
      else manager_call (EndHint ''EXPENSIVE_RENDERING'') p)"

definition powerHintAsync_1_3 ::
    "power_env \<Rightarrow> timespec \<Rightarrow> power_hint \<Rightarrow> int \<Rightarrow> power \<Rightarrow> power mem" where
  "powerHintAsync_1_3 env now hint data p =
     (if \<not> mReady p then Inr p
      else if hint = EXPENSIVE_RENDERING then hint_EXPENSIVE_RENDERING data p
      else powerHintAsync_1_2 env now hint data p)"

definition boolToString :: "bool \<Rightarrow> string" where
  "boolToString b = (if b then ''true'' else ''false'')"

text \<open>The text \<open>debug\<close> writes, or nothing; the dump of the manager's nodes precedes it.\<close>

definition debug :: "bool \<Rightarrow> int \<Rightarrow> bool \<Rightarrow> power \<Rightarrow> string option" where
  "debug handle_given numFds running p =
     (if handle_given \<and> numFds \<ge> 1 \<and> mReady p then
        Some (''HintManager Running: '' @ boolToString running @ [CHR 0x0A] @
              ''VRMode: '' @ boolToString (mVRModeOn p) @ [CHR 0x0A] @
              ''SustainedPerformanceMode: '' @ boolToString (mSustainedPerfModeOn p) @ [CHR 0x0A] @
              ''VideoEncodeMode: '' @ boolToString (mEncoderModeOn p) @ [CHR 0x0A])
      else None)"

subsection \<open>A life of the service\<close>

datatype power_op =
    Op10 power_hint int timespec
  | Op11 power_hint int timespec
  | Op12 power_hint int timespec
  | Op13 power_hint int timespec
  | OpThread

text \<open>The worker thread of the interaction handler takes one of its stretches.\<close>

definition worker :: "power \<Rightarrow> power" where
  "worker p = (case mInteractionHandler p of
     None \<Rightarrow> p
   | Some h \<Rightarrow> (case Routine (h, hints p) of
       None \<Rightarrow> p
     | Some (h', log') \<Rightarrow> p\<lparr>mInteractionHandler := Some h', hints := log'\<rparr>))"

definition power_exec :: "power_env \<Rightarrow> power_op \<Rightarrow> power \<Rightarrow> power mem" where
  "power_exec env op p = (case op of
     Op10 hint data now \<Rightarrow> powerHint env now hint data p
   | Op11 hint data now \<Rightarrow> powerHintAsync env now hint data p
   | Op12 hint data now \<Rightarrow> powerHintAsync_1_2 env now hint data p
   | Op13 hint data now \<Rightarrow> powerHintAsync_1_3 env now hint data p
   | OpThread \<Rightarrow> Inr (worker p))"

fun power_run :: "power_env \<Rightarrow> power_op list \<Rightarrow> power \<Rightarrow> power mem" where
  "power_run env [] p = Inr p"
| "power_run env (op # ops) p = mbind (power_exec env op p) (power_run env ops)"

definition power_life ::
    "power_env \<Rightarrow> (string \<Rightarrow> string) \<Rightarrow> power_op list \<Rightarrow> power_op list \<Rightarrow> power mem" where
  "power_life env props before after =
     mbind (power_run env before (Power props)) (\<lambda>p.
     mbind (mInitThread env p) (power_run env after))"

subsection \<open>What holds in such a life\<close>

definition mode_inv :: "power \<Rightarrow> bool" where
  "mode_inv p \<longleftrightarrow>
     (held ''VR_MODE'' (hints p) \<longleftrightarrow> mVRModeOn p \<and> \<not> mSustainedPerfModeOn p) \<and>
     (held ''SUSTAINED_PERFORMANCE'' (hints p) \<longleftrightarrow> mSustainedPerfModeOn p \<and> \<not> mVRModeOn p) \<and>
     (held ''VR_SUSTAINED_PERFORMANCE'' (hints p) \<longleftrightarrow> mVRModeOn p \<and> mSustainedPerfModeOn p) \<and>
     (held ''VIDEO_ENCODE'' (hints p) \<longleftrightarrow> mEncoderModeOn p)"

definition ready_inv :: "power \<Rightarrow> bool" where
  "ready_inv p \<longleftrightarrow> mReady p \<and> mHintManager p \<and>
     (\<exists>h. mInteractionHandler p = Some h \<and> hint_inv (h, hints p))"

definition power_inv :: "power \<Rightarrow> bool" where
  "power_inv p \<longleftrightarrow> ready_inv p \<and> mode_inv p"

text \<open>The hints that yield to a performance mode.\<close>

definition yields :: "power_hint \<Rightarrow> bool" where
  "yields hint = (case hint of
     INTERACTION \<Rightarrow> True | VIDEO_ENCODE \<Rightarrow> True | LAUNCH \<Rightarrow> True | EXPENSIVE_RENDERING \<Rightarrow> True
   | _ \<Rightarrow> False)"

text \<open>The hints that any client may switch on and off at any time, by the manager's name.\<close>

definition switch_name :: "power_hint \<Rightarrow> string option" where
  "switch_name hint = (case hint of
     AUDIO_LOW_LATENCY \<Rightarrow> Some ''AUDIO_LOW_LATENCY''
   | AUDIO_STREAMING \<Rightarrow> Some ''AUDIO_STREAMING''
   | CAMERA_LAUNCH \<Rightarrow> Some ''CAMERA_LAUNCH''
   | CAMERA_STREAMING \<Rightarrow> Some ''CAMERA_STREAMING''
   | CAMERA_SHOT \<Rightarrow> Some ''CAMERA_SHOT''
   | _ \<Rightarrow> None)"

text \<open>An environment in which every call succeeds, and a moment.\<close>

definition env0 :: power_env where
  "env0 = \<lparr>json_ok = True, idle_opens = True, eventfd_opens = True, set_ok = \<lambda>_ _. True\<rparr>"

definition now0 :: timespec where
  "now0 = \<lparr>tv_sec = 0, tv_nsec = 0\<rparr>"

text \<open>The object while the initialisation thread works on it.\<close>

definition booting :: "handler \<Rightarrow> power \<Rightarrow> bool" where
  "booting h p \<longleftrightarrow> mHintManager p \<and> mInteractionHandler p = Some h \<and> hint_inv (h, hints p) \<and> mode_inv p"

text \<open>The state property and the encoder mode agree.\<close>

definition prop_inv :: "power \<Rightarrow> bool" where
  "prop_inv p \<longleftrightarrow>
     sysprops p kPowerHalStateProp = (if mEncoderModeOn p then ''VIDEO_ENCODE'' else [])"

text \<open>The hint a call is about, and the hints the invariant speaks of.\<close>

definition concerns :: "string \<Rightarrow> hint_call \<Rightarrow> bool" where
  "concerns n c = (case c of DoHint m \<Rightarrow> m = n | DoHintFor m _ \<Rightarrow> m = n | EndHint m \<Rightarrow> m = n)"

definition reserved :: "string list" where
  "reserved = [''INTERACTION'', ''VIDEO_ENCODE'', ''VR_MODE'', ''SUSTAINED_PERFORMANCE'',
     ''VR_SUSTAINED_PERFORMANCE'']"

lemma concerns_simps [simp]:
  "concerns n (DoHint m) \<longleftrightarrow> m = n" "concerns n (DoHintFor m d) \<longleftrightarrow> m = n"
  "concerns n (EndHint m) \<longleftrightarrow> m = n"
  by (simp_all add: concerns_def)

lemma held_concerns: "concerns n c \<Longrightarrow> m \<noteq> n \<Longrightarrow> held m (log @ [c]) = held m log"
  by (cases c) auto

text \<open>
  The contract of a request that only concerns the hint \<open>n\<close>, and of one that in addition
  switches it on and off.
\<close>

locale hint_client =
  fixes op :: "int \<Rightarrow> power \<Rightarrow> power mem"
    and n :: string
  assumes call: "mHintManager p \<Longrightarrow>
    op d p = Inr p \<or> (\<exists>c. op d p = Inr (p\<lparr>hints := hints p @ [c]\<rparr>) \<and> concerns n c)"
begin

lemma others_untouched:
  assumes "mHintManager p" "m \<noteq> n"
  shows "\<exists>p'. op d p = Inr p' \<and> held m (hints p') = held m (hints p)"
  using call [OF assms(1), of d] held_concerns [OF _ assms(2)] by fastforce

lemma hint_inv_other:
  assumes "hint_inv (h, log)" "concerns n c" "n \<noteq> ''INTERACTION''"
  shows "hint_inv (h, log @ [c])"
  using assms by (cases c) (auto simp: hint_inv_def handler_inv_def concerns_def)

lemma mode_inv_other:
  assumes "mode_inv p" "concerns n c" "n \<notin> set reserved"
  shows "mode_inv (p\<lparr>hints := hints p @ [c]\<rparr>)"
  using assms by (cases c) (auto simp: mode_inv_def concerns_def reserved_def)

lemma keeps_power_inv:
  assumes "power_inv p" "n \<notin> set reserved"
  shows "\<exists>p'. op d p = Inr p' \<and> power_inv p'"
proof -
  have m: "mHintManager p"
    using assms(1) by (simp add: power_inv_def ready_inv_def)
  consider "op d p = Inr p" | c where "op d p = Inr (p\<lparr>hints := hints p @ [c]\<rparr>)" "concerns n c"
    using call [OF m, of d] by blast
  then show ?thesis
  proof cases
    case 1
    with assms(1) show ?thesis by blast
  next
    case (2 c)
    have "n \<noteq> ''INTERACTION''"
      using assms(2) by (auto simp: reserved_def)
    with 2 assms have "power_inv (p\<lparr>hints := hints p @ [c]\<rparr>)"
      using hint_inv_other mode_inv_other by (auto simp: power_inv_def ready_inv_def)
    with 2 show ?thesis by blast
  qed
qed

end

locale hint_toggle = hint_client +
  assumes on: "mHintManager p \<Longrightarrow> 0 < d \<Longrightarrow> op d p = Inr p' \<Longrightarrow> held n (hints p')"
    and off: "mHintManager p \<Longrightarrow> op 0 p = Inr p' \<Longrightarrow> \<not> held n (hints p')"
begin

lemma toggles:
  assumes "mHintManager p" "0 \<le> d"
  shows "\<exists>p'. op d p = Inr p' \<and> (held n (hints p') \<longleftrightarrow> 0 < d) \<and>
    (\<forall>m. m \<noteq> n \<longrightarrow> held m (hints p') = held m (hints p))"
proof -
  obtain p' where p': "op d p = Inr p'" "\<And>m. m \<noteq> n \<Longrightarrow> held m (hints p') = held m (hints p)"
    using others_untouched [OF assms(1)] call [OF assms(1), of d]
    by (metis sum.inject(2))
  moreover have "held n (hints p') \<longleftrightarrow> 0 < d"
    using on [OF assms(1) _ p'(1)] off [OF assms(1), of p'] p'(1) assms(2) by (cases "d = 0") auto
  ultimately show ?thesis by blast
qed

end

subsection \<open>The single requests\<close>

lemma manager_call_Inr [simp]:
  "mHintManager p \<Longrightarrow> manager_call c p = Inr (p\<lparr>hints := hints p @ [c]\<rparr>)"
  by (simp add: manager_call_def)

lemma hint_onoff_toggle: "hint_toggle (hint_onoff n) n"
  by unfold_locales (auto simp: hint_onoff_def)

lemma hint_timed_toggle: "hint_toggle (hint_timed n) n"
  by unfold_locales (auto simp: hint_timed_def)

interpretation audio_low_latency: hint_toggle "hint_onoff ''AUDIO_LOW_LATENCY''" "''AUDIO_LOW_LATENCY''"
  by (rule hint_onoff_toggle)

interpretation audio_streaming: hint_toggle "hint_onoff ''AUDIO_STREAMING''" "''AUDIO_STREAMING''"
  by (rule hint_onoff_toggle)

interpretation camera_streaming: hint_toggle "hint_timed ''CAMERA_STREAMING''" "''CAMERA_STREAMING''"
  by (rule hint_timed_toggle)

interpretation camera_shot: hint_toggle "hint_timed ''CAMERA_SHOT''" "''CAMERA_SHOT''"
  by (rule hint_timed_toggle)

interpretation camera_launch: hint_toggle hint_CAMERA_LAUNCH "''CAMERA_LAUNCH''"
  by unfold_locales (auto simp: hint_CAMERA_LAUNCH_def)

interpretation launch: hint_client hint_LAUNCH "''LAUNCH''"
  by unfold_locales (auto simp: hint_LAUNCH_def)

interpretation rendering: hint_client hint_EXPENSIVE_RENDERING "''EXPENSIVE_RENDERING''"
  by unfold_locales (auto simp: hint_EXPENSIVE_RENDERING_def)

subsection \<open>Preservation of the invariant\<close>

lemma hint_inv_log:
  assumes "hint_inv (h, log)" "held ''INTERACTION'' log' = held ''INTERACTION'' log"
  shows "hint_inv (h, log')"
  using assms by (simp add: hint_inv_def handler_inv_def)

lemma power_inv_manager: "power_inv p \<Longrightarrow> mHintManager p"
  by (simp add: power_inv_def ready_inv_def)

lemma power_inv_ready: "power_inv p \<Longrightarrow> mReady p"
  by (simp add: power_inv_def ready_inv_def)

lemma power_invI:
  assumes "power_inv p" and "mReady p'" "mHintManager p'"
    and "mInteractionHandler p' = mInteractionHandler p"
    and "held ''INTERACTION'' (hints p') = held ''INTERACTION'' (hints p)" and "mode_inv p'"
  shows "power_inv p'"
  using assms hint_inv_log by (auto simp: power_inv_def ready_inv_def)

lemma SetProperty_fields [simp]:
  "mReady (SetProperty env k v p) = mReady p" "mHintManager (SetProperty env k v p) = mHintManager p"
  "mInteractionHandler (SetProperty env k v p) = mInteractionHandler p"
  "hints (SetProperty env k v p) = hints p" "mVRModeOn (SetProperty env k v p) = mVRModeOn p"
  "mSustainedPerfModeOn (SetProperty env k v p) = mSustainedPerfModeOn p"
  by (simp_all add: SetProperty_def)

lemma hint_VIDEO_ENCODE_inv:
  assumes "power_inv p"
  shows "\<exists>p'. hint_VIDEO_ENCODE env d p = Inr p' \<and> power_inv p'"
proof -
  have m: "mode_inv p" using assms by (simp add: power_inv_def)
  show ?thesis
    unfolding hint_VIDEO_ENCODE_def
    using m assms power_inv_manager [OF assms] power_inv_ready [OF assms]
    by (cases "d = 0"; cases "perf_mode p")
      (simp_all, (rule power_invI [OF assms]; simp add: mode_inv_def)+)
qed

lemma hint_SUSTAINED_PERFORMANCE_inv:
  assumes "power_inv p"
  shows "\<exists>p'. hint_SUSTAINED_PERFORMANCE d p = Inr p' \<and> power_inv p'"
proof -
  have m: "mode_inv p" using assms by (simp add: power_inv_def)
  show ?thesis
    unfolding hint_SUSTAINED_PERFORMANCE_def
    using m assms power_inv_manager [OF assms] power_inv_ready [OF assms]
    by (cases "d = 0"; cases "mVRModeOn p"; cases "mSustainedPerfModeOn p")
      (simp_all, (rule power_invI [OF assms]; simp add: mode_inv_def)+)
qed

lemma hint_VR_MODE_inv:
  assumes "power_inv p"
  shows "\<exists>p'. hint_VR_MODE d p = Inr p' \<and> power_inv p'"
proof -
  have m: "mode_inv p" using assms by (simp add: power_inv_def)
  show ?thesis
    unfolding hint_VR_MODE_def
    using m assms power_inv_manager [OF assms] power_inv_ready [OF assms]
    by (cases "d = 0"; cases "mVRModeOn p"; cases "mSustainedPerfModeOn p")
      (simp_all, (rule power_invI [OF assms]; simp add: mode_inv_def)+)
qed

lemma mode_inv_handler:
  assumes "mode_inv p" and "\<And>n. n \<noteq> ''INTERACTION'' \<Longrightarrow> held n log' = held n (hints p)"
  shows "mode_inv (p\<lparr>mInteractionHandler := h', hints := log'\<rparr>)"
  using assms by (simp add: mode_inv_def)

lemma acquire_interaction_inv:
  assumes "power_inv p"
  shows "\<exists>p'. acquire_interaction d t p = Inr p' \<and> power_inv p'"
proof -
  obtain h where h: "mInteractionHandler p = Some h" "hint_inv (h, hints p)"
    using assms by (auto simp: power_inv_def ready_inv_def)
  obtain h' log' where a: "Acquire d t (h, hints p) = (h', log')" by fastforce
  have "hint_inv (h', log')"
    using handler_step_hint [OF step_Acquire _ h(2), of d t] a by simp
  moreover have "held n log' = held n (hints p)" if "n \<noteq> ''INTERACTION''" for n
    using Acquire_held [of n d t h "hints p"] a that by simp
  ultimately show ?thesis
    using assms h a mode_inv_handler [of p log']
    by (auto simp: acquire_interaction_def power_inv_def ready_inv_def)
qed

lemma Routine_held_other:
  assumes "Routine (h, log) = Some (h', log')" "n \<noteq> ''INTERACTION''"
  shows "held n log' = held n log"
proof (cases "mThread h")
  case AtLock
  with assms show ?thesis by (auto simp: Routine_def split: if_split_asm)
next
  case AtRelease
  with assms show ?thesis by (cases "mState h") (auto simp: Routine_simps)
qed (use assms in \<open>auto simp: Routine_simps\<close>)

lemma worker_inv:
  assumes "power_inv p"
  shows "power_inv (worker p)"
proof -
  obtain h where h: "mInteractionHandler p = Some h" "hint_inv (h, hints p)"
    using assms by (auto simp: power_inv_def ready_inv_def)
  show ?thesis
  proof (cases "Routine (h, hints p)")
    case None
    with h assms show ?thesis by (simp add: worker_def)
  next
    case (Some s)
    obtain h' log' where s: "s = (h', log')" by fastforce
    have "hint_inv (h', log')"
      using handler_step_hint [OF step_Thread _ h(2)] Some s by simp
    moreover have "mode_inv (p\<lparr>mInteractionHandler := Some h', hints := log'\<rparr>)"
      using assms Routine_held_other [of h "hints p" h' log'] Some s
      by (intro mode_inv_handler) (auto simp: power_inv_def)
    ultimately show ?thesis
      using h Some s assms by (simp add: worker_def power_inv_def ready_inv_def)
  qed
qed

lemma reserved_others [simp]:
  "''AUDIO_LOW_LATENCY'' \<notin> set reserved" "''AUDIO_STREAMING'' \<notin> set reserved"
  "''CAMERA_STREAMING'' \<notin> set reserved" "''CAMERA_SHOT'' \<notin> set reserved"
  "''CAMERA_LAUNCH'' \<notin> set reserved" "''LAUNCH'' \<notin> set reserved"
  "''EXPENSIVE_RENDERING'' \<notin> set reserved"
  by (simp_all add: reserved_def)

lemma powerHint_inv:
  assumes "power_inv p"
  shows "\<exists>p'. powerHint env now hint d p = Inr p' \<and> power_inv p'"
  using assms power_inv_ready [OF assms] acquire_interaction_inv [OF assms]
    hint_VIDEO_ENCODE_inv [OF assms] hint_SUSTAINED_PERFORMANCE_inv [OF assms]
    hint_VR_MODE_inv [OF assms] launch.keeps_power_inv [OF assms]
  by (cases hint) (simp_all add: powerHint_def)

lemma powerHintAsync_1_2_inv:
  assumes "power_inv p"
  shows "\<exists>p'. powerHintAsync_1_2 env now hint d p = Inr p' \<and> power_inv p'"
  using power_inv_ready [OF assms] powerHint_inv [OF assms]
    audio_low_latency.keeps_power_inv [OF assms] audio_streaming.keeps_power_inv [OF assms]
    camera_launch.keeps_power_inv [OF assms] camera_streaming.keeps_power_inv [OF assms]
    camera_shot.keeps_power_inv [OF assms]
  by (cases hint) (simp_all add: powerHintAsync_1_2_def)

lemma powerHintAsync_1_3_inv:
  assumes "power_inv p"
  shows "\<exists>p'. powerHintAsync_1_3 env now hint d p = Inr p' \<and> power_inv p'"
  using power_inv_ready [OF assms] powerHintAsync_1_2_inv [OF assms]
    rendering.keeps_power_inv [OF assms]
  by (simp add: powerHintAsync_1_3_def)

lemma power_exec_inv:
  assumes "power_inv p"
  shows "\<exists>p'. power_exec env op p = Inr p' \<and> power_inv p'"
  using powerHint_inv [OF assms] powerHintAsync_1_2_inv [OF assms] powerHintAsync_1_3_inv [OF assms]
    worker_inv [OF assms]
  by (cases op) (simp_all add: power_exec_def powerHintAsync_def)

lemma power_run_inv: "power_inv p \<Longrightarrow> \<exists>p'. power_run env ops p = Inr p' \<and> power_inv p'"
proof (induction ops arbitrary: p)
  case (Cons op ops)
  then obtain p1 where "power_exec env op p = Inr p1" "power_inv p1"
    using power_exec_inv by blast
  with Cons.IH show ?case by simp
qed simp

subsection \<open>Before and during initialisation\<close>

lemma power_exec_unready:
  assumes "\<not> mReady p" "mInteractionHandler p = None"
  shows "power_exec env op p = Inr p"
  using assms
  by (cases op) (simp_all add: power_exec_def powerHintAsync_def powerHint_def
      powerHintAsync_1_2_def powerHintAsync_1_3_def worker_def)

lemma power_run_unready:
  "\<not> mReady p \<Longrightarrow> mInteractionHandler p = None \<Longrightarrow> power_run env ops p = Inr p"
  by (induction ops) (simp_all add: power_exec_unready)

lemma Init_first:
  "\<exists>h r. Init a b InteractionHandler = Inr (h, r) \<and> hint_inv (h, [])"
proof -
  have "\<exists>h r. Init a b InteractionHandler = Inr (h, r)"
    by (cases a; cases b) (auto simp: Init_def InteractionHandler_def)
  then obtain h r where i: "Init a b InteractionHandler = Inr (h, r)" by blast
  then have "hint_inv (h, [])"
    using handler_step_hint [OF step_Init [OF i]] hint_inv_start by blast
  with i show ?thesis by blast
qed

lemma booting_other:
  assumes "booting h p" "n \<notin> set reserved"
  shows "booting h (p\<lparr>hints := hints p @ [DoHint n]\<rparr>)"
proof -
  have n: "n \<noteq> ''INTERACTION''" "n \<noteq> ''VIDEO_ENCODE''" "n \<noteq> ''VR_MODE''"
    "n \<noteq> ''SUSTAINED_PERFORMANCE''" "n \<noteq> ''VR_SUSTAINED_PERFORMANCE''"
    using assms(2) by (simp_all add: reserved_def)
  have "hint_inv (h, hints p @ [DoHint n])"
    by (rule hint_inv_log [of h "hints p"]) (use assms(1) n(1) in \<open>simp_all add: booting_def\<close>)
  moreover have "mode_inv (p\<lparr>hints := hints p @ [DoHint n]\<rparr>)"
    using assms(1) n by (simp add: booting_def mode_inv_def)
  ultimately show ?thesis
    using assms(1) by (simp add: booting_def)
qed

lemma init_mode_booting:
  assumes "booting h p" "\<not> mVRModeOn p" "\<not> mSustainedPerfModeOn p"
  shows "\<exists>p'. init_mode p = Inr p' \<and> booting h p'"
proof -
  have log: "hint_inv (h, hints p @ [DoHint n])" if "n \<noteq> ''INTERACTION''" for n
    by (rule hint_inv_log [of h "hints p"]) (use that assms(1) in \<open>simp_all add: booting_def\<close>)
  have boot: "booting h q"
    if "hints q = hints p @ [DoHint n]" "n \<noteq> ''INTERACTION''" "mHintManager q"
      "mInteractionHandler q = Some h" "mode_inv q" for n q
    using that log by (simp add: booting_def)
  have p: "mHintManager p" "mInteractionHandler p = Some h" "mode_inv p"
    using assms(1) by (simp_all add: booting_def)
  show ?thesis
    using boot [of "p\<lparr>hints := hints p @ [DoHint ''VIDEO_ENCODE''], mEncoderModeOn := True\<rparr>"]
      boot [of "p\<lparr>hints := hints p @ [DoHint ''SUSTAINED_PERFORMANCE''],
        mSustainedPerfModeOn := True\<rparr>"]
      boot [of "p\<lparr>hints := hints p @ [DoHint ''VR_MODE''], mVRModeOn := True\<rparr>"]
      boot [of "p\<lparr>hints := hints p @ [DoHint ''VR_SUSTAINED_PERFORMANCE''],
        mSustainedPerfModeOn := True, mVRModeOn := True\<rparr>"]
      assms p
    by (simp add: init_mode_def Let_def mode_inv_def)
qed

lemma mInitThread_inv:
  assumes "json_ok env"
  shows "\<exists>p'. mInitThread env (Power props) = Inr p' \<and> power_inv p'"
proof -
  obtain h r where h: "Init (idle_opens env) (eventfd_opens env) InteractionHandler = Inr (h, r)"
    "hint_inv (h, [])"
    using Init_first by blast
  let ?p = "(Power props)\<lparr>mHintManager := True, mInteractionHandler := Some h\<rparr>"
  have "booting h ?p"
    using h(2) by (simp add: booting_def mode_inv_def Power_def)
  then obtain p1 where p1: "init_mode ?p = Inr p1" "booting h p1"
    using init_mode_booting [of h ?p] by (auto simp: Power_def)
  let ?onprop = "\<lambda>k n p. if sysprops p k = n then manager_call (DoHint n) p else Inr p"
  have step: "\<exists>q. ?onprop k n p = Inr q \<and> booting h q" if "booting h p" "n \<notin> set reserved" for k n p
    using that booting_other [OF that] by (auto simp: booting_def)
  obtain p2 where p2: "?onprop kPowerHalAudioProp ''AUDIO_LOW_LATENCY'' p1 = Inr p2" "booting h p2"
    using step [OF p1(2)] by (meson reserved_others)
  obtain p3 where p3: "?onprop kPowerHalRenderingProp ''EXPENSIVE_RENDERING'' p2 = Inr p3" "booting h p3"
    using step [OF p2(2)] by (meson reserved_others)
  have "mInitThread env (Power props) = Inr (p3\<lparr>mReady := True\<rparr>)"
    using assms h(1) p1(1) p2(1) p3(1) by (simp only: mInitThread_def mbind_Inr prod.case not_True_eq_False if_False)
  moreover have "power_inv (p3\<lparr>mReady := True\<rparr>)"
    using p3(2) by (simp add: booting_def power_inv_def ready_inv_def mode_inv_def)
  ultimately show ?thesis by blast
qed

lemma power_life_inv:
  assumes "json_ok env"
  shows "\<exists>p. power_life env props before after = Inr p \<and> power_inv p"
proof -
  have "power_run env before (Power props) = Inr (Power props)"
    by (rule power_run_unready) (simp_all add: Power_def)
  moreover obtain p1 where "mInitThread env (Power props) = Inr p1" "power_inv p1"
    using mInitThread_inv [OF assms] by blast
  ultimately show ?thesis
    using power_run_inv by (simp add: power_life_def)
qed

subsection \<open>The state property\<close>

lemma manager_call_frame:
  "manager_call c p = Inr p' \<Longrightarrow> sysprops p' = sysprops p \<and> mEncoderModeOn p' = mEncoderModeOn p"
  by (auto simp: manager_call_def split: if_split_asm)

lemma acquire_interaction_frame:
  "acquire_interaction d t p = Inr p' \<Longrightarrow> sysprops p' = sysprops p \<and> mEncoderModeOn p' = mEncoderModeOn p"
  by (auto simp: acquire_interaction_def split: option.splits prod.splits)

lemma worker_frame: "sysprops (worker p) = sysprops p \<and> mEncoderModeOn (worker p) = mEncoderModeOn p"
  by (auto simp: worker_def split: option.splits)

lemma mode_frame:
  "hint_SUSTAINED_PERFORMANCE d p = Inr p' \<Longrightarrow>
     sysprops p' = sysprops p \<and> mEncoderModeOn p' = mEncoderModeOn p"
  "hint_VR_MODE d p = Inr p' \<Longrightarrow>
     sysprops p' = sysprops p \<and> mEncoderModeOn p' = mEncoderModeOn p"
  by (cases "mHintManager p";
      auto simp: hint_SUSTAINED_PERFORMANCE_def hint_VR_MODE_def manager_call_def split: if_split_asm)+

lemma toggle_frame:
  "hint_LAUNCH d p = Inr p' \<Longrightarrow> sysprops p' = sysprops p \<and> mEncoderModeOn p' = mEncoderModeOn p"
  "hint_onoff n d p = Inr p' \<Longrightarrow> sysprops p' = sysprops p \<and> mEncoderModeOn p' = mEncoderModeOn p"
  "hint_CAMERA_LAUNCH d p = Inr p' \<Longrightarrow>
     sysprops p' = sysprops p \<and> mEncoderModeOn p' = mEncoderModeOn p"
  "hint_timed n d p = Inr p' \<Longrightarrow> sysprops p' = sysprops p \<and> mEncoderModeOn p' = mEncoderModeOn p"
  "hint_EXPENSIVE_RENDERING d p = Inr p' \<Longrightarrow>
     sysprops p' = sysprops p \<and> mEncoderModeOn p' = mEncoderModeOn p"
  by (auto simp: hint_LAUNCH_def hint_onoff_def hint_CAMERA_LAUNCH_def hint_timed_def
      hint_EXPENSIVE_RENDERING_def dest: manager_call_frame split: if_split_asm)

lemma hint_VIDEO_ENCODE_prop:
  assumes "set_ok env = (\<lambda>_ _. True)" "prop_inv p" "hint_VIDEO_ENCODE env d p = Inr p'"
  shows "prop_inv p'"
  using assms
  by (auto simp: hint_VIDEO_ENCODE_def mbind_eq_Inr_iff SetProperty_def prop_inv_def split: if_split_asm)

lemma prop_inv_frame:
  "sysprops p' = sysprops p \<and> mEncoderModeOn p' = mEncoderModeOn p \<Longrightarrow> prop_inv p \<Longrightarrow> prop_inv p'"
  by (simp add: prop_inv_def)

lemma powerHint_prop:
  assumes "set_ok env = (\<lambda>_ _. True)" "prop_inv p" "powerHint env now hint d p = Inr p'"
  shows "prop_inv p'"
  using assms hint_VIDEO_ENCODE_prop [OF assms(1,2)]
  by (cases hint)
    (auto simp: powerHint_def split: if_split_asm intro: prop_inv_frame [OF _ assms(2)]
      dest: acquire_interaction_frame mode_frame toggle_frame)

lemma powerHintAsync_1_2_prop:
  assumes "set_ok env = (\<lambda>_ _. True)" "prop_inv p" "powerHintAsync_1_2 env now hint d p = Inr p'"
  shows "prop_inv p'"
  using assms powerHint_prop [OF assms(1,2)]
  by (cases hint)
    (auto simp: powerHintAsync_1_2_def split: if_split_asm intro: prop_inv_frame [OF _ assms(2)]
      dest: toggle_frame)

lemma power_exec_prop:
  assumes "set_ok env = (\<lambda>_ _. True)" "prop_inv p" "power_exec env op p = Inr p'"
  shows "prop_inv p'"
proof (cases op)
  case (Op13 hint d now)
  show ?thesis
  proof (cases "mReady p \<and> hint = EXPENSIVE_RENDERING")
    case True
    with Op13 assms(3) have "hint_EXPENSIVE_RENDERING d p = Inr p'"
      by (simp add: power_exec_def powerHintAsync_1_3_def)
    then show ?thesis by (rule prop_inv_frame [OF toggle_frame(5) assms(2)])
  next
    case False
    with Op13 assms(3) have "p' = p \<or> powerHintAsync_1_2 env now hint d p = Inr p'"
      by (auto simp: power_exec_def powerHintAsync_1_3_def split: if_split_asm)
    then show ?thesis using assms(2) powerHintAsync_1_2_prop [OF assms(1,2)] by blast
  qed
next
  case OpThread
  with assms(3) prop_inv_frame [OF worker_frame assms(2)] show ?thesis
    by (simp add: power_exec_def)
next
  case (Op12 hint d now)
  with assms(3) show ?thesis
    by (intro powerHintAsync_1_2_prop [OF assms(1,2)]) (simp add: power_exec_def)
qed (use assms(3) powerHint_prop [OF assms(1,2)] in
    \<open>simp_all add: power_exec_def powerHintAsync_def\<close>)

lemma power_run_prop:
  assumes "set_ok env = (\<lambda>_ _. True)"
  shows "prop_inv p \<Longrightarrow> power_run env ops p = Inr p' \<Longrightarrow> prop_inv p'"
proof (induction ops arbitrary: p)
  case (Cons op ops)
  then obtain p1 where "power_exec env op p = Inr p1" "power_run env ops p1 = Inr p'"
    by (auto simp: mbind_eq_Inr_iff)
  with Cons show ?case using power_exec_prop [OF assms] by blast
qed simp

lemma mInitThread_props:
  assumes "mInitThread env (Power props) = Inr p"
  shows "sysprops p = props" and "mEncoderModeOn p \<longleftrightarrow> props kPowerHalStateProp = ''VIDEO_ENCODE''"
  using assms
  by (auto simp: mInitThread_def init_mode_def Let_def mbind_eq_Inr_iff Power_def manager_call_def
      split: if_split_asm)

lemma mInitThread_prop:
  assumes "props kPowerHalStateProp \<in> {[], ''VIDEO_ENCODE''}"
    and "mInitThread env (Power props) = Inr p"
  shows "prop_inv p"
  using assms(1) mInitThread_props [OF assms(2)] by (auto simp: prop_inv_def)

lemma power_life_prop:
  assumes "set_ok env = (\<lambda>_ _. True)" "props kPowerHalStateProp \<in> {[], ''VIDEO_ENCODE''}"
    and "power_life env props before after = Inr p"
  shows "prop_inv p"
proof -
  have "power_run env before (Power props) = Inr (Power props)"
    by (rule power_run_unready) (simp_all add: Power_def)
  then obtain p1 where "mInitThread env (Power props) = Inr p1" "power_run env after p1 = Inr p"
    using assms(3) by (auto simp: power_life_def mbind_eq_Inr_iff)
  then show ?thesis
    using power_run_prop [OF assms(1)] mInitThread_prop [where props = props, OF assms(2)] by blast
qed

lemma power_life_reached:
  "json_ok env \<Longrightarrow> power_life env props before after = Inr p \<Longrightarrow> power_inv p"
  using power_life_inv by (metis sum.inject(2))

lemmas power_life_eval =
  power_life_def mInitThread_def init_mode_def env0_def Power_def Init_def InteractionHandler_def
  power_exec_def powerHint_def powerHintAsync_1_2_def powerHintAsync_1_3_def hint_VR_MODE_def
  hint_SUSTAINED_PERFORMANCE_def perf_mode_def SetProperty_def kPowerHalStateProp_def
  kPowerHalAudioProp_def kPowerHalRenderingProp_def Let_def

subsection \<open>Properties of the power HAL\<close>



text \<open>
  C7: after any sequence of requests the hints requested of the hint manager are those the
  mode flags stand for: exactly one of the three performance mode hints while a mode is on and
  none otherwise, the encoder hint in encoder mode, and the interaction hint while the
  interaction handler is active.
\<close>

theorem hints_match_modes:
  assumes "json_ok env" and "power_life env props before after = Inr p"
  shows "(held ''VR_MODE'' (hints p) \<longleftrightarrow> mVRModeOn p \<and> \<not> mSustainedPerfModeOn p) \<and>
    (held ''SUSTAINED_PERFORMANCE'' (hints p) \<longleftrightarrow> mSustainedPerfModeOn p \<and> \<not> mVRModeOn p) \<and>
    (held ''VR_SUSTAINED_PERFORMANCE'' (hints p) \<longleftrightarrow> mVRModeOn p \<and> mSustainedPerfModeOn p) \<and>
    (held ''VIDEO_ENCODE'' (hints p) \<longleftrightarrow> mEncoderModeOn p) \<and>
    (\<exists>h. mInteractionHandler p = Some h \<and> (held ''INTERACTION'' (hints p) \<longleftrightarrow> active h))"
  using power_life_reached [OF assms]
  by (auto simp: power_inv_def mode_inv_def ready_inv_def hint_inv_def)


theorem hints_match_modes_witness:
  "json_ok env0 \<and>
   (\<exists>p. power_life env0 (\<lambda>_. []) [] [Op10 VR_MODE 1 now0, Op13 SUSTAINED_PERFORMANCE 1 now0] = Inr p \<and>
      held ''VR_SUSTAINED_PERFORMANCE'' (hints p) \<and> \<not> held ''VR_MODE'' (hints p))"
proof -
  have j: "json_ok env0" by (simp add: env0_def)
  obtain p where p: "power_life env0 (\<lambda>_. []) [] [Op10 VR_MODE 1 now0, Op13 SUSTAINED_PERFORMANCE 1 now0] = Inr p"
    "mVRModeOn p" "mSustainedPerfModeOn p"
    by (simp add: power_life_eval)
  with j show ?thesis using hints_match_modes [OF j p(1)] by blast
qed

text \<open>
  While VR mode or sustained performance is on, the requests for interaction, encoding,
  launch and expensive rendering change nothing, whichever interface version they arrive by.
\<close>

theorem perf_mode_ignores:
  assumes "mVRModeOn p \<or> mSustainedPerfModeOn p" and "yields hint" and "hint \<noteq> EXPENSIVE_RENDERING"
  shows "powerHint env now hint d p = Inr p \<and> powerHintAsync env now hint d p = Inr p \<and>
    powerHintAsync_1_2 env now hint d p = Inr p \<and> powerHintAsync_1_3 env now hint d p = Inr p \<and>
    powerHintAsync_1_3 env now EXPENSIVE_RENDERING d p = Inr p"
  using assms
  by (cases hint)
    (simp_all add: yields_def powerHint_def powerHintAsync_def powerHintAsync_1_2_def
      powerHintAsync_1_3_def hint_VIDEO_ENCODE_def hint_LAUNCH_def hint_EXPENSIVE_RENDERING_def
      perf_mode_def)

theorem perf_mode_ignores_witness:
  "mVRModeOn ((Power (\<lambda>_. []))\<lparr>mVRModeOn := True, mReady := True\<rparr>) \<and> yields LAUNCH \<and>
   powerHint env0 now0 LAUNCH 1 ((Power (\<lambda>_. []))\<lparr>mVRModeOn := True, mReady := True\<rparr>) =
     Inr ((Power (\<lambda>_. []))\<lparr>mVRModeOn := True, mReady := True\<rparr>)"
  using perf_mode_ignores [of "(Power (\<lambda>_. []))\<lparr>mVRModeOn := True, mReady := True\<rparr>" LAUNCH]
  by (simp add: yields_def)

text \<open>
  An audio or camera hint sent through the newest interface is requested of the manager
  when its argument is positive and withdrawn when it is zero, in every state the service can
  reach, and the request touches no other hint.
\<close>

theorem switch_reaches_manager:
  assumes "json_ok env" and "power_life env props before after = Inr p"
    and "switch_name hint = Some n" and "0 \<le> d"
  shows "\<exists>p'. powerHintAsync_1_3 env now hint d p = Inr p' \<and> (held n (hints p') \<longleftrightarrow> 0 < d) \<and>
    (\<forall>m. m \<noteq> n \<longrightarrow> held m (hints p') = held m (hints p))"
proof -
  have p: "mReady p" "mHintManager p"
    using power_life_reached [OF assms(1,2)] power_inv_ready power_inv_manager by blast+
  show ?thesis
    using assms(3) p audio_low_latency.toggles [OF p(2) assms(4)] audio_streaming.toggles [OF p(2) assms(4)]
      camera_launch.toggles [OF p(2) assms(4)] camera_streaming.toggles [OF p(2) assms(4)]
      camera_shot.toggles [OF p(2) assms(4)]
    by (cases hint) (auto simp: switch_name_def powerHintAsync_1_3_def powerHintAsync_1_2_def)
qed

theorem switch_reaches_manager_witness:
  "json_ok env0 \<and> (\<exists>p p'. power_life env0 (\<lambda>_. []) [] [Op10 VR_MODE 1 now0] = Inr p \<and>
     powerHintAsync_1_3 env0 now0 CAMERA_SHOT 500 p = Inr p' \<and> held ''CAMERA_SHOT'' (hints p'))"
proof -
  have j: "json_ok env0" by (simp add: env0_def)
  obtain p where p: "power_life env0 (\<lambda>_. []) [] [Op10 VR_MODE 1 now0] = Inr p"
    by (simp add: power_life_eval)
  have "switch_name CAMERA_SHOT = Some ''CAMERA_SHOT''" "0 \<le> (500 :: int)"
    by (simp_all add: switch_name_def)
  from switch_reaches_manager [OF j p this, of now0] j p show ?thesis by auto
qed

text \<open>
  When the property service works, a restarted service comes up in the encoder mode the
  previous one was in, and requests the encoder hint again exactly then.
\<close>

theorem restart_restores_encoder:
  assumes "json_ok env" and "set_ok env = (\<lambda>_ _. True)"
    and "props kPowerHalStateProp = [] \<or> props kPowerHalStateProp = ''VIDEO_ENCODE''"
    and "power_life env props before after = Inr p"
  shows "\<exists>q. mInitThread env (Power (sysprops p)) = Inr q \<and> mEncoderModeOn q = mEncoderModeOn p \<and>
    held ''VIDEO_ENCODE'' (hints q) = held ''VIDEO_ENCODE'' (hints p)"
proof -
  have ok: "props kPowerHalStateProp \<in> {[], ''VIDEO_ENCODE''}"
    using assms(3) by simp
  have pp: "prop_inv p"
    by (rule power_life_prop [OF assms(2) ok assms(4)])
  then have ok': "sysprops p kPowerHalStateProp \<in> {[], ''VIDEO_ENCODE''}"
    by (simp add: prop_inv_def)
  obtain q where q: "mInitThread env (Power (sysprops p)) = Inr q" "power_inv q"
    using mInitThread_inv [OF assms(1)] by blast
  have "prop_inv q"
    using mInitThread_prop [where props = "sysprops p", OF ok' q(1)] .
  moreover have "sysprops q = sysprops p"
    using mInitThread_props(1) [OF q(1)] .
  ultimately have "mEncoderModeOn q = mEncoderModeOn p"
    using pp by (simp add: prop_inv_def split: if_split_asm)
  moreover have "mode_inv q" "mode_inv p"
    using q(2) power_life_reached [OF assms(1,4)] by (simp_all add: power_inv_def)
  ultimately show ?thesis
    using q(1) by (simp add: mode_inv_def)
qed

theorem restart_restores_encoder_witness:
  "json_ok env0 \<and> set_ok env0 = (\<lambda>_ _. True) \<and>
   (\<exists>p q. power_life env0 (\<lambda>_. []) [] [Op10 VIDEO_ENCODE 1 now0] = Inr p \<and> mEncoderModeOn p \<and>
     mInitThread env0 (Power (sysprops p)) = Inr q \<and> mEncoderModeOn q)"
proof -
  have j: "json_ok env0" "set_ok env0 = (\<lambda>_ _. True)" by (simp_all add: env0_def)
  obtain p where p: "power_life env0 (\<lambda>_. []) [] [Op10 VIDEO_ENCODE 1 now0] = Inr p" "mEncoderModeOn p"
    by (simp add: power_life_eval hint_VIDEO_ENCODE_def)
  have "(\<lambda>_. []) kPowerHalStateProp = ([] :: string) \<or>
      (\<lambda>_. []) kPowerHalStateProp = ''VIDEO_ENCODE''" by simp
  from restart_restores_encoder [OF j this p(1)] j p show ?thesis by auto
qed

text \<open>
  A request to end encoding that arrives in a performance mode is dropped, and after the mode
  ends the encoder hint and the state property are still set.
\<close>

lemma encoder_off_lost:
  "\<exists>p. power_life env0 (\<lambda>_. []) []
      [Op10 VIDEO_ENCODE 1 now0, Op10 VR_MODE 1 now0, Op10 VIDEO_ENCODE 0 now0, Op10 VR_MODE 0 now0] = Inr p \<and>
    held ''VIDEO_ENCODE'' (hints p) \<and> mEncoderModeOn p \<and> \<not> mVRModeOn p"
  by (simp add: power_life_eval hint_VIDEO_ENCODE_def held_def)

end
