(* ===== verification/Gr_Formats.thy ===== *)
theory Gr_Formats
  imports Prelude
begin

text \<open>
  Pixel formats and usage flags of the graphics allocator
  (\<open>hardware/qcom-caf/display/gralloc\<close>), and the functions of \<open>gr_utils.cpp\<close> and
  \<open>gr_adreno_info.cpp\<close> that only classify them.

  A format is the name of its \<open>HAL_PIXEL_FORMAT_\<close> constant; the constants a \<open>switch\<close> of
  the sources lists are distinct, since duplicate case labels do not compile.  The 28 ASTC
  constants are the constructor \<open>ASTC\<close> with the colour space and the block size.

  A usage word is only ever tested against masks, so it is the set of the named masks it
  meets: \<open>flag \<in> u\<close> stands for \<open>(u & flag) != 0\<close>.  Some tests of the sources apply a mask of
  the consumer flags to a producer word; for this reason one type names all masks.

  Shown here: the tables agree with each other, in particular every format that may be
  compressed has an entry in each table the compressed paths consult.
\<close>

subsection \<open>Formats\<close>

datatype astc_block =
    Astc4x4 | Astc5x4 | Astc5x5 | Astc6x5 | Astc6x6 | Astc8x5 | Astc8x6 | Astc8x8
  | Astc10x5 | Astc10x6 | Astc10x8 | Astc10x10 | Astc12x10 | Astc12x12

datatype (plugins only: code size) hal_format =
    RGBA_8888 | RGBX_8888 | RGB_888 | RGB_565 | BGR_565 | BGRA_8888 | RGBA_5551 | RGBA_4444
  | R_8 | RG_88 | BGRX_8888 | RGBA_1010102 | ARGB_2101010 | RGBX_1010102 | XRGB_2101010
  | BGRA_1010102 | ABGR_2101010 | BGRX_1010102 | XBGR_2101010 | RGBA_FP16 | BGR_888
  | ASTC bool astc_block
  | RAW16 | Y16 | RAW12 | RAW10 | RAW8 | Y8
  | YCrCb_420_SP_ADRENO | YCbCr_420_SP_TILED | YV12 | YCbCr_420_SP | YCrCb_420_SP
  | YCbCr_420_P010 | YCbCr_422_SP | YCrCb_422_SP | YCbCr_422_I | YCrCb_422_I | CbYCrY_422_I
  | YCbCr_420_SP_VENUS | NV12_ENCODEABLE | YCrCb_420_SP_VENUS | BLOB | RAW_OPAQUE | NV21_ZSL
  | YCbCr_420_SP_VENUS_UBWC | YCbCr_420_TP10_UBWC | YCbCr_420_P010_UBWC
  | IMPLEMENTATION_DEFINED | YCbCr_420_888
  | OtherFormat int

subsection \<open>Usage flags\<close>

datatype (plugins only: code size) usage_flag =
    PRODUCER_CPU_READ | PRODUCER_CPU_READ_OFTEN | PRODUCER_CPU_WRITE | PRODUCER_CPU_WRITE_OFTEN
  | PRODUCER_PROTECTED | PRODUCER_CAMERA | PRODUCER_GPU_RENDER_TARGET | PRODUCER_GPU_SAMPLED_IMAGE
  | PRODUCER_GPU_DATA_BUFFER | PRODUCER_GPU_CUBE_MAP | PRODUCER_GPU_MIPMAP_COMPLETE
  | PRODUCER_SENSOR_DIRECT_DATA | PRODUCER_ALLOC_UBWC | PRODUCER_UNCACHED | PRODUCER_CAMERA_HEAP
  | PRODUCER_ADSP_HEAP | PRODUCER_MM_HEAP
  | CONSUMER_CPU_READ | CONSUMER_CPU_READ_OFTEN | CONSUMER_GPU_TEXTURE | CONSUMER_GPU_DATA_BUFFER
  | CONSUMER_HWCOMPOSER | CONSUMER_CLIENT_TARGET | CONSUMER_VIDEO_ENCODER | CONSUMER_CAMERA
  | CONSUMER_SECURE_DISPLAY | CONSUMER_INTERNAL_ONLY | CONSUMER_EXTERNAL_ONLY
  | COMPOSER_CLIENT_TARGET

type_synonym usage = "usage_flag set"

subsection \<open>Classification of formats\<close>

definition IsUncompressedRGBFormat :: "hal_format \<Rightarrow> bool" where
  "IsUncompressedRGBFormat format \<longleftrightarrow> format \<in> set
     [RGBA_8888, RGBX_8888, RGB_888, RGB_565, BGR_565, BGRA_8888, RGBA_5551, RGBA_4444,
      R_8, RG_88, BGRX_8888, RGBA_1010102, ARGB_2101010, RGBX_1010102, XRGB_2101010,
      BGRA_1010102, ABGR_2101010, BGRX_1010102, XBGR_2101010, RGBA_FP16, BGR_888]"

definition IsCompressedRGBFormat :: "hal_format \<Rightarrow> bool" where
  "IsCompressedRGBFormat format = (case format of ASTC _ _ \<Rightarrow> True | _ \<Rightarrow> False)"

definition GetBppForUncompressedRGB :: "hal_format \<Rightarrow> u32" where
  "GetBppForUncompressedRGB format =
     (if format = RGBA_FP16 then 8
      else if format \<in> set [RGBA_8888, RGBX_8888, BGRA_8888, BGRX_8888, RGBA_1010102,
        ARGB_2101010, RGBX_1010102, XRGB_2101010, BGRA_1010102, ABGR_2101010, BGRX_1010102,
        XBGR_2101010] then 4
      else if format \<in> set [RGB_888, BGR_888] then 3
      else if format \<in> set [RGB_565, BGR_565, RGBA_5551, RGBA_4444] then 2
      else 0)"

definition IsUBwcFormat :: "hal_format \<Rightarrow> bool" where
  "IsUBwcFormat format \<longleftrightarrow>
     format \<in> set [YCbCr_420_SP_VENUS_UBWC, YCbCr_420_TP10_UBWC, YCbCr_420_P010_UBWC]"

definition IsUBwcSupported :: "hal_format \<Rightarrow> bool" where
  "IsUBwcSupported format \<longleftrightarrow> format \<in> set
     [BGR_565, RGBA_8888, RGBX_8888, NV12_ENCODEABLE, YCbCr_420_SP_VENUS, RGBA_1010102,
      RGBX_1010102]"

text \<open>\<open>IsYuvFormat\<close> of \<open>gr_buf_mgr.cpp\<close>.\<close>

definition IsYuvFormat :: "hal_format \<Rightarrow> bool" where
  "IsYuvFormat format \<longleftrightarrow> format \<in> set
     [YCbCr_420_SP, YCbCr_422_SP, YCbCr_420_SP_VENUS, NV12_ENCODEABLE, YCbCr_420_SP_VENUS_UBWC,
      YCrCb_420_SP, YCrCb_422_SP, YCrCb_420_SP_ADRENO, NV21_ZSL, RAW16, Y16, RAW12, RAW10, YV12,
      Y8, YCbCr_420_P010, YCbCr_420_TP10_UBWC, YCbCr_420_P010_UBWC]"

subsection \<open>Classification of usages\<close>

definition CpuCanRead :: "usage \<Rightarrow> usage \<Rightarrow> bool" where
  "CpuCanRead prod_usage cons_usage \<longleftrightarrow>
     PRODUCER_CPU_READ \<in> prod_usage \<or> CONSUMER_CPU_READ \<in> cons_usage"

definition CpuCanWrite :: "usage \<Rightarrow> bool" where
  "CpuCanWrite prod_usage \<longleftrightarrow> PRODUCER_CPU_WRITE \<in> prod_usage"

definition CpuCanAccess :: "usage \<Rightarrow> usage \<Rightarrow> bool" where
  "CpuCanAccess prod_usage cons_usage \<longleftrightarrow> CpuCanRead prod_usage cons_usage \<or> CpuCanWrite prod_usage"

subsection \<open>The GPU library\<close>

datatype adreno_format =
    R8G8B8A8 | R8G8B8X8 | B5G6R5 | R5G6B5 | NV12 | NV12_EXT | TP10 | P010
  | R10G10B10A2_UNORM | R10G10B10X2_UNORM | A2B10G10R10_UNORM | R8G8B8 | R16G16B16A16_FLOAT
  | PIXELFORMAT_UNKNOWN

text \<open>
  \<open>AdrenoMemInfo\<close>: the functions found in \<open>libadreno_utils.so\<close>, each absent when the library
  or the symbol is, and the two properties read by the constructor.  The functions get the
  dimensions, the bytes per pixel or the format, and the tiling, the raster mode and the
  padding threshold.
\<close>

record adreno =
  compute_aligned_width_and_height :: "(int \<Rightarrow> int \<Rightarrow> int \<Rightarrow> int \<Rightarrow> int \<Rightarrow> int \<Rightarrow> u32 \<times> u32) option"
  compute_padding :: "(int \<Rightarrow> int \<Rightarrow> int \<Rightarrow> int \<Rightarrow> int \<Rightarrow> int) option"
  compute_compressedfmt_aligned ::
    "(int \<Rightarrow> int \<Rightarrow> hal_format \<Rightarrow> int \<Rightarrow> int \<Rightarrow> int \<Rightarrow> u32 \<times> u32) option"
  isUBWCSupportedByGpu :: "(adreno_format \<Rightarrow> bool) option"
  get_gpu_pixel_alignment :: "u32 option"
  LINK_isSecureContextSupportedByGpu :: "bool option"
  gfx_ubwc_disable :: bool
  map_fb_on :: bool

text \<open>
  The constructor: a symbol table that is empty when the library is not found, and the values
  of the properties \<open>vendor.gralloc.disable_ubwc\<close> and \<open>vendor.gralloc.map_fb_memory\<close>.
\<close>

definition lower_char :: "char \<Rightarrow> char" where
  "lower_char c = (let n = of_char c :: nat in if 65 \<le> n \<and> n \<le> 90 then char_of (n + 32) else c)"

definition AdrenoMemInfo :: "adreno option \<Rightarrow> string option \<Rightarrow> string option \<Rightarrow> adreno" where
  "AdrenoMemInfo libadreno_utils disable_ubwc map_fb_memory =
     (let a = (case libadreno_utils of
            Some lib \<Rightarrow> lib
          | None \<Rightarrow> \<lparr>compute_aligned_width_and_height = None, compute_padding = None,
              compute_compressedfmt_aligned = None, isUBWCSupportedByGpu = None,
              get_gpu_pixel_alignment = None, LINK_isSecureContextSupportedByGpu = None,
              gfx_ubwc_disable = False, map_fb_on = False\<rparr>);
          disable = (case disable_ubwc of None \<Rightarrow> ''0'' | Some v \<Rightarrow> v);
          map_fb = (case map_fb_memory of None \<Rightarrow> [] | Some v \<Rightarrow> v)
      in a\<lparr>gfx_ubwc_disable := (disable = ''1'' \<or> disable = ''true''),
           map_fb_on := (map_fb \<noteq> [] \<and> (map_fb = ''1'' \<or> map lower_char map_fb = ''true''))\<rparr>)"

definition GetGpuPixelFormat :: "hal_format \<Rightarrow> adreno_format" where
  "GetGpuPixelFormat hal_format = (case hal_format of
     RGBA_8888 \<Rightarrow> R8G8B8A8
   | RGBX_8888 \<Rightarrow> R8G8B8X8
   | RGB_565 \<Rightarrow> B5G6R5
   | BGR_565 \<Rightarrow> R5G6B5
   | NV12_ENCODEABLE \<Rightarrow> NV12
   | YCbCr_420_SP_VENUS \<Rightarrow> NV12_EXT
   | YCbCr_420_SP_VENUS_UBWC \<Rightarrow> NV12_EXT
   | YCbCr_420_TP10_UBWC \<Rightarrow> TP10
   | YCbCr_420_P010 \<Rightarrow> P010
   | YCbCr_420_P010_UBWC \<Rightarrow> P010
   | RGBA_1010102 \<Rightarrow> R10G10B10A2_UNORM
   | RGBX_1010102 \<Rightarrow> R10G10B10X2_UNORM
   | ABGR_2101010 \<Rightarrow> A2B10G10R10_UNORM
   | RGB_888 \<Rightarrow> R8G8B8
   | RGBA_FP16 \<Rightarrow> R16G16B16A16_FLOAT
   | _ \<Rightarrow> PIXELFORMAT_UNKNOWN)"

definition IsUBWCSupportedByGPU :: "adreno \<Rightarrow> hal_format \<Rightarrow> bool" where
  "IsUBWCSupportedByGPU a format =
     (case isUBWCSupportedByGpu a of
        Some supported \<Rightarrow> \<not> gfx_ubwc_disable a \<and> supported (GetGpuPixelFormat format)
      | None \<Rightarrow> False)"

definition GetGpuPixelAlignment :: "adreno \<Rightarrow> u32" where
  "GetGpuPixelAlignment a = (case get_gpu_pixel_alignment a of Some n \<Rightarrow> n | None \<Rightarrow> 1)"

definition isSecureContextSupportedByGpu :: "adreno \<Rightarrow> bool" where
  "isSecureContextSupportedByGpu a =
     (case LINK_isSecureContextSupportedByGpu a of Some b \<Rightarrow> b | None \<Rightarrow> True)"

definition IsGPUSupportedHwBuffer :: "adreno \<Rightarrow> usage \<Rightarrow> bool" where
  "IsGPUSupportedHwBuffer a prod_usage =
     (if PRODUCER_PROTECTED \<in> prod_usage \<and>
         (PRODUCER_GPU_RENDER_TARGET \<in> prod_usage \<or> PRODUCER_GPU_SAMPLED_IMAGE \<in> prod_usage \<or>
          PRODUCER_GPU_DATA_BUFFER \<in> prod_usage \<or> PRODUCER_GPU_CUBE_MAP \<in> prod_usage \<or>
          PRODUCER_GPU_MIPMAP_COMPLETE \<in> prod_usage)
      then isSecureContextSupportedByGpu a
      else True)"

definition IsUBwcEnabled :: "adreno \<Rightarrow> hal_format \<Rightarrow> usage \<Rightarrow> usage \<Rightarrow> bool" where
  "IsUBwcEnabled a format prod_usage cons_usage =
     (if IsUBwcFormat format then True
      else if (PRODUCER_ALLOC_UBWC \<in> prod_usage \<or> COMPOSER_CLIENT_TARGET \<in> cons_usage) \<and>
              IsUBwcSupported format
      then
        let enable = (if CONSUMER_GPU_TEXTURE \<in> cons_usage \<or> PRODUCER_GPU_RENDER_TARGET \<in> prod_usage
                      then IsUBWCSupportedByGPU a format else True)
        in enable \<and> \<not> CpuCanAccess prod_usage cons_usage
      else False)"

subsection \<open>The tables agree\<close>

lemma UBwcFormat_not_RGB: "IsUBwcFormat format \<Longrightarrow> \<not> IsUncompressedRGBFormat format"
  by (auto simp: IsUBwcFormat_def IsUncompressedRGBFormat_def)

lemma UBwcEnabled_formats:
  "IsUBwcEnabled a format p c \<Longrightarrow> IsUBwcFormat format \<or> IsUBwcSupported format"
  by (auto simp: IsUBwcEnabled_def split: if_split_asm)

lemma UBwcEnabled_no_cpu:
  "IsUBwcEnabled a format p c \<Longrightarrow> \<not> IsUBwcFormat format \<Longrightarrow> \<not> CpuCanAccess p c"
  by (auto simp: IsUBwcEnabled_def Let_def split: if_split_asm)

lemma UBwcSupported_gpu_format:
  "IsUBwcFormat format \<or> IsUBwcSupported format \<Longrightarrow> GetGpuPixelFormat format \<noteq> PIXELFORMAT_UNKNOWN"
  by (auto simp: IsUBwcFormat_def IsUBwcSupported_def GetGpuPixelFormat_def)

lemma UBwcSupported_RGB_bpp:
  "IsUBwcSupported format \<Longrightarrow> IsUncompressedRGBFormat format \<Longrightarrow>
     GetBppForUncompressedRGB format \<in> {2, 4}"
  by (auto simp: IsUBwcSupported_def IsUncompressedRGBFormat_def GetBppForUncompressedRGB_def)

lemma compressed_not_RGB: "IsCompressedRGBFormat format \<Longrightarrow> \<not> IsUncompressedRGBFormat format"
  by (cases format) (simp_all add: IsCompressedRGBFormat_def IsUncompressedRGBFormat_def)

end
