(* ===== verification/Gr_Handle.thy ===== *)
theory Gr_Handle
  imports Gr_Formats
begin

text \<open>
  Buffer handles and the metadata attached to them: \<open>gralloc/gr_priv_handle.h\<close> and
  \<open>libqdutils/qdMetaData.cpp\<close>, \<open>qdMetaData.h\<close>.

  \<open>private_handle\<close> is the C++ structure; the four header fields of \<open>native_handle_t\<close> enter
  only through the comparison \<open>validate\<close> makes, so they are the flag \<open>hnd_header_ok\<close>.
  \<open>MetaData\<close> is the structure in the shared metadata page.  A \<open>void *\<close> parameter together
  with its type tag is one constructor of \<open>meta_param\<close>, so a value always has the type its tag
  stands for; the tag alone is \<open>disp_param\<close>, with the bit of \<open>operation\<close> it owns.
  \<open>mmap\<close> is a parameter: the address a metadata descriptor is mapped at, or a failure.

  Shown here: the page is a map from tags to values.  The locale \<open>key_store\<close> states what a
  client of such a store may rely on, and its interpretation discharges it for
  \<open>setMetaDataVa\<close>, \<open>clearMetaDataVa\<close> and \<open>getMetaDataVa\<close>.
\<close>

subsection \<open>The handle\<close>

definition PRIV_FLAGS_USES_ION :: u32 where "PRIV_FLAGS_USES_ION = 0x00000008"
definition PRIV_FLAGS_NEEDS_FLUSH :: u32 where "PRIV_FLAGS_NEEDS_FLUSH = 0x00000020"
definition PRIV_FLAGS_INTERNAL_ONLY :: u32 where "PRIV_FLAGS_INTERNAL_ONLY = 0x00000040"
definition PRIV_FLAGS_NON_CPU_WRITER :: u32 where "PRIV_FLAGS_NON_CPU_WRITER = 0x00000080"
definition PRIV_FLAGS_CACHED :: u32 where "PRIV_FLAGS_CACHED = 0x00000200"
definition PRIV_FLAGS_SECURE_BUFFER :: u32 where "PRIV_FLAGS_SECURE_BUFFER = 0x00000400"
definition PRIV_FLAGS_EXTERNAL_ONLY :: u32 where "PRIV_FLAGS_EXTERNAL_ONLY = 0x00002000"
definition PRIV_FLAGS_VIDEO_ENCODER :: u32 where "PRIV_FLAGS_VIDEO_ENCODER = 0x00010000"
definition PRIV_FLAGS_CAMERA_WRITE :: u32 where "PRIV_FLAGS_CAMERA_WRITE = 0x00020000"
definition PRIV_FLAGS_CAMERA_READ :: u32 where "PRIV_FLAGS_CAMERA_READ = 0x00040000"
definition PRIV_FLAGS_HW_COMPOSER :: u32 where "PRIV_FLAGS_HW_COMPOSER = 0x00080000"
definition PRIV_FLAGS_HW_TEXTURE :: u32 where "PRIV_FLAGS_HW_TEXTURE = 0x00100000"
definition PRIV_FLAGS_SECURE_DISPLAY :: u32 where "PRIV_FLAGS_SECURE_DISPLAY = 0x01000000"
definition PRIV_FLAGS_CPU_RENDERED :: u32 where "PRIV_FLAGS_CPU_RENDERED = 0x04000000"
definition PRIV_FLAGS_UBWC_ALIGNED :: u32 where "PRIV_FLAGS_UBWC_ALIGNED = 0x08000000"
definition PRIV_FLAGS_DISP_CONSUMER :: u32 where "PRIV_FLAGS_DISP_CONSUMER = 0x10000000"
definition PRIV_FLAGS_CLIENT_ALLOCATED :: u32 where "PRIV_FLAGS_CLIENT_ALLOCATED = 0x20000000"

definition has_flag :: "u32 \<Rightarrow> u32 \<Rightarrow> bool" where
  "has_flag fl m \<longleftrightarrow> fl AND m \<noteq> 0"

definition kMagic :: u32 where
  "kMagic = 0x676d736d"

record private_handle =
  hnd_header_ok :: bool
  hnd_fd :: int
  hnd_fd_metadata :: int
  hnd_magic :: u32
  hnd_flags :: u32
  hnd_width :: int
  hnd_height :: int
  hnd_unaligned_width :: int
  hnd_unaligned_height :: int
  hnd_format :: hal_format
  hnd_buffer_type :: int
  hnd_size :: u32
  hnd_offset :: u32
  hnd_offset_metadata :: u32
  hnd_base :: u64
  hnd_base_metadata :: u64
  hnd_gpuaddr :: u64
  hnd_id :: u64
  hnd_producer_usage :: usage
  hnd_consumer_usage :: usage
  hnd_layer_count :: u32

definition private_handle_t ::
    "int \<Rightarrow> int \<Rightarrow> u32 \<Rightarrow> int \<Rightarrow> int \<Rightarrow> int \<Rightarrow> int \<Rightarrow> hal_format \<Rightarrow> int \<Rightarrow> u32 \<Rightarrow> usage \<Rightarrow> usage \<Rightarrow>
     private_handle" where
  "private_handle_t fd meta_fd fl w h uw uh f buf_type sz prod_usage cons_usage =
     \<lparr>hnd_header_ok = True, hnd_fd = fd, hnd_fd_metadata = meta_fd, hnd_magic = kMagic,
      hnd_flags = fl, hnd_width = w, hnd_height = h, hnd_unaligned_width = uw,
      hnd_unaligned_height = uh, hnd_format = f, hnd_buffer_type = buf_type, hnd_size = sz,
      hnd_offset = 0, hnd_offset_metadata = 0, hnd_base = 0, hnd_base_metadata = 0,
      hnd_gpuaddr = 0, hnd_id = 0, hnd_producer_usage = prod_usage,
      hnd_consumer_usage = cons_usage, hnd_layer_count = 1\<rparr>"

text \<open>\<open>validate\<close> returns 0 for a valid handle.\<close>

definition validate :: "private_handle option \<Rightarrow> bool" where
  "validate h = (case h of None \<Rightarrow> False | Some hnd \<Rightarrow> hnd_header_ok hnd \<and> hnd_magic hnd = kMagic)"

subsection \<open>The metadata page\<close>

datatype color_space = ITU_R_601 | ITU_R_601_FR | ITU_R_709 | ITU_R_2020 | ITU_R_2020_FR

datatype igc = IGC_NotSpecified | IGC_sRGB

datatype color_primaries =
    ColorPrimaries_BT709_5 | ColorPrimaries_BT601_6_525 | ColorPrimaries_BT601_6_625
  | ColorPrimaries_BT2020 | ColorPrimaries_other int

text \<open>The two fields of \<open>ColorMetaData\<close> the allocator reads.\<close>

record color_metadata =
  colorPrimaries :: color_primaries
  color_range :: bool

text \<open>The float \<open>refreshrate\<close> is its bit pattern.\<close>

record MetaData =
  operation :: u32
  interlaced :: int
  bufferDim :: "int \<times> int"
  refreshrate :: u32
  colorSpace :: color_space
  md_igc :: igc
  mapSecureBuffer :: int
  s3dFormat :: u32
  linearFormat :: hal_format
  isSingleBufferMode :: u32
  s3dComp :: "int \<times> u32"
  vtTimeStamp :: u64
  color :: color_metadata

datatype disp_param =
    VT_TIMESTAMP | COLOR_METADATA | PP_PARAM_INTERLACED | UNUSED2 | UNUSED3 | UNUSED4
  | UBWC_CR_STATS_INFO | BUFFER_GEOMETRY | REFRESH_RATE | COLOR_SPACE | MAP_SECURE_BUFFER
  | S3D_FORMAT | LINEAR_FORMAT | IGC | SINGLE_BUFFER_MODE | S3D_COMP

definition param_pos :: "disp_param \<Rightarrow> nat" where
  "param_pos t = (case t of
     VT_TIMESTAMP \<Rightarrow> 0 | COLOR_METADATA \<Rightarrow> 1 | PP_PARAM_INTERLACED \<Rightarrow> 2 | UNUSED2 \<Rightarrow> 3
   | UNUSED3 \<Rightarrow> 4 | UNUSED4 \<Rightarrow> 5 | UBWC_CR_STATS_INFO \<Rightarrow> 6 | BUFFER_GEOMETRY \<Rightarrow> 7
   | REFRESH_RATE \<Rightarrow> 8 | COLOR_SPACE \<Rightarrow> 9 | MAP_SECURE_BUFFER \<Rightarrow> 10 | S3D_FORMAT \<Rightarrow> 11
   | LINEAR_FORMAT \<Rightarrow> 12 | IGC \<Rightarrow> 13 | SINGLE_BUFFER_MODE \<Rightarrow> 14 | S3D_COMP \<Rightarrow> 15)"

definition param_bit :: "disp_param \<Rightarrow> u32" where
  "param_bit t = push_bit (param_pos t) 1"

datatype meta_param =
    P_INTERLACED int
  | P_GEOMETRY int int
  | P_REFRESH_RATE u32
  | P_COLOR_SPACE color_space
  | P_MAP_SECURE int
  | P_S3D_FORMAT u32
  | P_LINEAR_FORMAT hal_format
  | P_IGC igc
  | P_SINGLE_BUFFER u32
  | P_S3D_COMP int u32
  | P_VT_TIMESTAMP u64
  | P_COLOR color_metadata

definition param_type :: "meta_param \<Rightarrow> disp_param" where
  "param_type p = (case p of
     P_INTERLACED _ \<Rightarrow> PP_PARAM_INTERLACED
   | P_GEOMETRY _ _ \<Rightarrow> BUFFER_GEOMETRY
   | P_REFRESH_RATE _ \<Rightarrow> REFRESH_RATE
   | P_COLOR_SPACE _ \<Rightarrow> COLOR_SPACE
   | P_MAP_SECURE _ \<Rightarrow> MAP_SECURE_BUFFER
   | P_S3D_FORMAT _ \<Rightarrow> S3D_FORMAT
   | P_LINEAR_FORMAT _ \<Rightarrow> LINEAR_FORMAT
   | P_IGC _ \<Rightarrow> IGC
   | P_SINGLE_BUFFER _ \<Rightarrow> SINGLE_BUFFER_MODE
   | P_S3D_COMP _ _ \<Rightarrow> S3D_COMP
   | P_VT_TIMESTAMP _ \<Rightarrow> VT_TIMESTAMP
   | P_COLOR _ \<Rightarrow> COLOR_METADATA)"

text \<open>Setting with a null parameter withdraws the tag.\<close>

definition resetMetaDataVa :: "MetaData \<Rightarrow> disp_param \<Rightarrow> MetaData" where
  "resetMetaDataVa d t = d\<lparr>operation := operation d AND NOT (param_bit t)\<rparr>"

definition setMetaDataVa :: "MetaData \<Rightarrow> meta_param \<Rightarrow> MetaData" where
  "setMetaDataVa d0 p =
     (let d = d0\<lparr>operation := operation d0 OR param_bit (param_type p)\<rparr>
      in case p of
        P_INTERLACED v \<Rightarrow> d\<lparr>interlaced := v\<rparr>
      | P_GEOMETRY w h \<Rightarrow> d\<lparr>bufferDim := (w, h)\<rparr>
      | P_REFRESH_RATE v \<Rightarrow> d\<lparr>refreshrate := v\<rparr>
      | P_COLOR_SPACE v \<Rightarrow> d\<lparr>colorSpace := v\<rparr>
      | P_MAP_SECURE v \<Rightarrow> d\<lparr>mapSecureBuffer := v\<rparr>
      | P_S3D_FORMAT v \<Rightarrow> d\<lparr>s3dFormat := v\<rparr>
      | P_LINEAR_FORMAT v \<Rightarrow> d\<lparr>linearFormat := v\<rparr>
      | P_IGC v \<Rightarrow> d\<lparr>md_igc := v\<rparr>
      | P_SINGLE_BUFFER v \<Rightarrow> d\<lparr>isSingleBufferMode := v\<rparr>
      | P_S3D_COMP i m \<Rightarrow> d\<lparr>s3dComp := (i, m)\<rparr>
      | P_VT_TIMESTAMP v \<Rightarrow> d\<lparr>vtTimeStamp := v\<rparr>
      | P_COLOR v \<Rightarrow> d\<lparr>color := v\<rparr>)"

definition clearMetaDataVa :: "MetaData \<Rightarrow> disp_param \<Rightarrow> MetaData" where
  "clearMetaDataVa d t =
     (let d = d\<lparr>operation := operation d AND NOT (param_bit t)\<rparr>
      in if t = S3D_COMP then d\<lparr>s3dComp := (-1, 0)\<rparr> else d)"

text \<open>\<open>None\<close> is the return value \<open>-EINVAL\<close>, with the output parameter untouched.\<close>

definition present :: "MetaData \<Rightarrow> disp_param \<Rightarrow> meta_param \<Rightarrow> meta_param option" where
  "present d t v = (if operation d AND param_bit t \<noteq> 0 then Some v else None)"

definition getMetaDataVa :: "MetaData \<Rightarrow> disp_param \<Rightarrow> meta_param option" where
  "getMetaDataVa d t = (case t of
     PP_PARAM_INTERLACED \<Rightarrow> present d t (P_INTERLACED (interlaced d))
   | BUFFER_GEOMETRY \<Rightarrow> present d t (P_GEOMETRY (fst (bufferDim d)) (snd (bufferDim d)))
   | REFRESH_RATE \<Rightarrow> present d t (P_REFRESH_RATE (refreshrate d))
   | COLOR_SPACE \<Rightarrow> present d t (P_COLOR_SPACE (colorSpace d))
   | MAP_SECURE_BUFFER \<Rightarrow> present d t (P_MAP_SECURE (mapSecureBuffer d))
   | S3D_FORMAT \<Rightarrow> present d t (P_S3D_FORMAT (s3dFormat d))
   | LINEAR_FORMAT \<Rightarrow> present d t (P_LINEAR_FORMAT (linearFormat d))
   | IGC \<Rightarrow> present d t (P_IGC (md_igc d))
   | SINGLE_BUFFER_MODE \<Rightarrow> present d t (P_SINGLE_BUFFER (isSingleBufferMode d))
   | S3D_COMP \<Rightarrow> present d t (P_S3D_COMP (fst (s3dComp d)) (snd (s3dComp d)))
   | VT_TIMESTAMP \<Rightarrow> present d t (P_VT_TIMESTAMP (vtTimeStamp d))
   | COLOR_METADATA \<Rightarrow> present d t (P_COLOR (color d))
   | _ \<Rightarrow> None)"

subsection \<open>Metadata through a handle\<close>

text \<open>The address space of the process: what \<open>mmap\<close> returns, and the mapped pages.\<close>

record meta_mem =
  mmap_meta :: "int \<Rightarrow> u64 option"
  page_at :: "u64 \<Rightarrow> MetaData"

definition validateAndMap :: "meta_mem \<Rightarrow> private_handle \<Rightarrow> bool \<times> private_handle" where
  "validateAndMap m h =
     (if \<not> validate (Some h) then (False, h)
      else if hnd_fd_metadata h = -1 then (False, h)
      else if hnd_base_metadata h = 0 then
        (case mmap_meta m (hnd_fd_metadata h) of
           None \<Rightarrow> (False, h)
         | Some b \<Rightarrow> (True, h\<lparr>hnd_base_metadata := b\<rparr>))
      else (True, h))"

definition setMetaData ::
    "meta_mem \<Rightarrow> private_handle \<Rightarrow> meta_param \<Rightarrow> bool \<times> meta_mem \<times> private_handle" where
  "setMetaData m h p = (case validateAndMap m h of
     (False, h') \<Rightarrow> (False, m, h')
   | (True, h') \<Rightarrow> (True, m\<lparr>page_at := (page_at m)(hnd_base_metadata h' :=
        setMetaDataVa (page_at m (hnd_base_metadata h')) p)\<rparr>, h'))"

definition clearMetaData ::
    "meta_mem \<Rightarrow> private_handle \<Rightarrow> disp_param \<Rightarrow> bool \<times> meta_mem \<times> private_handle" where
  "clearMetaData m h t = (case validateAndMap m h of
     (False, h') \<Rightarrow> (False, m, h')
   | (True, h') \<Rightarrow> (True, m\<lparr>page_at := (page_at m)(hnd_base_metadata h' :=
        clearMetaDataVa (page_at m (hnd_base_metadata h')) t)\<rparr>, h'))"

definition getMetaData ::
    "meta_mem \<Rightarrow> private_handle \<Rightarrow> disp_param \<Rightarrow> meta_param option \<times> private_handle" where
  "getMetaData m h t = (case validateAndMap m h of
     (False, h') \<Rightarrow> (None, h')
   | (True, h') \<Rightarrow> (getMetaDataVa (page_at m (hnd_base_metadata h')) t, h'))"

definition copyMetaData ::
    "meta_mem \<Rightarrow> private_handle \<Rightarrow> private_handle \<Rightarrow>
     bool \<times> meta_mem \<times> private_handle \<times> private_handle" where
  "copyMetaData m src dst = (case validateAndMap m src of
     (False, src') \<Rightarrow> (False, m, src', dst)
   | (True, src') \<Rightarrow> (case validateAndMap m dst of
       (False, dst') \<Rightarrow> (False, m, src', dst')
     | (True, dst') \<Rightarrow> (True, m\<lparr>page_at := (page_at m)(hnd_base_metadata dst' :=
          page_at m (hnd_base_metadata src'))\<rparr>, src', dst')))"

definition copyMetaDataVaToHandle ::
    "meta_mem \<Rightarrow> MetaData option \<Rightarrow> private_handle \<Rightarrow> bool \<times> meta_mem \<times> private_handle" where
  "copyMetaDataVaToHandle m src_data dst = (case src_data of
     None \<Rightarrow> (False, m, dst)
   | Some d \<Rightarrow> (case validateAndMap m dst of
       (False, dst') \<Rightarrow> (False, m, dst')
     | (True, dst') \<Rightarrow> (True, m\<lparr>page_at := (page_at m)(hnd_base_metadata dst' := d)\<rparr>, dst')))"

definition copyMetaDataHandleToVa ::
    "meta_mem \<Rightarrow> private_handle \<Rightarrow> MetaData option \<Rightarrow> MetaData option \<times> private_handle" where
  "copyMetaDataHandleToVa m src dst_data = (case dst_data of
     None \<Rightarrow> (None, src)
   | Some _ \<Rightarrow> (case validateAndMap m src of
       (False, src') \<Rightarrow> (None, src')
     | (True, src') \<Rightarrow> (Some (page_at m (hnd_base_metadata src')), src')))"

definition copyMetaDataVaToVa :: "MetaData option \<Rightarrow> MetaData option \<Rightarrow> MetaData option" where
  "copyMetaDataVaToVa src_data dst_data =
     (case src_data of None \<Rightarrow> None | Some d \<Rightarrow> (case dst_data of None \<Rightarrow> None | Some _ \<Rightarrow> Some d))"

subsection \<open>Stores of tagged values\<close>

text \<open>A sequence of writes and removals, run on a store and on a partial function.\<close>

datatype ('k, 'v) store_op = Put 'v | Del 'k

fun run_ops :: "('s \<Rightarrow> 'v \<Rightarrow> 's) \<Rightarrow> ('s \<Rightarrow> 'k \<Rightarrow> 's) \<Rightarrow> ('k, 'v) store_op list \<Rightarrow> 's \<Rightarrow> 's" where
  "run_ops put del [] s = s"
| "run_ops put del (Put v # ops) s = run_ops put del ops (put s v)"
| "run_ops put del (Del k # ops) s = run_ops put del ops (del s k)"

fun map_ops :: "('v \<Rightarrow> 'k) \<Rightarrow> ('k, 'v) store_op list \<Rightarrow> ('k \<rightharpoonup> 'v) \<Rightarrow> ('k \<rightharpoonup> 'v)" where
  "map_ops key [] f = f"
| "map_ops key (Put v # ops) f = map_ops key ops (f(key v \<mapsto> v))"
| "map_ops key (Del k # ops) f = map_ops key ops (f(k := None))"

text \<open>A handle, an empty page and a memory in which every page can be mapped.\<close>

definition handle0 :: private_handle where
  "handle0 = private_handle_t 5 6 0 64 64 60 60 RGBA_8888 0 16384 {} {}"

definition page0 :: MetaData where
  "page0 = \<lparr>operation = 0, interlaced = 0, bufferDim = (0, 0), refreshrate = 0,
     colorSpace = ITU_R_601, md_igc = IGC_NotSpecified, mapSecureBuffer = 0, s3dFormat = 0,
     linearFormat = OtherFormat 0, isSingleBufferMode = 0, s3dComp = (0, 0), vtTimeStamp = 0,
     color = \<lparr>colorPrimaries = ColorPrimaries_other 0, color_range = False\<rparr>\<rparr>"

definition mem0 :: meta_mem where
  "mem0 = \<lparr>mmap_meta = \<lambda>_. Some 0x1000, page_at = \<lambda>_. page0\<rparr>"

locale key_store =
  fixes get :: "'s \<Rightarrow> 'k \<Rightarrow> 'v option"
    and put :: "'s \<Rightarrow> 'v \<Rightarrow> 's"
    and del :: "'s \<Rightarrow> 'k \<Rightarrow> 's"
    and key :: "'v \<Rightarrow> 'k"
  assumes get_put: "get (put s v) k = (if k = key v then Some v else get s k)"
    and get_del: "get (del s k') k = (if k = k' then None else get s k)"
begin

lemma get_put_fun: "get (put s v) = (get s)(key v \<mapsto> v)"
  by (rule ext) (simp add: get_put)

lemma get_del_fun: "get (del s k) = (get s)(k := None)"
  by (rule ext) (simp add: get_del)

lemma refines: "get (run_ops put del ops s) = map_ops key ops (get s)"
proof (induction ops arbitrary: s)
  case (Cons op ops)
  then show ?case by (cases op) (simp_all add: get_put_fun get_del_fun fun_upd_def)
qed simp

lemma put_commute: "key v \<noteq> key w \<Longrightarrow> get (put (put s v) w) = get (put (put s w) v)"
  by (rule ext) (simp add: get_put)

end

subsection \<open>The metadata page is such a store\<close>

lemma param_pos_less: "param_pos t < 16"
  by (cases t) (simp_all add: param_pos_def)

lemma param_pos_inj: "param_pos t = param_pos t' \<longleftrightarrow> t = t'"
  by (cases t; cases t'; simp add: param_pos_def)

lemma bit_param_bit: "bit (param_bit t) n \<longleftrightarrow> n = param_pos t"
  using param_pos_less [of t] by (auto simp: param_bit_def bit_exp_iff push_bit_of_1)

lemma and_param_bit: "operation d AND param_bit t \<noteq> 0 \<longleftrightarrow> bit (operation d) (param_pos t)"
proof
  assume "bit (operation d) (param_pos t)"
  then have "bit (operation d AND param_bit t) (param_pos t)"
    by (simp add: bit_and_iff bit_param_bit)
  then show "operation d AND param_bit t \<noteq> 0" by auto
next
  assume nz: "operation d AND param_bit t \<noteq> 0"
  show "bit (operation d) (param_pos t)"
  proof (rule ccontr)
    assume "\<not> bit (operation d) (param_pos t)"
    then have "operation d AND param_bit t = 0"
      by (intro bit_word_eqI) (auto simp: bit_and_iff bit_param_bit)
    with nz show False by simp
  qed
qed

lemma present_bit:
  "present d t v = (if bit (operation d) (param_pos t) then Some v else None)"
  by (simp only: present_def and_param_bit)

lemma operation_set:
  "bit (operation (setMetaDataVa d p)) (param_pos t) \<longleftrightarrow>
     t = param_type p \<or> bit (operation d) (param_pos t)"
  by (cases p)
    (auto simp: setMetaDataVa_def Let_def bit_or_iff bit_param_bit param_pos_inj)

lemma operation_reset:
  "bit (operation (resetMetaDataVa d t')) (param_pos t) \<longleftrightarrow>
     t \<noteq> t' \<and> bit (operation d) (param_pos t)"
  using param_pos_less [of t]
  by (auto simp: resetMetaDataVa_def bit_and_iff bit_not_iff bit_param_bit param_pos_inj)

lemma operation_clear:
  "bit (operation (clearMetaDataVa d t')) (param_pos t) \<longleftrightarrow>
     t \<noteq> t' \<and> bit (operation d) (param_pos t)"
  using param_pos_less [of t]
  by (auto simp: clearMetaDataVa_def Let_def bit_and_iff bit_not_iff bit_param_bit param_pos_inj)

lemma get_set:
  "getMetaDataVa (setMetaDataVa d p) t = (if t = param_type p then Some p else getMetaDataVa d t)"
proof (cases "t = param_type p")
  case True
  then show ?thesis
    unfolding getMetaDataVa_def present_bit operation_set
    by (cases p) (simp_all add: param_type_def setMetaDataVa_def Let_def)
next
  case False
  have "getMetaDataVa (setMetaDataVa d p) t = getMetaDataVa d t"
    unfolding getMetaDataVa_def present_bit operation_set
    using False by (cases p; cases t) (simp_all add: param_type_def setMetaDataVa_def Let_def)
  with False show ?thesis by simp
qed

lemma get_reset:
  "getMetaDataVa (resetMetaDataVa d t') t = (if t = t' then None else getMetaDataVa d t)"
  unfolding getMetaDataVa_def present_bit operation_reset
  by (cases t) (simp_all add: resetMetaDataVa_def)

lemma get_clear:
  "getMetaDataVa (clearMetaDataVa d t') t = (if t = t' then None else getMetaDataVa d t)"
  unfolding getMetaDataVa_def present_bit operation_clear
  by (cases t) (simp_all add: clearMetaDataVa_def Let_def)

interpretation page: key_store getMetaDataVa setMetaDataVa clearMetaDataVa param_type
  by unfold_locales (simp_all add: get_set get_clear)

interpretation page_reset: key_store getMetaDataVa setMetaDataVa resetMetaDataVa param_type
  by unfold_locales (simp_all add: get_set get_reset)

subsection \<open>Through the handle\<close>

lemma validateAndMap_again:
  assumes "validateAndMap m h = (True, h')" "hnd_base_metadata h' \<noteq> 0"
  shows "validateAndMap m' h' = (True, h')"
  using assms
  by (auto simp: validateAndMap_def validate_def split: if_split_asm option.splits)


text \<open>
  Setting a parameter through a handle succeeds exactly when the handle is valid, has a
  metadata descriptor and its page is or can be mapped; then a fetch through the handle returns
  the parameter, and every other type is fetched as before.
\<close>

theorem setMetaData_getMetaData:
  assumes "setMetaData m h p = (ok, m', h')"
    and "\<forall>fd. mmap_meta m fd \<noteq> Some 0"
  shows "(ok \<longleftrightarrow> validate (Some h) \<and> hnd_fd_metadata h \<noteq> -1 \<and>
            (hnd_base_metadata h \<noteq> 0 \<or> mmap_meta m (hnd_fd_metadata h) \<noteq> None)) \<and>
    (ok \<longrightarrow> getMetaData m' h' t =
       (if t = param_type p then Some p else fst (getMetaData m h t), h'))"
proof -
  obtain b g where v: "validateAndMap m h = (b, g)" by fastforce
  have ok: "b \<longleftrightarrow> validate (Some h) \<and> hnd_fd_metadata h \<noteq> -1 \<and>
      (hnd_base_metadata h \<noteq> 0 \<or> mmap_meta m (hnd_fd_metadata h) \<noteq> None)"
    using v by (auto simp: validateAndMap_def split: if_split_asm option.splits)
  show ?thesis
  proof (cases b)
    case True
    have "hnd_base_metadata g \<noteq> 0"
      using v True assms(2) by (auto simp: validateAndMap_def split: if_split_asm option.splits)
    then have "validateAndMap m' g = (True, g)" for m'
      using v True by (intro validateAndMap_again) auto
    then show ?thesis
      using assms(1) v True ok by (auto simp: setMetaData_def getMetaData_def get_set)
  next
    case False
    then show ?thesis using assms(1) v ok by (auto simp: setMetaData_def)
  qed
qed

theorem setMetaData_getMetaData_witness:
  "\<exists>m' h'. setMetaData mem0 handle0 (P_GEOMETRY 32 16) = (True, m', h') \<and>
     getMetaData m' h' BUFFER_GEOMETRY = (Some (P_GEOMETRY 32 16), h') \<and>
     fst (getMetaData m' h' LINEAR_FORMAT) = None"
proof -
  obtain ok m' h' where s: "setMetaData mem0 handle0 (P_GEOMETRY 32 16) = (ok, m', h')"
    using prod_cases3 by blast
  have m: "\<forall>fd. mmap_meta mem0 fd \<noteq> Some 0"
    by (simp add: mem0_def)
  have ok
    using setMetaData_getMetaData [OF s m]
    by (simp add: mem0_def handle0_def private_handle_t_def validate_def)
  moreover have "fst (getMetaData mem0 handle0 LINEAR_FORMAT) = None"
    by (simp add: mem0_def page0_def handle0_def private_handle_t_def validate_def getMetaData_def
        validateAndMap_def getMetaDataVa_def present_def)
  ultimately show ?thesis
    using s setMetaData_getMetaData [OF s m] by (auto simp: param_type_def)
qed

end
