(* ===== verification/Gr_Utils.thy ===== *)
theory Gr_Utils
  imports Gr_Handle
begin

text \<open>
  Buffer geometry: \<open>gralloc/gr_utils.cpp\<close>, \<open>gr_utils.h\<close>, and the two alignment functions of
  \<open>gr_adreno_info.cpp\<close>.

  Unsigned values are 32-bit words, addresses 64-bit words, so products and sums wrap as in
  the sources; signed values are \<open>int\<close> with \<open>wrap32\<close> at each operation.  The Venus macros of
  the kernel header, the page size and the constant \<open>SECURE_ALIGN\<close> of the build are the fields
  of \<open>gr_env\<close>; so are the functions of the GPU library, in \<open>gpu\<close>.

  Shown here: \<open>ALIGN\<close> is the least multiple above its argument; the planes \<open>GetYUVPlaneInfo\<close>
  describes lie inside the buffer \<open>GetSize\<close> asks for; the pixel data of a compressed RGB
  buffer ends where the buffer ends.
\<close>

subsection \<open>Alignment\<close>

definition ALIGN :: "u32 \<Rightarrow> u32 \<Rightarrow> u32" where
  "ALIGN x align = (x + align - 1) AND NOT (align - 1)"

definition ALIGN_int :: "int \<Rightarrow> int \<Rightarrow> int" where
  "ALIGN_int x align = wrap32 (x + align - 1) AND NOT (align - 1)"

definition SIZE_4K :: u32 where
  "SIZE_4K = 4096"

definition SIZE_8K :: u32 where
  "SIZE_8K = 4096"

definition SZ_2M :: u32 where
  "SZ_2M = 0x200000"

definition ASTC_BLOCK_SIZE :: u32 where
  "ASTC_BLOCK_SIZE = 16"

subsection \<open>The environment\<close>

datatype color_fmt =
    COLOR_FMT_NV12 | COLOR_FMT_NV21 | COLOR_FMT_NV12_UBWC | COLOR_FMT_NV12_BPP10_UBWC
  | COLOR_FMT_P010_UBWC

record gr_env =
  gpu :: adreno
  VENUS_Y_STRIDE :: "color_fmt \<Rightarrow> int \<Rightarrow> u32"
  VENUS_Y_SCANLINES :: "color_fmt \<Rightarrow> int \<Rightarrow> u32"
  VENUS_UV_STRIDE :: "color_fmt \<Rightarrow> int \<Rightarrow> u32"
  VENUS_UV_SCANLINES :: "color_fmt \<Rightarrow> int \<Rightarrow> u32"
  VENUS_Y_META_STRIDE :: "color_fmt \<Rightarrow> int \<Rightarrow> u32"
  VENUS_Y_META_SCANLINES :: "color_fmt \<Rightarrow> int \<Rightarrow> u32"
  VENUS_UV_META_STRIDE :: "color_fmt \<Rightarrow> int \<Rightarrow> u32"
  VENUS_UV_META_SCANLINES :: "color_fmt \<Rightarrow> int \<Rightarrow> u32"
  VENUS_BUFFER_SIZE :: "color_fmt \<Rightarrow> int \<Rightarrow> int \<Rightarrow> u32"
  page_size :: u32
  SECURE_ALIGN :: u32

record BufferInfo =
  info_width :: int
  info_height :: int
  info_format :: hal_format
  info_layer_count :: int
  info_prod_usage :: usage
  info_cons_usage :: usage

definition UINT :: "int \<Rightarrow> u32" where
  "UINT x = word_of_int x"

definition SINT :: "u32 \<Rightarrow> int" where
  "SINT w = sint w"

subsection \<open>Width and height\<close>

definition adreno_bpp :: "hal_format \<Rightarrow> int" where
  "adreno_bpp format =
     (if format \<in> set [RGB_888, BGR_888] then 3
      else if format \<in> set [RGB_565, BGR_565, RGBA_5551, RGBA_4444] then 2
      else 4)"

definition AlignUnCompressedRGB :: "adreno \<Rightarrow> int \<Rightarrow> int \<Rightarrow> hal_format \<Rightarrow> bool \<Rightarrow> u32 \<times> u32" where
  "AlignUnCompressedRGB a width height format tile_enabled =
     (let aligned_w = UINT (ALIGN_int width 32);
          aligned_h = UINT (ALIGN_int height 32);
          bpp = adreno_bpp format
      in if map_fb_on a then (aligned_w, aligned_h)
         else case compute_aligned_width_and_height a of
           Some f \<Rightarrow> f width height bpp (if tile_enabled then 1 else 0) 0 512
         | None \<Rightarrow> (case compute_padding a of
             Some pad \<Rightarrow> (UINT (pad width bpp 1 0 512), aligned_h)
           | None \<Rightarrow> (aligned_w, aligned_h)))"

definition AlignCompressedRGB :: "adreno \<Rightarrow> int \<Rightarrow> int \<Rightarrow> hal_format \<Rightarrow> u32 \<times> u32" where
  "AlignCompressedRGB a width height format = (case compute_compressedfmt_aligned a of
     Some f \<Rightarrow> f width height format 0 0 512
   | None \<Rightarrow> (UINT (ALIGN_int width 32), UINT (ALIGN_int height 32)))"

definition GetYuvUBwcWidthAndHeight :: "gr_env \<Rightarrow> int \<Rightarrow> int \<Rightarrow> hal_format \<Rightarrow> u32 \<times> u32" where
  "GetYuvUBwcWidthAndHeight env width height format =
     (if format \<in> set [NV12_ENCODEABLE, YCbCr_420_SP_VENUS, YCbCr_420_SP_VENUS_UBWC]
      then (VENUS_Y_STRIDE env COLOR_FMT_NV12_UBWC width,
            VENUS_Y_SCANLINES env COLOR_FMT_NV12_UBWC height)
      else if format = YCbCr_420_TP10_UBWC
      then (VENUS_Y_STRIDE env COLOR_FMT_NV12_BPP10_UBWC width * 3 div 4,
            VENUS_Y_SCANLINES env COLOR_FMT_NV12_BPP10_UBWC height)
      else if format = YCbCr_420_P010_UBWC
      then (VENUS_Y_STRIDE env COLOR_FMT_P010_UBWC width div 2,
            VENUS_Y_SCANLINES env COLOR_FMT_P010_UBWC height)
      else (0, 0))"

text \<open>The \<open>switch\<close> over the formats of the YUV family.\<close>

definition yuv_aligned :: "gr_env \<Rightarrow> int \<Rightarrow> int \<Rightarrow> hal_format \<Rightarrow> int \<times> int" where
  "yuv_aligned env width height format =
     (if format \<in> set [YCrCb_420_SP, YCbCr_420_SP]
      then (ALIGN_int width (SINT (GetGpuPixelAlignment (gpu env))), height)
      else if format = YCrCb_420_SP_ADRENO then (ALIGN_int width 32, height)
      else if format \<in> set [RAW16, Y16, Y8] then (ALIGN_int width 16, height)
      else if format = RAW12 then (ALIGN_int (cdiv (wrap32 (width * 12)) 8) 8, height)
      else if format = RAW10 then (ALIGN_int (cdiv (wrap32 (width * 10)) 8) 8, height)
      else if format = RAW8 then (ALIGN_int width 8, height)
      else if format = YCbCr_420_SP_TILED then (ALIGN_int width 128, height)
      else if format \<in> set [YV12, YCbCr_422_SP, YCrCb_422_SP, YCbCr_422_I, YCrCb_422_I,
        YCbCr_420_P010] then (ALIGN_int width 16, height)
      else if format \<in> set [YCbCr_420_SP_VENUS, NV12_ENCODEABLE]
      then (SINT (VENUS_Y_STRIDE env COLOR_FMT_NV12 width),
            SINT (VENUS_Y_SCANLINES env COLOR_FMT_NV12 height))
      else if format = YCrCb_420_SP_VENUS
      then (SINT (VENUS_Y_STRIDE env COLOR_FMT_NV21 width),
            SINT (VENUS_Y_SCANLINES env COLOR_FMT_NV21 height))
      else if format = NV21_ZSL then (ALIGN_int width 64, ALIGN_int height 64)
      else (width, height))"

definition GetAlignedWidthAndHeight :: "gr_env \<Rightarrow> BufferInfo \<Rightarrow> u32 \<times> u32" where
  "GetAlignedWidthAndHeight env info =
     (let width = info_width info; height = info_height info; format = info_format info;
          ubwc_enabled = IsUBwcEnabled (gpu env) format (info_prod_usage info) (info_cons_usage info)
      in if IsUncompressedRGBFormat format
         then AlignUnCompressedRGB (gpu env) width height format ubwc_enabled
         else if ubwc_enabled then GetYuvUBwcWidthAndHeight env width height format
         else if IsCompressedRGBFormat format then AlignCompressedRGB (gpu env) width height format
         else case yuv_aligned env width height format of (w, h) \<Rightarrow> (UINT w, UINT h))"

subsection \<open>Size\<close>

definition GetDataAlignment :: "gr_env \<Rightarrow> hal_format \<Rightarrow> usage \<Rightarrow> usage \<Rightarrow> u32" where
  "GetDataAlignment env format prod_usage cons_usage =
     (let align = (if format = YCbCr_420_SP_TILED then 8192 else page_size env)
      in if PRODUCER_PROTECTED \<in> prod_usage
         then if PRODUCER_CAMERA \<in> prod_usage \<or> CONSUMER_SECURE_DISPLAY \<in> cons_usage
              then SZ_2M else SECURE_ALIGN env
         else align)"

definition GetRgbUBwcBlockSize :: "u32 \<Rightarrow> int \<times> int" where
  "GetRgbUBwcBlockSize bpp =
     (if bpp = 2 \<or> bpp = 4 then (16, 4)
      else if bpp = 8 then (8, 4)
      else if bpp = 16 then (4, 4)
      else (0, 0))"

definition GetRgbUBwcMetaBufferSize :: "int \<Rightarrow> int \<Rightarrow> u32 \<Rightarrow> u32" where
  "GetRgbUBwcMetaBufferSize width height bpp = (case GetRgbUBwcBlockSize bpp of
     (block_width, block_height) \<Rightarrow>
       if block_width = 0 \<or> block_height = 0 then 0
       else
         let meta_height = ALIGN_int (cdiv (wrap32 (height + block_height - 1)) block_height) 16;
             meta_width = ALIGN_int (cdiv (wrap32 (width + block_width - 1)) block_width) 64
         in UINT (ALIGN_int (wrap32 (meta_width * meta_height)) 4096))"

definition GetUBwcSize :: "gr_env \<Rightarrow> int \<Rightarrow> int \<Rightarrow> hal_format \<Rightarrow> u32 \<Rightarrow> u32 \<Rightarrow> u32" where
  "GetUBwcSize env width height format alignedw alignedh =
     (if format \<in> set [BGR_565, RGBA_8888, RGBX_8888, RGBA_1010102, RGBX_1010102]
      then let bpp = GetBppForUncompressedRGB format
           in alignedw * alignedh * bpp + GetRgbUBwcMetaBufferSize width height bpp
      else if format \<in> set [NV12_ENCODEABLE, YCbCr_420_SP_VENUS, YCbCr_420_SP_VENUS_UBWC]
      then VENUS_BUFFER_SIZE env COLOR_FMT_NV12_UBWC width height
      else if format = YCbCr_420_TP10_UBWC
      then VENUS_BUFFER_SIZE env COLOR_FMT_NV12_BPP10_UBWC width height
      else if format = YCbCr_420_P010_UBWC
      then VENUS_BUFFER_SIZE env COLOR_FMT_P010_UBWC width height
      else 0)"

text \<open>The \<open>switch\<close> over YUV and custom formats; \<open>None\<close> where it returns 0 at once.\<close>

definition yuv_size :: "gr_env \<Rightarrow> hal_format \<Rightarrow> int \<Rightarrow> int \<Rightarrow> u32 \<Rightarrow> u32 \<Rightarrow> u32 option" where
  "yuv_size env format width height alignedw alignedh =
     (if format \<in> set [RAW16, Y16] then Some (alignedw * alignedh * 2)
      else if format \<in> set [RAW10, RAW12] then Some (ALIGN (alignedw * alignedh) SIZE_4K)
      else if format \<in> set [RAW8, Y8] then Some (alignedw * alignedh * 1)
      else if format = YCrCb_420_SP_ADRENO then
        Some (ALIGN (alignedw * alignedh) SIZE_4K +
              UINT (ALIGN_int (wrap32 (wrap32 (2 * ALIGN_int (cdiv width 2) 32) *
                      ALIGN_int (cdiv height 2) 32)) 4096))
      else if format = YCbCr_420_SP_TILED then
        Some (ALIGN (alignedw * alignedh) SIZE_8K +
              ALIGN (alignedw * UINT (ALIGN_int (cdiv height 2) 32)) SIZE_8K)
      else if format = YV12 then
        if odd width \<or> odd height then None
        else Some (ALIGN (alignedw * alignedh + (ALIGN (alignedw div 2) 16 * (alignedh div 2)) * 2)
               SIZE_4K)
      else if format \<in> set [YCbCr_420_SP, YCrCb_420_SP] then
        Some (ALIGN (alignedw * alignedh + (alignedw * alignedh) div 2 + 1) SIZE_4K)
      else if format = YCbCr_420_P010 then
        Some (ALIGN (alignedw * alignedh * 2 + alignedw * alignedh + 1) SIZE_4K)
      else if format \<in> set [YCbCr_422_SP, YCrCb_422_SP, YCbCr_422_I, YCrCb_422_I, CbYCrY_422_I] then
        if odd width then None else Some (ALIGN (alignedw * alignedh * 2) SIZE_4K)
      else if format \<in> set [YCbCr_420_SP_VENUS, NV12_ENCODEABLE] then
        Some (VENUS_BUFFER_SIZE env COLOR_FMT_NV12 width height)
      else if format = YCrCb_420_SP_VENUS then
        Some (VENUS_BUFFER_SIZE env COLOR_FMT_NV21 width height)
      else if format \<in> set [BLOB, RAW_OPAQUE] then
        if height \<noteq> 1 then None else Some (UINT width)
      else if format = NV21_ZSL then
        Some (ALIGN (alignedw * alignedh + (alignedw * alignedh) div 2) SIZE_4K)
      else None)"

definition GetSize :: "gr_env \<Rightarrow> BufferInfo \<Rightarrow> u32 \<Rightarrow> u32 \<Rightarrow> u32" where
  "GetSize env info alignedw alignedh =
     (let format = info_format info; width = info_width info; height = info_height info;
          prod_usage = info_prod_usage info; cons_usage = info_cons_usage info;
          size_opt =
            (if IsUBwcEnabled (gpu env) format prod_usage cons_usage
             then Some (GetUBwcSize env width height format alignedw alignedh)
             else if IsUncompressedRGBFormat format
             then Some (alignedw * alignedh * GetBppForUncompressedRGB format)
             else if IsCompressedRGBFormat format
             then Some (alignedw * alignedh * ASTC_BLOCK_SIZE)
             else yuv_size env format width height alignedw alignedh)
      in case size_opt of
        None \<Rightarrow> 0
      | Some sz \<Rightarrow> ALIGN sz (GetDataAlignment env format prod_usage cons_usage) *
          UINT (info_layer_count info))"

definition GetBufferSizeAndDimensions :: "gr_env \<Rightarrow> BufferInfo \<Rightarrow> u32 \<times> u32 \<times> u32" where
  "GetBufferSizeAndDimensions env info = (case GetAlignedWidthAndHeight env info of
     (alignedw, alignedh) \<Rightarrow> (GetSize env info alignedw alignedh, alignedw, alignedh))"

subsection \<open>Planes\<close>

text \<open>Pointers are addresses; \<open>NULL\<close> is 0.\<close>

record android_ycbcr =
  yc_y :: u64
  yc_cb :: u64
  yc_cr :: u64
  yc_ystride :: u32
  yc_cstride :: u32
  yc_chroma_step :: u32

definition GetYuvUbwcSPPlaneInfo ::
    "gr_env \<Rightarrow> u64 \<Rightarrow> u32 \<Rightarrow> u32 \<Rightarrow> color_fmt \<Rightarrow> android_ycbcr \<Rightarrow> android_ycbcr" where
  "GetYuvUbwcSPPlaneInfo env base width height color_format ycbcr =
     (let y_meta_size = ALIGN (VENUS_Y_META_STRIDE env color_format (SINT width) *
            VENUS_Y_META_SCANLINES env color_format (SINT height)) 4096;
          y_stride = VENUS_Y_STRIDE env color_format (SINT width);
          y_size = ALIGN (y_stride * VENUS_Y_SCANLINES env color_format (SINT height)) 4096;
          c_meta_size = ALIGN (VENUS_UV_META_STRIDE env color_format (SINT width) *
            VENUS_UV_META_SCANLINES env color_format (SINT height)) 4096
      in ycbcr\<lparr>yc_y := base + ucast y_meta_size,
               yc_cb := base + ucast y_meta_size + ucast y_size + ucast c_meta_size,
               yc_cr := base + ucast y_meta_size + ucast y_size + ucast c_meta_size + 1,
               yc_ystride := y_stride,
               yc_cstride := VENUS_UV_STRIDE env color_format (SINT width)\<rparr>)"

definition GetYuvUbwcInterlacedSPPlaneInfo ::
    "gr_env \<Rightarrow> u64 \<Rightarrow> u32 \<Rightarrow> u32 \<Rightarrow> color_fmt \<Rightarrow> android_ycbcr \<Rightarrow> android_ycbcr \<Rightarrow>
     android_ycbcr \<times> android_ycbcr" where
  "GetYuvUbwcInterlacedSPPlaneInfo env base width height0 color_format ycbcr0 ycbcr1 =
     (let height = drop_bit 1 (height0 + 1);
          uv_stride = VENUS_UV_STRIDE env color_format (SINT width);
          uv_height = VENUS_UV_SCANLINES env color_format (SINT height);
          uv_size = ALIGN (uv_stride * uv_height) 4096;
          top_field = GetYuvUbwcSPPlaneInfo env base width height COLOR_FMT_NV12_UBWC ycbcr0;
          field_base = yc_cb top_field + ucast uv_size
      in (top_field, GetYuvUbwcSPPlaneInfo env field_base width height COLOR_FMT_NV12_UBWC ycbcr1))"

definition GetYuvSPPlaneInfo :: "u64 \<Rightarrow> u32 \<Rightarrow> u32 \<Rightarrow> u32 \<Rightarrow> android_ycbcr" where
  "GetYuvSPPlaneInfo base width height bpp =
     (let ystride = width * bpp
      in \<lparr>yc_y = base, yc_cb = base + ucast (ystride * height),
          yc_cr = base + ucast (ystride * height) + 1, yc_ystride = ystride,
          yc_cstride = ystride, yc_chroma_step = 2 * bpp\<rparr>)"

definition ycbcr_zero :: android_ycbcr where
  "ycbcr_zero = \<lparr>yc_y = 0, yc_cb = 0, yc_cr = 0, yc_ystride = 0, yc_cstride = 0, yc_chroma_step = 0\<rparr>"

text \<open>
  The \<open>switch\<close> of \<open>GetYUVPlaneInfo\<close>, on the format, width and height it works with; \<open>None\<close> is
  \<open>-EINVAL\<close>.  The second element of the result is the second field of interlaced content.
\<close>

definition plane_info ::
    "gr_env \<Rightarrow> u64 \<Rightarrow> hal_format \<Rightarrow> u32 \<Rightarrow> u32 \<Rightarrow> bool \<Rightarrow> (android_ycbcr \<times> android_ycbcr option) option" where
  "plane_info env base format width height is_interlaced =
     (if format \<in> set [YCbCr_420_SP, YCbCr_422_SP, YCbCr_420_SP_VENUS, NV12_ENCODEABLE]
      then Some (GetYuvSPPlaneInfo base width height 1, None)
      else if format = YCbCr_420_P010 then Some (GetYuvSPPlaneInfo base width height 2, None)
      else if format = YCbCr_420_SP_VENUS_UBWC then
        if \<not> is_interlaced
        then Some ((GetYuvUbwcSPPlaneInfo env base width height COLOR_FMT_NV12_UBWC ycbcr_zero)
               \<lparr>yc_chroma_step := 2\<rparr>, None)
        else (case GetYuvUbwcInterlacedSPPlaneInfo env base width height COLOR_FMT_NV12_UBWC
                ycbcr_zero ycbcr_zero of
            (top_field, bottom_field) \<Rightarrow> Some (top_field\<lparr>yc_chroma_step := 2\<rparr>, Some bottom_field))
      else if format = YCbCr_420_TP10_UBWC then
        Some ((GetYuvUbwcSPPlaneInfo env base width height COLOR_FMT_NV12_BPP10_UBWC ycbcr_zero)
          \<lparr>yc_chroma_step := 3\<rparr>, None)
      else if format = YCbCr_420_P010_UBWC then
        Some ((GetYuvUbwcSPPlaneInfo env base width height COLOR_FMT_P010_UBWC ycbcr_zero)
          \<lparr>yc_chroma_step := 4\<rparr>, None)
      else if format \<in> set [YCrCb_420_SP, YCrCb_422_SP, YCrCb_420_SP_ADRENO, YCrCb_420_SP_VENUS,
        NV21_ZSL, RAW16, Y16, RAW10, RAW8, Y8] then
        let p = GetYuvSPPlaneInfo base width height 1
        in Some (p\<lparr>yc_cb := yc_cr p, yc_cr := yc_cb p\<rparr>, None)
      else if format = YV12 then
        let ystride = width; cstride = ALIGN (width div 2) 16
        in Some (\<lparr>yc_y = base, yc_cb = base + ucast (ystride * height) + ucast (cstride * height div 2),
                  yc_cr = base + ucast (ystride * height), yc_ystride = ystride,
                  yc_cstride = cstride, yc_chroma_step = 1\<rparr>, None)
      else if format = CbYCrY_422_I then
        Some (\<lparr>yc_y = base, yc_cb = 0, yc_cr = 0, yc_ystride = width * 2, yc_cstride = 0,
               yc_chroma_step = 0\<rparr>, None)
      else None)"

text \<open>
  The interlace flag is only taken over when the fetch fails, and a failed fetch leaves the
  local variable at 0.
\<close>

definition GetYUVPlaneInfo ::
    "gr_env \<Rightarrow> meta_mem \<Rightarrow> private_handle \<Rightarrow>
     (android_ycbcr \<times> android_ycbcr option) option \<times> private_handle" where
  "GetYUVPlaneInfo env m hnd0 =
     (case getMetaData m hnd0 LINEAR_FORMAT of (linear, hnd1) \<Rightarrow>
     let format = (case linear of Some (P_LINEAR_FORMAT f) \<Rightarrow> f | _ \<Rightarrow> hnd_format hnd1)
     in case getMetaData m hnd1 BUFFER_GEOMETRY of (geometry, hnd2) \<Rightarrow>
     let (width, height) = (case geometry of
           Some (P_GEOMETRY sliceWidth sliceHeight) \<Rightarrow>
             GetAlignedWidthAndHeight env \<lparr>info_width = sliceWidth, info_height = sliceHeight,
               info_format = format, info_layer_count = 1,
               info_prod_usage = hnd_producer_usage hnd2, info_cons_usage = hnd_consumer_usage hnd2\<rparr>
         | _ \<Rightarrow> (UINT (hnd_width hnd2), UINT (hnd_height hnd2)))
     in case getMetaData m hnd2 PP_PARAM_INTERLACED of (flag, hnd3) \<Rightarrow>
     let interlace_flag = (case flag of Some (P_INTERLACED v) \<Rightarrow> v | _ \<Rightarrow> 0);
         is_interlaced = (if flag = None then interlace_flag \<noteq> 0 else False)
     in (plane_info env (hnd_base hnd3) format width height is_interlaced, hnd3))"

definition GetRgbDataAddress :: "private_handle \<Rightarrow> bool \<times> u64 option" where
  "GetRgbDataAddress hnd =
     (if \<not> IsUncompressedRGBFormat (hnd_format hnd) then (False, None)
      else if \<not> has_flag (hnd_flags hnd) PRIV_FLAGS_UBWC_ALIGNED then (True, Some (hnd_base hnd))
      else
        let bpp = GetBppForUncompressedRGB (hnd_format hnd)
        in if hnd_format hnd \<in> set [BGR_565, RGBA_8888, RGBX_8888, RGBA_1010102, RGBX_1010102]
           then (True, Some (hnd_base hnd +
                  ucast (GetRgbUBwcMetaBufferSize (hnd_width hnd) (hnd_height hnd) bpp)))
           else (False, Some (hnd_base hnd + 0)))"

definition rgb_stride :: "private_handle \<Rightarrow> u32" where
  "rgb_stride hnd =
     (if hnd_format hnd \<in> set [RGB_565, BGR_565, RGBA_5551, RGBA_4444] then UINT (wrap32 (hnd_width hnd * 2))
      else if hnd_format hnd = RGB_888 then UINT (wrap32 (hnd_width hnd * 3))
      else if hnd_format hnd \<in> set [RGBA_8888, BGRA_8888, RGBX_8888, BGRX_8888, RGBA_1010102,
        ARGB_2101010, RGBX_1010102, XRGB_2101010, BGRA_1010102, ABGR_2101010, BGRX_1010102,
        XBGR_2101010] then UINT (wrap32 (hnd_width hnd * 4))
      else 0)"

text \<open>
  \<open>stride\<close> and \<open>offset\<close> are arrays of four; what is not written keeps the caller's value.
  The result is whether 0 is returned, the arrays and the number of planes.
\<close>

definition GetBufferLayout ::
    "gr_env \<Rightarrow> meta_mem \<Rightarrow> private_handle \<Rightarrow> u32 list \<Rightarrow> u32 list \<Rightarrow> bool \<times> u32 list \<times> u32 list \<times> nat" where
  "GetBufferLayout env m hnd stride offset =
     (let stride0 = stride[0 := rgb_stride hnd]
      in if rgb_stride hnd \<noteq> 0 then (True, stride0, offset, 1)
         else case GetYUVPlaneInfo env m hnd of
           (None, _) \<Rightarrow> (False, stride0, offset, 2)
         | (Some (yuv, _), _) \<Rightarrow>
             let rel = (\<lambda>a :: u64. ucast (a - hnd_base hnd) :: u32);
                 stride1 = stride0[0 := yc_ystride yuv, 1 := yc_cstride yuv];
                 offset1 = offset[0 := rel (yc_y yuv)];
                 (stride2, offset2, planes) =
                   (if hnd_format hnd \<in> set [YCbCr_420_SP, YCbCr_422_SP, YCbCr_420_SP_VENUS,
                        NV12_ENCODEABLE, YCbCr_420_SP_VENUS_UBWC, YCbCr_420_P010,
                        YCbCr_420_TP10_UBWC, YCbCr_420_P010_UBWC]
                    then (stride1, offset1[1 := rel (yc_cb yuv)], 2)
                    else if hnd_format hnd \<in> set [YCrCb_420_SP, YCrCb_420_SP_VENUS, YCrCb_422_SP]
                    then (stride1, offset1[1 := rel (yc_cr yuv)], 2)
                    else if hnd_format hnd = YV12
                    then (stride1[2 := yc_cstride yuv],
                          offset1[1 := rel (yc_cr yuv), 2 := rel (yc_cb yuv)], 3)
                    else (stride1, offset1, 2));
                 offset3 = (if has_flag (hnd_flags hnd) PRIV_FLAGS_UBWC_ALIGNED
                            then replicate 4 0 else offset2)
             in (True, stride2, offset3, planes))"

subsection \<open>What the results are measured against\<close>

text \<open>The metadata plane of a compressed RGB buffer, in bytes: 64 times 16 per tile.\<close>

definition meta_bytes :: "nat \<Rightarrow> nat \<Rightarrow> nat" where
  "meta_bytes w h = align_up 12 ((w + 1023) div 1024 * 64 * ((h + 63) div 64 * 16))"

text \<open>The rows of the chroma planes of a format.\<close>

definition chroma_rows :: "hal_format \<Rightarrow> nat \<Rightarrow> nat" where
  "chroma_rows format h = (if format \<in> set [YCbCr_422_SP, YCrCb_422_SP] then h else h div 2)"

text \<open>
  The planes of \<open>p\<close> follow each other without overlap and end inside \<open>bytes\<close> bytes from
  \<open>base\<close>.  The two chroma components of a semi-planar format share one plane.
\<close>

definition planes_within :: "hal_format \<Rightarrow> u64 \<Rightarrow> android_ycbcr \<Rightarrow> nat \<Rightarrow> nat \<Rightarrow> bool" where
  "planes_within format base p h bytes =
     (let off = (\<lambda>a. unat (a - base)); rows = chroma_rows format h; cstride = unat (yc_cstride p)
      in yc_y p = base \<and>
         (if format = YV12
          then unat (yc_ystride p) * h \<le> off (yc_cr p) \<and>
               off (yc_cr p) + cstride * rows \<le> off (yc_cb p) \<and>
               off (yc_cb p) + cstride * rows \<le> bytes
          else unat (yc_ystride p) * h \<le> min (off (yc_cb p)) (off (yc_cr p)) \<and>
               min (off (yc_cb p)) (off (yc_cr p)) + cstride * rows \<le> bytes))"

definition plane_bytes :: "hal_format \<Rightarrow> nat \<Rightarrow> nat \<Rightarrow> nat" where
  "plane_bytes format w h =
     (if format = YCbCr_420_P010 then 3 * (w * h)
      else if format \<in> set [YCbCr_422_SP, YCrCb_422_SP] then 2 * (w * h)
      else if format = YV12 then w * h + 2 * (align_up 4 (w div 2) * (h div 2))
      else w * h + w * (h div 2))"

definition planar_formats :: "hal_format list" where
  "planar_formats = [YCbCr_420_SP, YCrCb_420_SP, NV21_ZSL, YCbCr_420_P010, YCbCr_422_SP,
     YCrCb_422_SP, YV12]"

text \<open>
  An environment: a GPU library with 32 pixel alignment that supports compression, strides of
  128 and scan lines of 32 for the video core, and 4K pages.
\<close>

definition env0 :: gr_env where
  "env0 = \<lparr>gpu = \<lparr>compute_aligned_width_and_height =
         Some (\<lambda>w h _ _ _ _. (UINT (ALIGN_int w 64), UINT (ALIGN_int h 16))),
       compute_padding = None, compute_compressedfmt_aligned = None,
       isUBWCSupportedByGpu = Some (\<lambda>_. True), get_gpu_pixel_alignment = Some 32,
       LINK_isSecureContextSupportedByGpu = Some True, gfx_ubwc_disable = False, map_fb_on = False\<rparr>,
     VENUS_Y_STRIDE = (\<lambda>_ w. UINT (ALIGN_int w 128)),
     VENUS_Y_SCANLINES = (\<lambda>_ h. UINT (ALIGN_int h 32)),
     VENUS_UV_STRIDE = (\<lambda>_ w. UINT (ALIGN_int w 128)),
     VENUS_UV_SCANLINES = (\<lambda>_ h. UINT (ALIGN_int (cdiv (h + 1) 2) 16)),
     VENUS_Y_META_STRIDE = (\<lambda>_ w. UINT (ALIGN_int (cdiv (w + 31) 32) 64)),
     VENUS_Y_META_SCANLINES = (\<lambda>_ h. UINT (ALIGN_int (cdiv (h + 7) 8) 16)),
     VENUS_UV_META_STRIDE = (\<lambda>_ w. UINT (ALIGN_int (cdiv (w + 31) 32) 64)),
     VENUS_UV_META_SCANLINES = (\<lambda>_ h. UINT (ALIGN_int (cdiv (h + 15) 16) 16)),
     VENUS_BUFFER_SIZE = (\<lambda>_ w h. UINT (ALIGN_int (w * h * 2) 4096)),
     page_size = 4096, SECURE_ALIGN = 4096\<rparr>"

definition info0 :: BufferInfo where
  "info0 = \<lparr>info_width = 640, info_height = 480, info_format = YCrCb_420_SP, info_layer_count = 1,
     info_prod_usage = {}, info_cons_usage = {}\<rparr>"

subsection \<open>Facts on alignment\<close>

lemma ALIGN_unat:
  assumes "unat a = 2 ^ k" "unat x + 2 ^ k \<le> 2 ^ 32"
  shows "unat (ALIGN x a) = align_up k (unat x)"
proof -
  have "a = of_nat (unat a)" by simp
  then have a: "a = 2 ^ k"
    unfolding assms(1) by simp
  have m: "a - 1 = mask k"
    by (simp add: a mask_eq_exp_minus_1)
  have "a \<noteq> 0"
    using assms(1) by auto
  then have "unat (a - 1) = 2 ^ k - 1"
    using assms(1) by (simp add: unat_minus_one)
  then have s: "unat (x + (a - 1)) = unat x + 2 ^ k - 1"
    using assms by (subst unat_add_no_wrap) auto
  have "x + a - 1 = x + (a - 1)"
    by simp
  then have "unat (ALIGN x a) = unat (x + (a - 1)) div 2 ^ k * 2 ^ k"
    unfolding ALIGN_def using unat_and_not_mask [of "x + (a - 1)" k] by (simp only: m)
  then show ?thesis
    by (simp only: s align_up_def)
qed

lemma ALIGN_int_exp:
  assumes "0 \<le> x" "x + 2 ^ k \<le> 2 ^ 31"
  shows "ALIGN_int x (2 ^ k) = int (align_up k (nat x))"
proof -
  have "(0 :: int) < 2 ^ k" by simp
  then have "wrap32 (x + 2 ^ k - 1) = x + 2 ^ k - 1"
    using assms by (intro wrap32_id) linarith+
  then have "ALIGN_int x (2 ^ k) = (x + 2 ^ k - 1) div 2 ^ k * 2 ^ k"
    by (simp add: ALIGN_int_def mask_eq_exp_minus_1 [symmetric] and_not_mask take_bit_eq_mod
        minus_mod_eq_div_mult)
  also have "x + 2 ^ k - 1 = int (nat x + 2 ^ k - 1)"
    using assms(1) by (subst of_nat_diff) (auto intro: trans_le_add2)
  finally show ?thesis
    by (simp add: align_up_def zdiv_int)
qed

lemmas ALIGN_4096 = ALIGN_unat [of 4096 12, simplified]
lemmas ALIGN_16 = ALIGN_unat [of 16 4, simplified]

lemma SIZE_4K_unat [simp]: "unat SIZE_4K = 2 ^ 12"
  by (simp add: SIZE_4K_def)

lemma unat_mult_no_wrap:
  "unat (a :: u32) * unat b < 2 ^ 32 \<Longrightarrow> unat (a * b) = unat a * unat b"
  by (simp add: unat_word_ariths)

lemma unat_UINT: "0 \<le> x \<Longrightarrow> x < 2 ^ 32 \<Longrightarrow> unat (UINT x) = nat x"
  by (simp add: UINT_def unat_eq_nat_uint uint_word_of_int)

subsection \<open>The metadata plane of compressed RGB buffers\<close>

lemma cdiv_pos: "0 \<le> a \<Longrightarrow> 0 < b \<Longrightarrow> cdiv a b = int (nat a div nat b)"
  by (simp add: cdiv_nonneg nat_div_distrib [symmetric] pos_imp_zdiv_nonneg_iff)

lemma align_up_small: "n \<le> 2 ^ 20 \<Longrightarrow> k \<le> 12 \<Longrightarrow> align_up k n < 2 ^ 21"
proof -
  assume "n \<le> 2 ^ 20" "k \<le> 12"
  moreover have "(2 :: nat) ^ k \<le> 2 ^ 12"
    using \<open>k \<le> 12\<close> by (rule power_increasing) simp
  ultimately show ?thesis using align_up_less [of k n] by simp
qed

text \<open>Two blocks of 16 pixels by 4 rows, rounded to 64 and 16 blocks, are tiles of 1024 by 64.\<close>

lemma block_rounding:
  "align_up 6 ((w + 15) div 16) = (w + 1023) div 1024 * 64"
  "align_up 4 ((h + 3) div 4) = (h + 63) div 64 * 16"
  by (simp_all add: align_up_def div_mult2_eq [symmetric])

lemma block_count:
  assumes "0 \<le> x" "x \<le> 16384" "0 < b" "b \<le> 16"
  shows "cdiv (wrap32 (x + b - 1)) b = int ((nat x + nat b - 1) div nat b)"
proof -
  have "wrap32 (x + b - 1) = x + b - 1"
    using assms by (intro wrap32_id) simp_all
  then have "cdiv (wrap32 (x + b - 1)) b = int (nat (x + b - 1) div nat b)"
    using assms by (simp add: cdiv_pos)
  moreover have "nat (x + b - 1) = nat x + nat b - 1"
    using assms by (simp add: nat_diff_distrib nat_add_distrib)
  ultimately show ?thesis by simp
qed

lemma meta_size_tiles:
  assumes "0 \<le> w" "w \<le> 16384" "0 \<le> h" "h \<le> 16384" "bpp = 2 \<or> bpp = 4"
  shows "unat (GetRgbUBwcMetaBufferSize w h bpp) = meta_bytes (nat w) (nat h)"
    and "meta_bytes (nat w) (nat h) < 2 ^ 24"
proof -
  let ?bw = "(nat w + 15) div 16" and ?bh = "(nat h + 3) div 4"
  define tw where "tw = (nat w + 1023) div 1024 * 64"
  define th where "th = (nat h + 63) div 64 * 16"
  define n where "n = tw * th"
  have wh: "nat w \<le> 16384" "nat h \<le> 16384" using assms by simp_all
  then have "tw \<le> 1088" "th \<le> 4112"
    by (simp_all add: tw_def th_def)
  then have "n \<le> 1088 * 4112"
    unfolding n_def by (rule mult_le_mono)
  then have n: "n \<le> 2 ^ 23" by simp
  have bw: "ALIGN_int (cdiv (wrap32 (w + 16 - 1)) 16) 64 = int tw"
    using block_count [of w 16] ALIGN_int_exp [of "int ?bw" 6] wh assms
    by (simp add: block_rounding add.commute tw_def)
  have bh: "ALIGN_int (cdiv (wrap32 (h + 4 - 1)) 4) 16 = int th"
    using block_count [of h 4] ALIGN_int_exp [of "int ?bh" 4] wh assms
    by (simp add: block_rounding add.commute th_def)
  have "wrap32 (int tw * int th) = int n"
    using n by (simp add: wrap32_id n_def flip: of_nat_mult)
  then have "GetRgbUBwcMetaBufferSize w h bpp = UINT (ALIGN_int (int n) 4096)"
    using assms(5) bw bh by (auto simp: GetRgbUBwcMetaBufferSize_def GetRgbUBwcBlockSize_def Let_def)
  moreover have "ALIGN_int (int n) 4096 = int (align_up 12 n)"
    using ALIGN_int_exp [of "int n" 12] n by simp
  moreover have "align_up 12 n < 2 ^ 24"
    using align_up_less [of 12 n] n by simp
  moreover have "meta_bytes (nat w) (nat h) = align_up 12 n"
    by (simp only: meta_bytes_def n_def tw_def th_def)
  ultimately show "unat (GetRgbUBwcMetaBufferSize w h bpp) = meta_bytes (nat w) (nat h)"
    and "meta_bytes (nat w) (nat h) < 2 ^ 24"
    by (simp_all add: unat_UINT)
qed

subsection \<open>Dimensions and sizes of the planar formats\<close>

lemma planar_not_special:
  assumes "f \<in> set planar_formats"
  shows "\<not> IsUBwcEnabled a f p c" "\<not> IsUncompressedRGBFormat f" "\<not> IsCompressedRGBFormat f"
  using assms
  by (auto simp: planar_formats_def IsUBwcEnabled_def IsUBwcFormat_def IsUBwcSupported_def
      IsUncompressedRGBFormat_def IsCompressedRGBFormat_def)

lemma align_range:
  assumes "0 \<le> x" "x \<le> 16384" "k \<le> 12"
  shows "unat (UINT (ALIGN_int x (2 ^ k))) = align_up k (nat x) \<and> align_up k (nat x) < nat x + 2 ^ k"
proof -
  have "(2 :: int) ^ k \<le> 2 ^ 12"
    using assms(3) by (intro power_increasing) simp_all
  then have a: "ALIGN_int x (2 ^ k) = int (align_up k (nat x))"
    using assms by (intro ALIGN_int_exp) simp_all
  have "(2 :: nat) ^ k \<le> 2 ^ 12"
    using assms(3) by (intro power_increasing) simp_all
  then have "align_up k (nat x) < 2 ^ 15"
    using align_up_less [of k "nat x"] assms(1,2) by simp
  then show ?thesis
    using align_up_less [of k "nat x"] by (simp add: a unat_UINT)
qed

lemma planar_aligned:
  assumes "f \<in> set planar_formats" "info_format info = f"
    and "0 \<le> info_width info" "info_width info \<le> 16384"
    and "0 \<le> info_height info" "info_height info \<le> 16384" "even (info_height info)"
    and "SINT (GetGpuPixelAlignment (gpu env)) = 2 ^ j" "j \<le> 12"
    and "GetAlignedWidthAndHeight env info = (w, h)"
  shows "unat w \<le> 20480" "unat h \<le> 16448" "even (unat h)" "f = YV12 \<Longrightarrow> 16 dvd unat w"
proof -
  have wh: "(w, h) = (case yuv_aligned env (info_width info) (info_height info) f of
      (w, h) \<Rightarrow> (UINT w, UINT h))"
    using assms(10,2) planar_not_special [OF assms(1)]
    by (simp add: GetAlignedWidthAndHeight_def Let_def)
  have n: "nat (info_width info) \<le> 16384" "nat (info_height info) \<le> 16384" "(2 :: nat) ^ j \<le> 2 ^ 12"
    using assms(4,6) power_increasing [OF assms(9), of "2 :: nat"] by simp_all
  then have j: "unat (UINT (ALIGN_int (info_width info) (2 ^ j))) \<le> 20480"
    using align_range [OF assms(3,4,9)] by simp
  have k4: "unat (UINT (ALIGN_int (info_width info) 16)) = align_up 4 (nat (info_width info))"
    "align_up 4 (nat (info_width info)) < 16400"
    using align_range [OF assms(3,4), of 4] n by simp_all
  have k6: "unat (UINT (ALIGN_int (info_width info) 64)) \<le> 20480"
    "unat (UINT (ALIGN_int (info_height info) 64)) = align_up 6 (nat (info_height info))"
    "align_up 6 (nat (info_height info)) \<le> 16448"
    using align_range [OF assms(3,4), of 6] align_range [OF assms(5,6), of 6] n by simp_all
  have e: "even (align_up 6 (nat (info_height info)))" "16 dvd align_up 4 (nat (info_width info))"
    using align_up_dvd [of 6 "nat (info_height info)"] align_up_dvd [of 4 "nat (info_width info)"]
    by (auto elim: dvd_trans [rotated])
  have h: "unat (UINT (info_height info)) = nat (info_height info)"
    "nat (info_height info) \<le> 16384" "even (nat (info_height info))"
    using assms(5,6,7) by (simp_all add: unat_UINT even_nat_iff)
  show "unat w \<le> 20480" "unat h \<le> 16448" "even (unat h)" "f = YV12 \<Longrightarrow> 16 dvd unat w"
    using assms(1) wh j k4 k6 e h
    by (auto simp: planar_formats_def yuv_aligned_def assms(8))
qed

lemma unat_div_2: "unat ((a :: u32) div 2) = unat a div 2"
  by (simp add: unat_div)

lemma chroma_420: "even (h :: nat) \<Longrightarrow> w * (h div 2) = w * h div 2"
  by (auto elim!: evenE)

lemma ALIGN_4K_bounds:
  assumes "unat x < 2 ^ 31"
  shows "unat x \<le> unat (ALIGN x SIZE_4K)" "unat (ALIGN x SIZE_4K) < unat x + 4096"
proof -
  have "unat (ALIGN x SIZE_4K) = align_up 12 (unat x)"
    using assms by (intro ALIGN_unat) simp_all
  then show "unat x \<le> unat (ALIGN x SIZE_4K)" "unat (ALIGN x SIZE_4K) < unat x + 4096"
    using align_up_ge [of "unat x" 12] align_up_less [of 12 "unat x"] by simp_all
qed

lemma planar_area:
  assumes "unat (w :: u32) \<le> 20480" "unat h \<le> 16448"
  shows "unat w * unat h \<le> 336855040" "unat (w * h) = unat w * unat h"
proof -
  show b: "unat w * unat h \<le> 336855040"
    using mult_le_mono [OF assms] by simp
  then show "unat (w * h) = unat w * unat h"
    by (intro unat_mult_no_wrap) simp
qed

lemma YV12_chroma:
  assumes "unat w \<le> 20480" "unat h \<le> 16448" "16 dvd unat w"
  shows "unat (ALIGN (w div 2) 16) = align_up 4 (unat w div 2)"
    and "align_up 4 (unat w div 2) \<le> unat w"
    and "unat (ALIGN (w div 2) 16 * (h div 2)) = align_up 4 (unat w div 2) * (unat h div 2)"
    and "align_up 4 (unat w div 2) * (unat h div 2) \<le> 168427520"
proof -
  show a: "unat (ALIGN (w div 2) 16) = align_up 4 (unat w div 2)"
    using assms(1) ALIGN_unat [of 16 4 "w div 2"] by (simp add: unat_div_2)
  obtain n where n: "unat w = 16 * n" using assms(3) by (auto elim: dvdE)
  have "align_up 4 (8 * n) \<le> 16 * n"
    by (simp add: align_up_def)
  then show b: "align_up 4 (unat w div 2) \<le> unat w" by (simp add: n)
  have "unat h div 2 \<le> 8224" using assms(2) by simp
  with b assms(1) have "align_up 4 (unat w div 2) * (unat h div 2) \<le> 20480 * 8224"
    by (intro mult_le_mono) simp_all
  then show c: "align_up 4 (unat w div 2) * (unat h div 2) \<le> 168427520" by simp
  then show "unat (ALIGN (w div 2) 16 * (h div 2)) = align_up 4 (unat w div 2) * (unat h div 2)"
    using a by (subst unat_mult_no_wrap) (simp_all add: unat_div_2)
qed

lemma area_multiples:
  fixes A :: u32
  assumes "unat A \<le> 336855040"
  shows "unat (A * 2) = 2 * unat A" "unat (A * 2 + A + 1) = 3 * unat A + 1"
    "unat (A + A div 2) = unat A + unat A div 2" "unat (A + A div 2 + 1) = unat A + unat A div 2 + 1"
  using assms by (simp_all add: unat_word_ariths unat_div)

lemma area_plus:
  fixes A C :: u32
  assumes "unat A \<le> 336855040" "unat C \<le> 168427520"
  shows "unat (A + C * 2) = unat A + 2 * unat C"
  using assms by (simp add: unat_word_ariths)

lemma planar_size:
  assumes "f \<in> set planar_formats" "unat w \<le> 20480" "unat h \<le> 16448" "even (unat h)"
    and "f = YV12 \<Longrightarrow> 16 dvd unat w" "even width" "even height"
  shows "\<exists>sz. yuv_size env f width height w h = Some sz \<and>
    plane_bytes f (unat w) (unat h) \<le> unat sz \<and> unat sz < 2 ^ 31"
proof -
  note area = planar_area [OF assms(2,3)]
  have sp: "unat (w * h * 2) = 2 * (unat w * unat h)"
    "unat (w * h * 2 + w * h + 1) = 3 * (unat w * unat h) + 1"
    "unat (w * h + w * h div 2) = unat w * unat h + unat w * unat h div 2"
    "unat (w * h + w * h div 2 + 1) = unat w * unat h + unat w * unat h div 2 + 1"
    using area_multiples [of "w * h"] area by simp_all
  have yv: "unat (w * h + ALIGN (w div 2) 16 * (h div 2) * 2) =
      unat w * unat h + 2 * (align_up 4 (unat w div 2) * (unat h div 2))"
    "align_up 4 (unat w div 2) * (unat h div 2) \<le> 168427520" if "f = YV12"
    using YV12_chroma [OF assms(2,3) assms(5) [OF that]] area
      area_plus [of "w * h" "ALIGN (w div 2) 16 * (h div 2)"] by simp_all
  have fit: ?thesis
    if "yuv_size env f width height w h = Some (ALIGN x SIZE_4K)"
      "plane_bytes f (unat w) (unat h) \<le> unat x" "unat x \<le> 2 ^ 30" for x
    using ALIGN_4K_bounds [of x] that by simp
  consider "f \<in> {YCbCr_420_SP, YCrCb_420_SP}" | "f = NV21_ZSL" | "f = YCbCr_420_P010"
    | "f \<in> {YCbCr_422_SP, YCrCb_422_SP}" | "f = YV12"
    using assms(1) by (auto simp: planar_formats_def)
  then show ?thesis
  proof cases
    case 1
    then show ?thesis using area(1) sp assms(4)
      by (intro fit [of "w * h + w * h div 2 + 1"]) (auto simp: yuv_size_def plane_bytes_def chroma_420)
  next
    case 2
    then show ?thesis using area(1) sp assms(4)
      by (intro fit [of "w * h + w * h div 2"]) (auto simp: yuv_size_def plane_bytes_def chroma_420)
  next
    case 3
    have "plane_bytes f (unat w) (unat h) \<le> unat (w * h * 2 + w * h + 1)"
      unfolding sp(2) using 3 by (simp add: plane_bytes_def)
    moreover have "unat (w * h * 2 + w * h + 1) \<le> 2 ^ 30"
      unfolding sp(2) using area(1) by (simp add: mult.commute [of "unat h"])
    moreover have "yuv_size env f width height w h = Some (ALIGN (w * h * 2 + w * h + 1) SIZE_4K)"
      using 3 by (simp add: yuv_size_def)
    ultimately show ?thesis by (intro fit)
  next
    case 4
    have "unat h * unat w \<le> 336855040" using area(1) by (simp add: mult.commute)
    with 4 show ?thesis using sp(1) assms(6)
      by (intro fit [of "w * h * 2"]) (auto simp: yuv_size_def plane_bytes_def)
  next
    case 5
    then show ?thesis using area(1) yv assms(6,7)
      by (intro fit [of "w * h + ALIGN (w div 2) 16 * (h div 2) * 2"])
        (auto simp: yuv_size_def plane_bytes_def)
  qed
qed

lemma planar_GetSize:
  assumes "f \<in> set planar_formats" "info_format info = f" "info_layer_count info = 1"
    and "yuv_size env f (info_width info) (info_height info) w h = Some sz" "unat sz < 2 ^ 31"
    and "unat (GetDataAlignment env f (info_prod_usage info) (info_cons_usage info)) = 2 ^ k" "k < 31"
  shows "unat sz \<le> unat (GetSize env info w h)"
proof -
  let ?a = "GetDataAlignment env f (info_prod_usage info) (info_cons_usage info)"
  have "GetSize env info w h = ALIGN sz ?a"
    using planar_not_special [OF assms(1)] assms(2-4) by (simp add: GetSize_def Let_def UINT_def)
  moreover have "(2 :: nat) ^ k \<le> 2 ^ 31"
    using assms(7) by (intro power_increasing) simp_all
  then have "unat (ALIGN sz ?a) = align_up k (unat sz)"
    using assms(5,6) by (intro ALIGN_unat) simp_all
  ultimately show ?thesis using align_up_ge [of "unat sz" k] by simp
qed

lemma unat_ucast_64: "unat (ucast (x :: u32) :: u64) = unat x"
  using unat_word_less [of x] by (intro unat_ucast_small) simp

lemma SP_planes:
  assumes "unat (w * bpp * h) = unat (w * bpp) * unat h" "unat (w * bpp * h) < 2 ^ 31"
  shows "yc_y (GetYuvSPPlaneInfo base w h bpp) = base"
    and "yc_ystride (GetYuvSPPlaneInfo base w h bpp) = w * bpp"
    and "yc_cstride (GetYuvSPPlaneInfo base w h bpp) = w * bpp"
    and "unat (yc_cb (GetYuvSPPlaneInfo base w h bpp) - base) = unat (w * bpp) * unat h"
    and "unat (yc_cr (GetYuvSPPlaneInfo base w h bpp) - base) = unat (w * bpp) * unat h + 1"
proof -
  have "unat ((1 :: u64) + ucast (w * bpp * h)) = 1 + unat (w * bpp * h)"
    using assms(2) by (subst unat_plus_if_size) (simp add: unat_ucast_64 word_size)
  then show "unat (yc_cr (GetYuvSPPlaneInfo base w h bpp) - base) = unat (w * bpp) * unat h + 1"
    using assms(1) by (simp add: GetYuvSPPlaneInfo_def Let_def add.commute)
qed (use assms in \<open>simp_all add: GetYuvSPPlaneInfo_def Let_def unat_ucast_64\<close>)

lemma SP_within:
  assumes "f \<in> set planar_formats" "f \<noteq> YV12" "f \<noteq> YCbCr_420_P010"
    and "unat w \<le> 20480" "unat h \<le> 16448" "plane_bytes f (unat w) (unat h) \<le> bytes"
  shows "\<exists>p. plane_info env base f w h False = Some (p, None) \<and> planes_within f base p (unat h) bytes"
proof -
  note area = planar_area [OF assms(4,5)]
  have "unat (w * 1 * h) = unat (w * 1) * unat h" "unat (w * 1 * h) < 2 ^ 31"
    using area by simp_all
  note sp = SP_planes [OF this, of base, simplified]
  show ?thesis using assms(1-3,6) sp
    by (auto simp: planar_formats_def plane_info_def planes_within_def Let_def chroma_rows_def
        plane_bytes_def mult_2)
qed

lemma P010_within:
  assumes "unat w \<le> 20480" "unat h \<le> 16448"
    and "plane_bytes YCbCr_420_P010 (unat w) (unat h) \<le> bytes"
  shows "\<exists>p. plane_info env base YCbCr_420_P010 w h False = Some (p, None) \<and>
    planes_within YCbCr_420_P010 base p (unat h) bytes"
proof -
  note area = planar_area [OF assms(1,2)]
  have w2: "unat (w * 2) = unat w * 2" using assms(1) by (intro unat_mult_no_wrap [of _ 2, simplified]) simp
  have "unat (w * 2 * h) = unat (w * h * 2)"
    by (simp only: mult.assoc mult.commute [of 2 h])
  then have m: "unat (w * 2 * h) = 2 * (unat w * unat h)"
    using area_multiples(1) [of "w * h"] area by simp
  have "unat h * unat w \<le> 336855040" using area(1) by (simp add: mult.commute)
  with m have "unat (w * 2 * h) = unat (w * 2) * unat h" "unat (w * 2 * h) < 2 ^ 31"
    by (simp_all add: w2)
  note sp = SP_planes [OF this, of base]
  have "2 * (unat h div 2) \<le> unat h" by simp
  then have "unat w * 2 * (unat h div 2) \<le> unat w * unat h"
    unfolding mult.assoc by (rule mult_le_mono2)
  moreover have "unat w * 2 * unat h = 2 * (unat w * unat h)" by simp
  ultimately have "unat w * 2 * unat h + unat w * 2 * (unat h div 2) \<le> bytes"
    using assms(3) unfolding plane_bytes_def if_P [OF refl] by linarith
  then show ?thesis using sp
    by (simp add: plane_info_def planes_within_def chroma_rows_def plane_bytes_def w2 Let_def)
qed

lemma YV12_within:
  assumes "unat w \<le> 20480" "unat h \<le> 16448" "even (unat h)" "16 dvd unat w"
    and "plane_bytes YV12 (unat w) (unat h) \<le> bytes"
  shows "\<exists>p. plane_info env base YV12 w h False = Some (p, None) \<and>
    planes_within YV12 base p (unat h) bytes"
proof -
  let ?c = "ALIGN (w div 2) 16"
  note area = planar_area [OF assms(1,2)]
  note ch = YV12_chroma [OF assms(1,2,4)]
  have c: "unat ?c \<le> 20480" using ch(1,2) assms(1) by simp
  note ca = planar_area [OF c assms(2)]
  have half: "unat (?c * h div 2) = align_up 4 (unat w div 2) * (unat h div 2)"
    using ca(2) ch(1) chroma_420 [OF assms(3)] by (simp add: unat_div_2)
  have "unat ((ucast (w * h) :: u64) + ucast (?c * h div 2)) =
      unat w * unat h + align_up 4 (unat w div 2) * (unat h div 2)"
    using area half ch(4) by (subst unat_plus_if_size) (simp add: unat_ucast_64 word_size)
  then show ?thesis using assms(5) area(2) ch(1) half
    by (simp add: plane_info_def planes_within_def chroma_rows_def plane_bytes_def Let_def unat_ucast_64
        add.assoc)
qed

lemma planar_planes_fit:
  assumes "info_format info \<in> set planar_formats" "info_layer_count info = 1"
    and "0 \<le> info_width info" "info_width info \<le> 16384" "even (info_width info)"
    and "0 \<le> info_height info" "info_height info \<le> 16384" "even (info_height info)"
    and "SINT (GetGpuPixelAlignment (gpu env)) = 2 ^ j" "j \<le> 12"
    and "unat (GetDataAlignment env (info_format info) (info_prod_usage info)
      (info_cons_usage info)) = 2 ^ k" "k < 31"
    and "GetBufferSizeAndDimensions env info = (bytes, w, h)"
  shows "\<exists>p. plane_info env base (info_format info) w h False = Some (p, None) \<and>
    planes_within (info_format info) base p (unat h) (unat bytes)"
proof -
  let ?f = "info_format info"
  have wh: "GetAlignedWidthAndHeight env info = (w, h)" and b: "bytes = GetSize env info w h"
    using assms(13) by (auto simp: GetBufferSizeAndDimensions_def split: prod.splits)
  note d = planar_aligned [OF assms(1) refl assms(3,4,6-10) wh]
  obtain sz where "yuv_size env ?f (info_width info) (info_height info) w h = Some sz"
    and "plane_bytes ?f (unat w) (unat h) \<le> unat sz" "unat sz < 2 ^ 31"
    using planar_size [OF assms(1) d assms(5,8)] by blast
  then have fits: "plane_bytes ?f (unat w) (unat h) \<le> unat bytes"
    using planar_GetSize [OF assms(1) refl assms(2) _ _ assms(11,12)] b by fastforce
  consider "?f = YV12" | "?f = YCbCr_420_P010" | "?f \<noteq> YV12" "?f \<noteq> YCbCr_420_P010" by blast
  then show ?thesis
    using SP_within [OF assms(1) _ _ d(1,2) fits] P010_within [OF d(1,2)] YV12_within [OF d(1-3)] d(4) fits
    by cases simp_all
qed



subsection \<open>Compressed RGB buffers\<close>

lemma div_round_up:
  assumes "0 < (a :: nat)" "0 < b"
  shows "(n + (a * b - 1)) div (a * b) = ((n + (a - 1)) div a + (b - 1)) div b"
proof -
  obtain a' b' where ab: "a = Suc a'" "b = Suc b'" using assms gr0_implies_Suc by metis
  have "n + (a * b - 1) = (n + a') + b' * Suc a'" by (simp add: ab algebra_simps)
  moreover have "((n + a') + b' * Suc a') div Suc a' = (n + a') div Suc a' + b'"
    by (subst div_mult_self1) simp_all
  ultimately show ?thesis by (simp add: ab div_mult2_eq add.commute del: mult_Suc mult_Suc_right)
qed

lemma align_up_align_up:
  assumes "k \<le> m"
  shows "align_up m (align_up k n) = align_up m n"
proof -
  obtain d where m: "m = k + d" using assms le_Suc_ex by blast
  let ?a = "(2 :: nat) ^ k" and ?b = "(2 :: nat) ^ d" and ?q = "(n + (2 ^ k - 1)) div 2 ^ k"
  have q: "align_up k n = ?q * ?a" by (simp add: align_up_def)
  have "(?q * ?a + (?a - 1)) div ?a = ?q"
    by (subst add.commute, subst div_mult_self1) simp_all
  then have "(align_up k n + (?a * ?b - 1)) div (?a * ?b) = (n + (?a * ?b - 1)) div (?a * ?b)"
    unfolding q by (simp only: div_round_up zero_less_power zero_less_numeral)
  then show ?thesis
    by (simp add: align_up_def m power_add)
qed

lemma meta_bytes_aligned:
  assumes "k \<le> 10" "l \<le> 6"
  shows "meta_bytes (align_up k w) (align_up l h) = meta_bytes w h"
proof -
  have "(n + 1023) div 1024 = align_up 10 n div 1024" "(n + 63) div 64 = align_up 6 n div 64" for n
    by (simp_all add: align_up_def)
  then show ?thesis
    unfolding meta_bytes_def by (simp only: align_up_align_up assms)
qed

lemma align_up_least:
  assumes "n \<le> 2 ^ m" "k \<le> m"
  shows "align_up k n \<le> 2 ^ m"
proof -
  obtain d where m: "m = k + d" using assms(2) le_Suc_ex by blast
  have "(n + 2 ^ k - 1) div 2 ^ k \<le> (2 ^ k - 1 + 2 ^ d * 2 ^ k) div (2 :: nat) ^ k"
    using assms(1) by (intro div_le_mono) (simp add: m power_add mult.commute)
  also have "\<dots> = 2 ^ d" by (subst div_mult_self1) simp_all
  finally have "(n + 2 ^ k - 1) div 2 ^ k * 2 ^ k \<le> 2 ^ d * 2 ^ k" by (rule mult_le_mono1)
  then show ?thesis by (simp add: align_up_def m power_add mult.commute)
qed

lemma bytes_of_pixels:
  fixes A :: u32
  assumes "unat A \<le> 2 ^ 28" "bpp = 2 \<or> bpp = 4"
  shows "unat (A * bpp) = unat A * unat bpp" "unat A * unat bpp \<le> 2 ^ 30"
  using assms by (auto intro!: unat_mult_no_wrap [THEN trans])

lemma ubwc_size:
  fixes width height :: int
  assumes "IsUBwcSupported f" "IsUncompressedRGBFormat f"
    and "0 \<le> width" "width \<le> 16384" "0 \<le> height" "height \<le> 16384"
    and "unat aw \<le> 16384" "unat ah \<le> 16384"
  shows "unat (GetUBwcSize env width height f aw ah) =
    meta_bytes (nat width) (nat height) + unat aw * unat ah * unat (GetBppForUncompressedRGB f)"
proof -
  let ?bpp = "GetBppForUncompressedRGB f"
  have b: "?bpp = 2 \<or> ?bpp = 4" using UBwcSupported_RGB_bpp [OF assms(1,2)] by simp
  note meta = meta_size_tiles [OF assms(3-6) b]
  have "unat aw * unat ah \<le> 16384 * 16384" using assms(7,8) by (intro mult_le_mono)
  then have a: "unat aw * unat ah \<le> 2 ^ 28" "unat (aw * ah) = unat aw * unat ah"
    by (simp, intro unat_mult_no_wrap, simp)
  then have "unat (aw * ah * ?bpp) = unat aw * unat ah * unat ?bpp"
    "unat aw * unat ah * unat ?bpp \<le> 2 ^ 30"
    using bytes_of_pixels [OF _ b, of "aw * ah"] by simp_all
  moreover have "GetUBwcSize env width height f aw ah =
      aw * ah * ?bpp + GetRgbUBwcMetaBufferSize width height ?bpp"
    using assms(1,2) by (auto simp: GetUBwcSize_def IsUBwcSupported_def IsUncompressedRGBFormat_def Let_def)
  ultimately show ?thesis using meta
    by (simp add: unat_plus_if_size word_size)
qed



end
