(* ===== verification/Gr_Allocator.thy ===== *)
theory Gr_Allocator
  imports Gr_Utils "HOL-Library.Multiset"
begin

text \<open>
  The allocator: \<open>gralloc/gr_ion_alloc.cpp\<close>, \<open>gr_allocator.cpp\<close> and \<open>gr_buf_descriptor.h\<close>.

  The kernel answers system calls as it likes: the fields of \<open>kernel\<close> give the \<open>errno\<close> (0 for
  success), the integer and the address a call returns as functions of all calls made so far,
  the latest first.  The driver interface is the one selected when \<open>TARGET_ION_ABI_VERSION\<close> is
  not defined.  The build switches and the constants of the kernel headers are the fields of
  \<open>ion_cfg\<close>.

  Shown here: an allocation holds exactly one driver handle and one descriptor when it
  succeeds and nothing when it fails, and freeing it gives both back; memory is requested as
  secure, and uncached, exactly for protected usages; the decision whether several
  descriptors can share one buffer is the one its comment describes.
\<close>

subsection \<open>System calls\<close>

datatype cache_cmd = ION_IOC_CLEAN_CACHES | ION_IOC_INV_CACHES | ION_IOC_CLEAN_INV_CACHES

datatype (plugins only: code size) sys_call =
    Open_ion
  | Close_fd int
  | Ion_alloc u32 u32 u32 u32
  | Ion_map int
  | Ion_free int
  | Ion_import int
  | Ion_custom cache_cmd int u64 u32 u32
  | Mmap u32 int
  | Munmap u64 u32
  | Dup int
  | Lseek_end int

record kernel =
  k_errno :: "sys_call list \<Rightarrow> nat"
  k_val :: "sys_call list \<Rightarrow> int"
  k_addr :: "sys_call list \<Rightarrow> u64"

definition MAP_FAILED :: u64 where
  "MAP_FAILED = - 1"

subsection \<open>The ion device\<close>

record IonAlloc =
  ion_dev_fd :: int
  calls :: "sys_call list"

definition FD_INIT :: int where
  "FD_INIT = -1"

definition sys :: "sys_call \<Rightarrow> IonAlloc \<Rightarrow> IonAlloc" where
  "sys c a = a\<lparr>calls := c # calls a\<rparr>"

definition err_of :: "kernel \<Rightarrow> IonAlloc \<Rightarrow> int" where
  "err_of k a = - int (k_errno k (calls a))"

definition IonAlloc_new :: "sys_call list \<Rightarrow> IonAlloc" where
  "IonAlloc_new cs = \<lparr>ion_dev_fd = FD_INIT, calls = cs\<rparr>"

definition OpenIonDevice :: "kernel \<Rightarrow> IonAlloc \<Rightarrow> int \<times> IonAlloc" where
  "OpenIonDevice k a =
     (let a = sys Open_ion a in (if k_errno k (calls a) = 0 then k_val k (calls a) else -1, a))"

definition CloseIonDevice :: "IonAlloc \<Rightarrow> IonAlloc" where
  "CloseIonDevice a =
     (if FD_INIT < ion_dev_fd a then sys (Close_fd (ion_dev_fd a)) a else a)\<lparr>ion_dev_fd := FD_INIT\<rparr>"

definition IonAlloc_Init :: "kernel \<Rightarrow> IonAlloc \<Rightarrow> bool \<times> IonAlloc" where
  "IonAlloc_Init k a =
     (let a = (if ion_dev_fd a = FD_INIT
               then (case OpenIonDevice k a of (fd, a) \<Rightarrow> a\<lparr>ion_dev_fd := fd\<rparr>) else a)
      in if ion_dev_fd a < 0 then (False, a\<lparr>ion_dev_fd := FD_INIT\<rparr>) else (True, a))"

record AllocData =
  ad_base :: u64
  ad_fd :: int
  ad_ion_handle :: int
  ad_offset :: u32
  ad_size :: u32
  ad_align :: u32
  ad_handle :: u64
  ad_uncached :: bool
  ad_flags :: u32
  ad_heap_id :: u32
  ad_alloc_type :: u32

definition AllocData_new :: AllocData where
  "AllocData_new = \<lparr>ad_base = 0, ad_fd = -1, ad_ion_handle = -1, ad_offset = 0, ad_size = 0,
     ad_align = 1, ad_handle = 0, ad_uncached = False, ad_flags = 0, ad_heap_id = 0,
     ad_alloc_type = 0\<rparr>"

subsection \<open>Build configuration\<close>

datatype heap_id =
    ION_SECURE_HEAP_ID | ION_SECURE_DISPLAY_HEAP_ID | ION_CP_MM_HEAP_ID | ION_SYSTEM_HEAP_ID
  | ION_CAMERA_HEAP_ID | ION_ADSP_HEAP_ID

datatype camera_preview =
    USE_YCRCB_CAMERA_PREVIEW | USE_YCRCB_CAMERA_PREVIEW_VENUS | NV12_CAMERA_PREVIEW

record ion_cfg =
  MASTER_SIDE_CP :: bool
  USE_SECURE_HEAP :: bool
  preview :: camera_preview
  ION_HEAP :: "heap_id \<Rightarrow> u32"
  ION_FLAG_CACHED :: u32
  ION_SECURE :: u32
  ION_FLAG_CP_PIXEL :: u32
  ION_FLAG_ALLOW_NON_CONTIG :: u32
  ION_FLAG_CP_SEC_DISPLAY :: u32
  ION_FLAG_CP_CAMERA :: u32
  ION_FLAG_CP_CAMERA_PREVIEW :: u32

definition CP_HEAP_ID :: "ion_cfg \<Rightarrow> heap_id" where
  "CP_HEAP_ID cfg = (if MASTER_SIDE_CP cfg then ION_SECURE_HEAP_ID else ION_CP_MM_HEAP_ID)"

definition SD_HEAP_ID :: "ion_cfg \<Rightarrow> heap_id" where
  "SD_HEAP_ID cfg =
     (if MASTER_SIDE_CP cfg \<or> USE_SECURE_HEAP cfg then ION_SECURE_DISPLAY_HEAP_ID else ION_CP_MM_HEAP_ID)"

definition ION_CP_FLAGS :: "ion_cfg \<Rightarrow> u32" where
  "ION_CP_FLAGS cfg =
     ION_SECURE cfg OR (if MASTER_SIDE_CP cfg then ION_FLAG_CP_PIXEL cfg else ION_FLAG_ALLOW_NON_CONTIG cfg)"

definition ION_SD_FLAGS :: "ion_cfg \<Rightarrow> u32" where
  "ION_SD_FLAGS cfg = ION_SECURE cfg OR (if MASTER_SIDE_CP cfg then ION_FLAG_CP_SEC_DISPLAY cfg else 0)"

definition ION_SC_FLAGS :: "ion_cfg \<Rightarrow> u32" where
  "ION_SC_FLAGS cfg = ION_SECURE cfg OR (if MASTER_SIDE_CP cfg then ION_FLAG_CP_CAMERA cfg else 0)"

definition ION_SC_PREVIEW_FLAGS :: "ion_cfg \<Rightarrow> u32" where
  "ION_SC_PREVIEW_FLAGS cfg =
     ION_SECURE cfg OR (if MASTER_SIDE_CP cfg then ION_FLAG_CP_CAMERA_PREVIEW cfg else 0)"

subsection \<open>Buffers of the ion device\<close>

definition AllocBuffer :: "ion_cfg \<Rightarrow> kernel \<Rightarrow> IonAlloc \<Rightarrow> AllocData \<Rightarrow> int \<times> AllocData \<times> IonAlloc" where
  "AllocBuffer cfg k a data =
     (let fl = ad_flags data OR (if ad_uncached data then 0 else ION_FLAG_CACHED cfg);
          a1 = sys (Ion_alloc (ad_size data) (ad_align data) (ad_heap_id data) fl) a
      in if k_errno k (calls a1) \<noteq> 0 then (err_of k a1, data, a1)
         else
           let hnd = k_val k (calls a1); a2 = sys (Ion_map hnd) a1
           in if k_errno k (calls a2) \<noteq> 0 then (err_of k a2, data, sys (Ion_free hnd) a2)
              else (0, data\<lparr>ad_fd := k_val k (calls a2), ad_ion_handle := hnd\<rparr>, a2))"

definition UnmapBuffer :: "kernel \<Rightarrow> IonAlloc \<Rightarrow> u64 \<Rightarrow> u32 \<Rightarrow> int \<times> IonAlloc" where
  "UnmapBuffer k a base sz = (let a = sys (Munmap base sz) a in (err_of k a, a))"

definition Ion_FreeBuffer :: "kernel \<Rightarrow> IonAlloc \<Rightarrow> u64 \<Rightarrow> u32 \<Rightarrow> u32 \<Rightarrow> int \<Rightarrow> int \<Rightarrow> int \<times> IonAlloc" where
  "Ion_FreeBuffer k a base sz offset fd ion_handle =
     (let (err, a1) = (if base \<noteq> 0 then UnmapBuffer k a base sz else (0, a));
          a2 = (if 0 < ion_handle then sys (Ion_free ion_handle) a1 else a1)
      in (err, sys (Close_fd fd) a2))"

definition Ion_ImportBuffer :: "kernel \<Rightarrow> IonAlloc \<Rightarrow> int \<Rightarrow> int \<times> IonAlloc" where
  "Ion_ImportBuffer k a fd =
     (let a = sys (Ion_import fd) a
      in (if k_errno k (calls a) \<noteq> 0 then err_of k a else k_val k (calls a), a))"

datatype cache_op = CACHE_CLEAN | CACHE_INVALIDATE | CACHE_CLEAN_AND_INVALIDATE

definition cache_cmd_of :: "cache_op \<Rightarrow> cache_cmd" where
  "cache_cmd_of op = (case op of CACHE_CLEAN \<Rightarrow> ION_IOC_CLEAN_CACHES
     | CACHE_INVALIDATE \<Rightarrow> ION_IOC_INV_CACHES
     | CACHE_CLEAN_AND_INVALIDATE \<Rightarrow> ION_IOC_CLEAN_INV_CACHES)"

definition Ion_CleanBuffer ::
    "kernel \<Rightarrow> IonAlloc \<Rightarrow> u64 \<Rightarrow> u32 \<Rightarrow> u32 \<Rightarrow> int \<Rightarrow> cache_op \<Rightarrow> int \<times> IonAlloc" where
  "Ion_CleanBuffer k a base sz offset hnd op =
     (let a = sys (Ion_custom (cache_cmd_of op) hnd base offset sz) a in (err_of k a, a))"

definition Ion_MapBuffer :: "kernel \<Rightarrow> IonAlloc \<Rightarrow> u32 \<Rightarrow> u32 \<Rightarrow> int \<Rightarrow> int \<times> u64 \<times> IonAlloc" where
  "Ion_MapBuffer k a sz offset fd =
     (let a = sys (Mmap sz fd) a;
          addr = (if k_errno k (calls a) = 0 then k_addr k (calls a) else MAP_FAILED)
      in (if addr = MAP_FAILED then err_of k a else 0, addr, a))"

subsection \<open>Buffer descriptors\<close>

record BufferDescriptor =
  d_width :: int
  d_height :: int
  d_format :: hal_format
  d_layer_count :: u32
  d_producer_usage :: usage
  d_consumer_usage :: usage
  d_id :: u64

definition BufferDescriptor_new :: "u64 \<Rightarrow> BufferDescriptor" where
  "BufferDescriptor_new next_id =
     \<lparr>d_width = -1, d_height = -1, d_format = OtherFormat (-1), d_layer_count = 1, d_producer_usage = {},
      d_consumer_usage = {}, d_id = next_id\<rparr>"

definition BufferDescriptor_with ::
    "u64 \<Rightarrow> int \<Rightarrow> int \<Rightarrow> hal_format \<Rightarrow> usage \<Rightarrow> usage \<Rightarrow> BufferDescriptor" where
  "BufferDescriptor_with next_id w h f prod_usage cons_usage =
     (BufferDescriptor_new next_id)\<lparr>d_width := w, d_height := h, d_format := f,
       d_producer_usage := prod_usage, d_consumer_usage := cons_usage\<rparr>"

definition GetBufferInfo :: "BufferDescriptor \<Rightarrow> BufferInfo" where
  "GetBufferInfo d = \<lparr>info_width = d_width d, info_height = d_height d, info_format = d_format d,
     info_layer_count = 1, info_prod_usage = d_producer_usage d, info_cons_usage = d_consumer_usage d\<rparr>"

subsection \<open>The allocator\<close>

text \<open>\<open>Allocator\<close> only holds \<open>ion_allocator_\<close>; \<open>None\<close> is the null pointer.\<close>

type_synonym allocator = "IonAlloc option"

definition EINVAL :: int where
  "EINVAL = 22"

definition Allocator_Init :: "kernel \<Rightarrow> sys_call list \<Rightarrow> bool \<times> allocator" where
  "Allocator_Init k cs = (case IonAlloc_Init k (IonAlloc_new cs) of (ok, a) \<Rightarrow> (ok, Some a))"

definition UseUncached :: "usage \<Rightarrow> usage \<Rightarrow> bool" where
  "UseUncached prod_usage cons_usage =
     (if PRODUCER_UNCACHED \<in> prod_usage \<or> PRODUCER_PROTECTED \<in> prod_usage then True
      else if PRODUCER_CPU_READ \<in> prod_usage \<and> PRODUCER_CPU_READ_OFTEN \<notin> prod_usage then True
      else if PRODUCER_CPU_WRITE \<in> prod_usage \<and> PRODUCER_CPU_WRITE_OFTEN \<notin> prod_usage then True
      else PRODUCER_SENSOR_DIRECT_DATA \<in> prod_usage \<or> CONSUMER_GPU_DATA_BUFFER \<in> cons_usage)"

definition GetIonHeapInfo :: "ion_cfg \<Rightarrow> usage \<Rightarrow> usage \<Rightarrow> u32 \<times> u32 \<times> u32" where
  "GetIonHeapInfo cfg prod_usage cons_usage =
     (let (heap_id, fl) =
            (if PRODUCER_PROTECTED \<in> prod_usage then
               if CONSUMER_SECURE_DISPLAY \<in> cons_usage
               then (ION_HEAP cfg (SD_HEAP_ID cfg), ION_SD_FLAGS cfg)
               else if PRODUCER_CAMERA \<in> prod_usage
               then (ION_HEAP cfg (SD_HEAP_ID cfg),
                     if CONSUMER_HWCOMPOSER \<in> cons_usage then ION_SC_PREVIEW_FLAGS cfg
                     else ION_SC_FLAGS cfg)
               else (ION_HEAP cfg (CP_HEAP_ID cfg), ION_CP_FLAGS cfg)
             else if PRODUCER_MM_HEAP \<in> prod_usage then (ION_HEAP cfg ION_SYSTEM_HEAP_ID, 0)
             else (0, 0));
          heap_id = (if PRODUCER_CAMERA_HEAP \<in> prod_usage
                     then heap_id OR ION_HEAP cfg ION_CAMERA_HEAP_ID else heap_id);
          heap_id = (if PRODUCER_ADSP_HEAP \<in> prod_usage \<or> PRODUCER_SENSOR_DIRECT_DATA \<in> prod_usage
                     then heap_id OR ION_HEAP cfg ION_ADSP_HEAP_ID else heap_id);
          alloc_type = (if has_flag fl (ION_SECURE cfg) then PRIV_FLAGS_SECURE_BUFFER else 0)
      in (if heap_id = 0 then ION_HEAP cfg ION_SYSTEM_HEAP_ID else heap_id, alloc_type, fl))"

definition AllocateMem ::
    "ion_cfg \<Rightarrow> kernel \<Rightarrow> allocator \<Rightarrow> AllocData \<Rightarrow> usage \<Rightarrow> usage \<Rightarrow> (int \<times> AllocData \<times> allocator) mem" where
  "AllocateMem cfg k alloc data prod_usage cons_usage =
     (case GetIonHeapInfo cfg prod_usage cons_usage of (heap_id, alloc_type, fl) \<Rightarrow>
      let data = data\<lparr>ad_uncached := UseUncached prod_usage cons_usage, ad_heap_id := heap_id,
            ad_alloc_type := alloc_type, ad_flags := fl\<rparr>
      in case alloc of
        None \<Rightarrow> Inl NullDeref
      | Some a \<Rightarrow> (case AllocBuffer cfg k a data of (ret, data, a) \<Rightarrow>
          Inr (ret,
            if 0 \<le> ret then data\<lparr>ad_alloc_type := ad_alloc_type data OR PRIV_FLAGS_USES_ION\<rparr> else data,
            Some a)))"

definition Alloc_MapBuffer ::
    "kernel \<Rightarrow> allocator \<Rightarrow> u64 \<Rightarrow> u32 \<Rightarrow> u32 \<Rightarrow> int \<Rightarrow> int \<times> u64 \<times> allocator" where
  "Alloc_MapBuffer k alloc base sz offset fd = (case alloc of
     Some a \<Rightarrow> (case Ion_MapBuffer k a sz offset fd of (err, base', a') \<Rightarrow> (err, base', Some a'))
   | None \<Rightarrow> (- EINVAL, base, None))"

definition Alloc_ImportBuffer :: "kernel \<Rightarrow> allocator \<Rightarrow> int \<Rightarrow> int \<times> allocator" where
  "Alloc_ImportBuffer k alloc fd = (case alloc of
     Some a \<Rightarrow> (case Ion_ImportBuffer k a fd of (h, a') \<Rightarrow> (h, Some a'))
   | None \<Rightarrow> (- EINVAL, None))"

definition Alloc_FreeBuffer ::
    "kernel \<Rightarrow> allocator \<Rightarrow> u64 \<Rightarrow> u32 \<Rightarrow> u32 \<Rightarrow> int \<Rightarrow> int \<Rightarrow> int \<times> allocator" where
  "Alloc_FreeBuffer k alloc base sz offset fd hnd = (case alloc of
     Some a \<Rightarrow> (case Ion_FreeBuffer k a base sz offset fd hnd of (err, a') \<Rightarrow> (err, Some a'))
   | None \<Rightarrow> (- EINVAL, None))"

definition Alloc_CleanBuffer ::
    "kernel \<Rightarrow> allocator \<Rightarrow> u64 \<Rightarrow> u32 \<Rightarrow> u32 \<Rightarrow> int \<Rightarrow> cache_op \<Rightarrow> int \<times> allocator" where
  "Alloc_CleanBuffer k alloc base sz offset hnd op = (case alloc of
     Some a \<Rightarrow> (case Ion_CleanBuffer k a base sz offset hnd op of (err, a') \<Rightarrow> (err, Some a'))
   | None \<Rightarrow> (- EINVAL, None))"

definition GetImplDefinedFormat :: "ion_cfg \<Rightarrow> usage \<Rightarrow> usage \<Rightarrow> hal_format \<Rightarrow> hal_format" where
  "GetImplDefinedFormat cfg prod_usage cons_usage format =
     (if format = IMPLEMENTATION_DEFINED \<or> format = YCbCr_420_888 then
        if PRODUCER_ALLOC_UBWC \<in> prod_usage then YCbCr_420_SP_VENUS_UBWC
        else if CONSUMER_VIDEO_ENCODER \<in> cons_usage then NV12_ENCODEABLE
        else if CONSUMER_CAMERA \<in> cons_usage then
          if PRODUCER_CAMERA \<in> prod_usage then NV21_ZSL else YCrCb_420_SP
        else if PRODUCER_CAMERA \<in> prod_usage then
          if format = YCbCr_420_888 then NV21_ZSL
          else (case preview cfg of
              USE_YCRCB_CAMERA_PREVIEW \<Rightarrow> YCrCb_420_SP
            | USE_YCRCB_CAMERA_PREVIEW_VENUS \<Rightarrow> YCrCb_420_SP_VENUS
            | NV12_CAMERA_PREVIEW \<Rightarrow> YCbCr_420_SP_VENUS)
        else if CONSUMER_HWCOMPOSER \<in> cons_usage then RGBA_8888
        else if format = YCbCr_420_888 then NV21_ZSL
        else format
      else format)"

definition desc_size :: "gr_env \<Rightarrow> BufferDescriptor \<Rightarrow> u32" where
  "desc_size env d = (case GetAlignedWidthAndHeight env (GetBufferInfo d) of
     (alignedw, alignedh) \<Rightarrow> GetSize env (GetBufferInfo d) alignedw alignedh)"

fun share_loop ::
    "ion_cfg \<Rightarrow> gr_env \<Rightarrow> u32 \<times> u32 \<times> u32 \<Rightarrow> nat \<Rightarrow> BufferDescriptor list \<Rightarrow> u32 \<Rightarrow> int \<Rightarrow> bool \<times> int" where
  "share_loop cfg env prev i [] max_size max_index = (True, max_index)"
| "share_loop cfg env prev i (d # ds) max_size max_index =
     (let cur = GetIonHeapInfo cfg (d_producer_usage d) (d_consumer_usage d)
      in if 0 < i \<and> cur \<noteq> prev then (False, max_index)
         else if max_size < desc_size env d
         then share_loop cfg env cur (Suc i) ds (desc_size env d) (wrap32 (int i))
         else share_loop cfg env cur (Suc i) ds max_size max_index)"

definition CheckForBufferSharing :: "ion_cfg \<Rightarrow> gr_env \<Rightarrow> BufferDescriptor list \<Rightarrow> bool \<times> int" where
  "CheckForBufferSharing cfg env descriptors = share_loop cfg env (0, 0, 0) 0 descriptors 0 (-1)"

subsection \<open>What is held, and what is shared\<close>

text \<open>
  The driver handles and the descriptors the process holds after a sequence of calls.  The
  driver numbers handles from 1.
\<close>

datatype resource = Ion_handle int | Descriptor int

definition handle_res :: "int \<Rightarrow> resource multiset" where
  "handle_res h = (if 0 < h then {#Ion_handle h#} else {#})"

fun held :: "kernel \<Rightarrow> sys_call list \<Rightarrow> resource multiset" where
  "held k [] = {#}"
| "held k (c # cs) =
     (let ok = (k_errno k (c # cs) = 0); v = k_val k (c # cs)
      in case c of
        Ion_alloc _ _ _ _ \<Rightarrow> (if ok then handle_res v + held k cs else held k cs)
      | Ion_import _ \<Rightarrow> (if ok then handle_res v + held k cs else held k cs)
      | Ion_free h \<Rightarrow> held k cs - handle_res h
      | Ion_map _ \<Rightarrow> (if ok then add_mset (Descriptor v) (held k cs) else held k cs)
      | Dup _ \<Rightarrow> (if ok then add_mset (Descriptor v) (held k cs) else held k cs)
      | Open_ion \<Rightarrow> (if ok then add_mset (Descriptor v) (held k cs) else held k cs)
      | Close_fd fd \<Rightarrow> held k cs - {#Descriptor fd#}
      | _ \<Rightarrow> held k cs)"

definition alloc_calls :: "allocator \<Rightarrow> sys_call list" where
  "alloc_calls alloc = (case alloc of None \<Rightarrow> [] | Some a \<Rightarrow> calls a)"

definition buffer_res :: "int \<Rightarrow> int \<Rightarrow> resource multiset" where
  "buffer_res fd h = add_mset (Descriptor fd) (handle_res h)"

text \<open>
  \<open>AllocateMem\<close> and \<open>FreeBuffer\<close> as requests for and returns of resources; a mapping is not one
  of them.
\<close>

type_synonym mem_request = "AllocData \<times> usage \<times> usage"

definition acquire_mem ::
    "ion_cfg \<Rightarrow> kernel \<Rightarrow> mem_request \<Rightarrow> IonAlloc \<Rightarrow> (int \<times> int) option \<times> IonAlloc" where
  "acquire_mem cfg k q a = (case q of (data, prod_usage, cons_usage) \<Rightarrow>
     (case AllocateMem cfg k (Some a) data prod_usage cons_usage of
        Inr (ret, data, Some a') \<Rightarrow> (if ret = 0 then Some (ad_fd data, ad_ion_handle data) else None, a')
      | _ \<Rightarrow> (None, a)))"

definition release_mem :: "kernel \<Rightarrow> u64 \<times> u32 \<Rightarrow> int \<times> int \<Rightarrow> IonAlloc \<Rightarrow> IonAlloc" where
  "release_mem k b r a = (case b of (base, sz) \<Rightarrow> (case r of (fd, h) \<Rightarrow>
     snd (Ion_FreeBuffer k a base sz 0 fd h)))"

text \<open>
  Where the first of the largest numbers above \<open>b\<close> stands, counted from \<open>i\<close>; \<open>m\<close> when none is
  above \<open>b\<close>.
\<close>

definition largest_from :: "nat \<Rightarrow> u32 \<Rightarrow> int \<Rightarrow> u32 list \<Rightarrow> int" where
  "largest_from i b m xs = (let n = foldr max xs b
     in if n = b then m else int (i + length (takeWhile (\<lambda>x. x \<noteq> n) xs)))"

definition same_memory :: "ion_cfg \<Rightarrow> BufferDescriptor list \<Rightarrow> bool" where
  "same_memory cfg ds \<longleftrightarrow> (\<forall>d \<in> set ds. \<forall>e \<in> set ds.
     GetIonHeapInfo cfg (d_producer_usage d) (d_consumer_usage d) =
     GetIonHeapInfo cfg (d_producer_usage e) (d_consumer_usage e))"

text \<open>A configuration with the flag values of the kernel headers.\<close>

definition cfg0 :: ion_cfg where
  "cfg0 = \<lparr>MASTER_SIDE_CP = True, USE_SECURE_HEAP = False, preview = NV12_CAMERA_PREVIEW,
     ION_HEAP = (\<lambda>i. case i of ION_SECURE_HEAP_ID \<Rightarrow> 0x200 | ION_SECURE_DISPLAY_HEAP_ID \<Rightarrow> 0x400
       | ION_CP_MM_HEAP_ID \<Rightarrow> 0x100 | ION_SYSTEM_HEAP_ID \<Rightarrow> 0x2000000 | ION_CAMERA_HEAP_ID \<Rightarrow> 0x100000
       | ION_ADSP_HEAP_ID \<Rightarrow> 0x400000),
     ION_FLAG_CACHED = 1, ION_SECURE = 0x80000000, ION_FLAG_CP_PIXEL = 0x40000,
     ION_FLAG_ALLOW_NON_CONTIG = 0x1000000, ION_FLAG_CP_SEC_DISPLAY = 0x2000000,
     ION_FLAG_CP_CAMERA = 0x200000, ION_FLAG_CP_CAMERA_PREVIEW = 0x8000000\<rparr>"

text \<open>A kernel in which every call succeeds and returns the number of calls made.\<close>

definition kernel0 :: kernel where
  "kernel0 = \<lparr>k_errno = (\<lambda>_. 0), k_val = (\<lambda>cs. int (length cs)),
     k_addr = (\<lambda>cs. word_of_int (4096 * int (length cs)))\<rparr>"

locale resource_pool =
  fixes held_in :: "'s \<Rightarrow> 'r multiset"
    and res :: "'a \<Rightarrow> 'r multiset"
    and acquire :: "'q \<Rightarrow> 's \<Rightarrow> 'a option \<times> 's"
    and release :: "'b \<Rightarrow> 'a \<Rightarrow> 's \<Rightarrow> 's"
  assumes acquire_ok: "acquire q s = (Some r, t) \<Longrightarrow> held_in t = res r + held_in s"
    and acquire_fails: "acquire q s = (None, t) \<Longrightarrow> held_in t = held_in s"
    and release_res: "held_in (release b r s) = held_in s - res r"
begin

lemma round_trip: "acquire q s = (Some r, t) \<Longrightarrow> held_in (release b r t) = held_in s"
  by (simp add: acquire_ok release_res)

lemma pair_round_trip:
  assumes "acquire q s = (Some r, t)" "acquire q' t = (Some r', u)"
  shows "held_in (release b' r' (release b r u)) = held_in s"
  by (simp add: acquire_ok [OF assms(1)] acquire_ok [OF assms(2)] release_res ac_simps)

lemma second_fails:
  "acquire q s = (Some r, t) \<Longrightarrow> acquire q' t = (None, u) \<Longrightarrow> held_in u = res r + held_in s"
  by (simp add: acquire_ok acquire_fails)

end

subsection \<open>What an allocation holds\<close>

lemma calls_sys [simp]: "calls (sys c a) = c # calls a"
  by (simp add: sys_def)

lemma err_of_nonpos: "err_of k a \<le> 0" "err_of k a = 0 \<longleftrightarrow> k_errno k (calls a) = 0"
  by (simp_all add: err_of_def)

lemma AllocBuffer_held:
  assumes "AllocBuffer cfg k a data = (ret, data', a')"
  shows "ret \<le> 0"
    and "held k (calls a') =
      (if ret = 0 then buffer_res (ad_fd data') (ad_ion_handle data') else {#}) + held k (calls a)"
  using assms
  by (auto simp: AllocBuffer_def Let_def err_of_nonpos buffer_res_def split: if_splits)

lemma Ion_FreeBuffer_held:
  "held k (calls (snd (Ion_FreeBuffer k a base sz offset fd h))) = held k (calls a) - buffer_res fd h"
  by (simp add: Ion_FreeBuffer_def UnmapBuffer_def Let_def buffer_res_def handle_res_def)

lemma AllocateMem_held:
  assumes "AllocateMem cfg k (Some a) data p c = Inr (ret, data', alloc)"
  shows "ret \<le> 0" "\<exists>a'. alloc = Some a' \<and> held k (calls a') =
      (if ret = 0 then buffer_res (ad_fd data') (ad_ion_handle data') else {#}) + held k (calls a)"
proof -
  obtain heap ty fl where info: "GetIonHeapInfo cfg p c = (heap, ty, fl)"
    using prod_cases3 by blast
  let ?d = "data\<lparr>ad_uncached := UseUncached p c, ad_heap_id := heap, ad_alloc_type := ty, ad_flags := fl\<rparr>"
  obtain r d a' where buf: "AllocBuffer cfg k a ?d = (r, d, a')"
    using prod_cases3 by blast
  note h = AllocBuffer_held [OF buf]
  have "ret = r" "alloc = Some a'" "ad_fd data' = ad_fd d" "ad_ion_handle data' = ad_ion_handle d"
    using assms by (auto simp: AllocateMem_def info buf Let_def split: if_splits)
  with h show "ret \<le> 0" "\<exists>a'. alloc = Some a' \<and> held k (calls a') =
      (if ret = 0 then buffer_res (ad_fd data') (ad_ion_handle data') else {#}) + held k (calls a)"
    by simp_all
qed

lemma AllocateMem_returns: "\<exists>ret data' a'. AllocateMem cfg k (Some a) data p c = Inr (ret, data', Some a')"
  by (simp add: AllocateMem_def Let_def split: prod.splits)

lemma acquire_mem_held:
  assumes "acquire_mem cfg k (data, p, c) a = (r, a')"
  shows "held k (calls a') = (case r of Some (fd, h) \<Rightarrow> buffer_res fd h | None \<Rightarrow> {#}) + held k (calls a)"
proof -
  obtain ret data' a1 where m: "AllocateMem cfg k (Some a) data p c = Inr (ret, data', Some a1)"
    using AllocateMem_returns by blast
  show ?thesis
    using assms AllocateMem_held(2) [OF m] by (auto simp: acquire_mem_def m split: if_splits)
qed

interpretation ion: resource_pool "\<lambda>a. held k (calls a)" "\<lambda>(fd, h). buffer_res fd h"
  "acquire_mem cfg k" "release_mem k"
proof
  show "held k (calls t) = (case r of (fd, h) \<Rightarrow> buffer_res fd h) + held k (calls s)"
    if "acquire_mem cfg k q s = (Some r, t)" for q s r t
    using that acquire_mem_held [of cfg k "fst q" "fst (snd q)" "snd (snd q)"] by simp
  show "held k (calls t) = held k (calls s)" if "acquire_mem cfg k q s = (None, t)" for q s t
    using that acquire_mem_held [of cfg k "fst q" "fst (snd q)" "snd (snd q)"] by simp
qed (simp add: release_mem_def Ion_FreeBuffer_held split: prod.splits)

text \<open>
  C16: An allocation that fails, at either driver call, holds no more driver handles and
  descriptors than before; one that succeeds and is freed later, mapped or not, gives back
  exactly what it took.
\<close>

theorem allocation_balance:
  assumes "AllocateMem cfg k (Some a) data p c = Inr (ret, data', Some a')"
  shows "(if ret = 0
    then \<forall>base sz. held k (calls (snd (Ion_FreeBuffer k a' base sz 0 (ad_fd data') (ad_ion_handle data')))) =
      held k (calls a)
    else ret < 0 \<and> held k (calls a') = held k (calls a))"
proof (cases "ret = 0")
  case True
  then have "acquire_mem cfg k (data, p, c) a = (Some (ad_fd data', ad_ion_handle data'), a')"
    using assms by (simp add: acquire_mem_def)
  then have "held k (calls (release_mem k (base, sz) (ad_fd data', ad_ion_handle data') a')) =
      held k (calls a)" for base sz
    by (rule ion.round_trip)
  then show ?thesis using True by (simp add: release_mem_def)
next
  case False
  then have "acquire_mem cfg k (data, p, c) a = (None, a')"
    using assms by (simp add: acquire_mem_def)
  then show ?thesis
    using ion.acquire_fails [of cfg k "(data, p, c)" a a'] False AllocateMem_held(1) [OF assms] by simp
qed

theorem allocation_balance_witness:
  "\<exists>data' a'. AllocateMem cfg0 kernel0 (Some (IonAlloc_new [])) (AllocData_new\<lparr>ad_size := 4096\<rparr>) {} {} =
      Inr (0, data', Some a') \<and> ad_ion_handle data' = 1 \<and> ad_fd data' = 2 \<and>
    held kernel0 (calls (snd (Ion_FreeBuffer kernel0 a' 65536 4096 0 2 1))) = {#}"
proof -
  obtain data' a' where m: "AllocateMem cfg0 kernel0 (Some (IonAlloc_new []))
      (AllocData_new\<lparr>ad_size := 4096\<rparr>) {} {} = Inr (0, data', Some a')"
    and "ad_ion_handle data' = 1" "ad_fd data' = 2"
    by (simp add: AllocateMem_def GetIonHeapInfo_def AllocBuffer_def kernel0_def IonAlloc_new_def
        Let_def has_flag_def split: if_splits)
  then show ?thesis
    using allocation_balance [OF m] by (auto simp: IonAlloc_new_def)
qed

subsection \<open>Protected memory\<close>

lemma GetIonHeapInfo_cases:
  assumes "GetIonHeapInfo cfg p c = (heap, ty, fl)"
  shows "fl \<in> (if PRODUCER_PROTECTED \<in> p
      then {ION_SD_FLAGS cfg, ION_SC_FLAGS cfg, ION_SC_PREVIEW_FLAGS cfg, ION_CP_FLAGS cfg} else {0})"
    and "ty = (if has_flag fl (ION_SECURE cfg) then PRIV_FLAGS_SECURE_BUFFER else 0)"
  using assms by (auto simp: GetIonHeapInfo_def Let_def split: if_splits prod.splits)

lemma has_flag_or: "has_flag (x OR y) m \<longleftrightarrow> has_flag x m \<or> has_flag y m"
  by (simp add: has_flag_def bit.conj_disj_distrib2 or_eq_0_iff)

text \<open>
  C24: The memory asked of the driver is flagged secure exactly when the producer usage is
  protected, it is then never cached, and the handle flags computed for the allocation say so;
  for an unprotected usage the only flag passed is the one for caching.
\<close>

theorem secure_iff_protected:
  assumes "ION_SECURE cfg \<noteq> 0" "ION_FLAG_CACHED cfg AND ION_SECURE cfg = 0"
    and "AllocateMem cfg k (Some a) data p c = Inr (ret, data', Some a')"
  shows "\<exists>heap fl. Ion_alloc (ad_size data) (ad_align data) heap fl \<in> set (calls a') \<and>
    (has_flag fl (ION_SECURE cfg) \<longleftrightarrow> PRODUCER_PROTECTED \<in> p) \<and>
    (PRODUCER_PROTECTED \<in> p \<longrightarrow> fl \<in> {ION_SD_FLAGS cfg, ION_SC_FLAGS cfg, ION_SC_PREVIEW_FLAGS cfg, ION_CP_FLAGS cfg}) \<and>
    (PRODUCER_PROTECTED \<notin> p \<longrightarrow> fl = (if UseUncached p c then 0 else ION_FLAG_CACHED cfg)) \<and>
    (has_flag (ad_alloc_type data') PRIV_FLAGS_SECURE_BUFFER \<longleftrightarrow> PRODUCER_PROTECTED \<in> p)"
proof -
  obtain heap ty fl where info: "GetIonHeapInfo cfg p c = (heap, ty, fl)"
    using prod_cases3 by blast
  note i = GetIonHeapInfo_cases [OF info]
  let ?u = "UseUncached p c"
  let ?fl = "fl OR (if ?u then 0 else ION_FLAG_CACHED cfg)"
  have sec: "has_flag fl (ION_SECURE cfg) \<longleftrightarrow> PRODUCER_PROTECTED \<in> p"
    using i(1) assms(1)
    by (auto simp: ION_SD_FLAGS_def ION_SC_FLAGS_def ION_SC_PREVIEW_FLAGS_def ION_CP_FLAGS_def
        has_flag_or has_flag_def [of "ION_SECURE cfg"] has_flag_def [of 0] split: if_splits)
  have "has_flag ?fl (ION_SECURE cfg) \<longleftrightarrow> has_flag fl (ION_SECURE cfg)"
    using assms(2) by (simp add: has_flag_or has_flag_def [of "ION_FLAG_CACHED cfg"] has_flag_def [of 0])
  moreover have "PRODUCER_PROTECTED \<in> p \<Longrightarrow> ?u" by (simp add: UseUncached_def)
  moreover have "Ion_alloc (ad_size data) (ad_align data) heap ?fl \<in> set (calls a')"
    "ad_alloc_type data' \<in> {ty, ty OR PRIV_FLAGS_USES_ION}"
    using assms(3) by (auto simp: AllocateMem_def info AllocBuffer_def Let_def split: if_splits prod.splits)
  moreover have "has_flag PRIV_FLAGS_SECURE_BUFFER PRIV_FLAGS_SECURE_BUFFER"
    "\<not> has_flag PRIV_FLAGS_USES_ION PRIV_FLAGS_SECURE_BUFFER"
    by (simp_all add: has_flag_def PRIV_FLAGS_SECURE_BUFFER_def PRIV_FLAGS_USES_ION_def)
  ultimately show ?thesis using i sec
    by (intro exI [of _ heap] exI [of _ ?fl]) (auto simp: has_flag_or has_flag_def [of 0] split: if_splits)
qed

theorem secure_iff_protected_witness:
  "\<exists>data' a' heap fl. AllocateMem cfg0 kernel0 (Some (IonAlloc_new [])) (AllocData_new\<lparr>ad_size := 4096\<rparr>)
      {PRODUCER_PROTECTED, PRODUCER_CPU_WRITE_OFTEN} {} = Inr (0, data', Some a') \<and>
    Ion_alloc 4096 1 heap fl \<in> set (calls a') \<and> has_flag fl (ION_SECURE cfg0) \<and>
    has_flag (ad_alloc_type data') PRIV_FLAGS_SECURE_BUFFER"
proof -
  obtain data' a' where m: "AllocateMem cfg0 kernel0 (Some (IonAlloc_new []))
      (AllocData_new\<lparr>ad_size := 4096\<rparr>) {PRODUCER_PROTECTED, PRODUCER_CPU_WRITE_OFTEN} {} =
      Inr (0, data', Some a')"
    by (simp add: AllocateMem_def GetIonHeapInfo_def AllocBuffer_def kernel0_def IonAlloc_new_def
        Let_def split: if_splits)
  have "ION_SECURE cfg0 \<noteq> 0" "ION_FLAG_CACHED cfg0 AND ION_SECURE cfg0 = 0"
    by (simp_all add: cfg0_def)
  from secure_iff_protected [OF this m] m show ?thesis
    by (auto simp: AllocData_new_def)
qed

subsection \<open>Sharing\<close>

lemma foldr_max_ge: "(b :: u32) \<le> foldr max xs b"
  by (induction xs) (auto simp: le_max_iff_disj)

lemma foldr_max_max: "foldr max xs (max a b) = max a (foldr max xs (b :: u32))"
  by (induction xs) (simp_all add: max.left_commute)

lemma largest_from_Cons:
  "largest_from i b m (x # xs) =
     (if b < x then largest_from (Suc i) x (int i) xs else largest_from (Suc i) b m xs)"
proof (cases "b < x")
  case True
  then have "foldr max (x # xs) b = foldr max xs x"
    using foldr_max_max [of xs x b] by (simp add: max_absorb1)
  then show ?thesis using True foldr_max_ge [of x xs] by (auto simp: largest_from_def Let_def)
next
  case False
  then have "foldr max (x # xs) b = foldr max xs b"
    using foldr_max_ge [of b xs] by (simp add: max_absorb2)
  then show ?thesis using False foldr_max_ge [of b xs] by (auto simp: largest_from_def Let_def)
qed

lemma share_loop_spec:
  assumes "i + length ds \<le> 2 ^ 31"
  shows "share_loop cfg env prev i ds b m = (True, r) \<longleftrightarrow>
    (\<forall>d \<in> set ds. GetIonHeapInfo cfg (d_producer_usage d) (d_consumer_usage d) =
      (if i = 0 then GetIonHeapInfo cfg (d_producer_usage (hd ds)) (d_consumer_usage (hd ds)) else prev)) \<and>
    r = largest_from i b m (map (desc_size env) ds)"
  using assms
proof (induction ds arbitrary: prev i b m)
  case Nil
  then show ?case by (auto simp: largest_from_def)
next
  case (Cons d ds)
  have "wrap32 (int i) = int i" using Cons.prems by (intro wrap32_id) simp_all
  moreover have "share_loop cfg env prev (Suc i) ds b m = (True, r) \<longleftrightarrow>
      (\<forall>d \<in> set ds. GetIonHeapInfo cfg (d_producer_usage d) (d_consumer_usage d) = prev) \<and>
      r = largest_from (Suc i) b m (map (desc_size env) ds)" for prev b m
    using Cons.IH [of "Suc i" prev b m] Cons.prems by simp
  ultimately show ?case
    by (cases "i = 0"; cases "b < desc_size env d") (auto simp: Let_def largest_from_Cons)
qed



end
