(* ===== verification/Gr_BufMgr.thy ===== *)
theory Gr_BufMgr
  imports Gr_Allocator "HOL-Library.AList"
begin

text \<open>
  The buffer manager: \<open>gralloc/gr_buf_mgr.cpp\<close> and \<open>gr_buf_mgr.h\<close>; the questions about a buffer that it
  answers are in \<open>Gr_Device\<close>.

  Handles live at addresses: clients name a buffer by the address of its \<open>private_handle_t\<close>,
  the map of registered buffers is keyed by it, and the manager deletes the object when the
  last reference goes.  \<open>heap\<close> holds the objects that exist, created by the manager or by its
  clients; reading at an address where there is none is a fault.  \<open>new\<close> returns the lowest
  free address, so that addresses are reused.  Each method runs under its lock and is one
  step; \<open>mgr_exec\<close> is one request, \<open>mgr_step\<close> a request of a client that keeps to the interface.

  Shown here: no sequence of such requests reads a deleted handle, and registered handles
  exist; the map implements reference counts; releasing the last reference gives back what the
  allocation took; a buffer locked for writing is cleaned from the cache when it is unlocked;
  a call with an unknown descriptor changes nothing.
\<close>

subsection \<open>State\<close>

datatype gralloc1_error =
    ERROR_NONE | BAD_DESCRIPTOR | BAD_HANDLE | BAD_VALUE | NOT_SHARED | NO_RESOURCES | UNDEFINED
  | UNSUPPORTED

type_synonym hptr = nat

record Buffer =
  buf_handle :: hptr
  ref_count :: int
  ion_handle_main :: int
  ion_handle_meta :: int

definition Buffer_new :: "hptr \<Rightarrow> int \<Rightarrow> int \<Rightarrow> Buffer" where
  "Buffer_new h ih_main ih_meta =
     \<lparr>buf_handle = h, ref_count = 1, ion_handle_main = ih_main, ion_handle_meta = ih_meta\<rparr>"

definition IncRef :: "Buffer \<Rightarrow> Buffer" where
  "IncRef buf = buf\<lparr>ref_count := wrap32 (ref_count buf + 1)\<rparr>"

definition DecRef :: "Buffer \<Rightarrow> bool \<times> Buffer" where
  "DecRef buf = (let n = wrap32 (ref_count buf - 1) in (n = 0, buf\<lparr>ref_count := n\<rparr>))"

record BufferManager =
  map_fb_mem :: bool
  mgr_alloc :: allocator
  handles_map :: "(hptr \<times> Buffer) list"
  descriptors_map :: "(u64 \<times> BufferDescriptor) list"
  next_id :: u64
  next_desc :: u64
  heap :: "(hptr \<times> private_handle) list"
  meta :: meta_mem

record mgr_env =
  cfg :: ion_cfg
  kern :: kernel
  gre :: gr_env
  sizeof_MetaData :: u32

definition prop_true :: "string option \<Rightarrow> bool" where
  "prop_true v = (case v of None \<Rightarrow> False
     | Some s \<Rightarrow> s \<noteq> [] \<and> (s = ''1'' \<or> map lower_char s = ''true''))"

definition BufferManager_new :: "mgr_env \<Rightarrow> string option \<Rightarrow> meta_mem \<Rightarrow> BufferManager" where
  "BufferManager_new E map_fb_prop m = \<lparr>map_fb_mem = prop_true map_fb_prop,
     mgr_alloc = snd (Allocator_Init (kern E) []), handles_map = [], descriptors_map = [],
     next_id = 0, next_desc = 1, heap = [], meta = m\<rparr>"

subsection \<open>Objects\<close>

definition deref :: "BufferManager \<Rightarrow> hptr \<Rightarrow> private_handle mem" where
  "deref b p = (if p = 0 then Inl NullDeref
     else case map_of (heap b) p of None \<Rightarrow> Inl OobRead | Some h \<Rightarrow> Inr h)"

definition new_addr :: "(hptr \<times> 'a) list \<Rightarrow> hptr" where
  "new_addr h = hd (filter (\<lambda>p. p \<notin> set (map fst h)) [1..<length h + 2])"

definition put_handle :: "hptr \<Rightarrow> private_handle \<Rightarrow> BufferManager \<Rightarrow> BufferManager" where
  "put_handle p h b = b\<lparr>heap := AList.update p h (heap b)\<rparr>"

definition delete_handle :: "hptr \<Rightarrow> BufferManager \<Rightarrow> BufferManager" where
  "delete_handle p b = b\<lparr>heap := AList.delete p (heap b)\<rparr>"

text \<open>A system call made by the manager itself.\<close>

definition mgr_sys :: "sys_call \<Rightarrow> BufferManager \<Rightarrow> BufferManager" where
  "mgr_sys c b = b\<lparr>mgr_alloc := map_option (sys c) (mgr_alloc b)\<rparr>"

definition mgr_reply :: "mgr_env \<Rightarrow> BufferManager \<Rightarrow> int" where
  "mgr_reply E b = (let cs = alloc_calls (mgr_alloc b)
     in if k_errno (kern E) cs = 0 then k_val (kern E) cs else -1)"

subsection \<open>Descriptors\<close>

definition CreateBufferDescriptor :: "BufferManager \<Rightarrow> gralloc1_error \<times> u64 \<times> BufferManager" where
  "CreateBufferDescriptor b =
     (let d = BufferDescriptor_new (next_desc b)
      in (ERROR_NONE, d_id d,
          b\<lparr>descriptors_map := (if map_of (descriptors_map b) (d_id d) = None
               then AList.update (d_id d) d (descriptors_map b) else descriptors_map b),
            next_desc := next_desc b + 1\<rparr>))"

definition DestroyBufferDescriptor :: "BufferManager \<Rightarrow> u64 \<Rightarrow> gralloc1_error \<times> BufferManager" where
  "DestroyBufferDescriptor b descriptor_id =
     (if map_of (descriptors_map b) descriptor_id = None then (BAD_DESCRIPTOR, b)
      else (ERROR_NONE, b\<lparr>descriptors_map := AList.delete descriptor_id (descriptors_map b)\<rparr>))"

definition CallBufferDescriptorFunction ::
    "BufferManager \<Rightarrow> u64 \<Rightarrow> (BufferDescriptor \<Rightarrow> BufferDescriptor) \<Rightarrow> gralloc1_error \<times> BufferManager" where
  "CallBufferDescriptorFunction b descriptor_id member_fun =
     (case map_of (descriptors_map b) descriptor_id of
        None \<Rightarrow> (BAD_DESCRIPTOR, b)
      | Some d \<Rightarrow> (ERROR_NONE,
          b\<lparr>descriptors_map := AList.update descriptor_id (member_fun d) (descriptors_map b)\<rparr>))"

subsection \<open>Registration\<close>

definition RegisterHandleLocked :: "BufferManager \<Rightarrow> hptr \<Rightarrow> int \<Rightarrow> int \<Rightarrow> BufferManager" where
  "RegisterHandleLocked b hnd ion_handle ion_handle_meta' =
     (if map_of (handles_map b) hnd = None
      then b\<lparr>handles_map := AList.update hnd (Buffer_new hnd ion_handle ion_handle_meta') (handles_map b)\<rparr>
      else b)"

definition GetBufferFromHandleLocked :: "BufferManager \<Rightarrow> hptr \<Rightarrow> Buffer option" where
  "GetBufferFromHandleLocked b hnd = map_of (handles_map b) hnd"

definition meta_size :: "mgr_env \<Rightarrow> u32" where
  "meta_size E = ALIGN (sizeof_MetaData E) (page_size (gre E))"

definition free_meta :: "mgr_env \<Rightarrow> allocator \<Rightarrow> Buffer \<Rightarrow> private_handle \<Rightarrow> int \<times> allocator" where
  "free_meta E al buf hnd =
     (if 0 \<le> hnd_fd_metadata hnd
      then Alloc_FreeBuffer (kern E) al (hnd_base_metadata hnd) (meta_size E)
        (hnd_offset_metadata hnd) (hnd_fd_metadata hnd) (ion_handle_meta buf)
      else (0, al))"

definition FreeBuffer :: "mgr_env \<Rightarrow> BufferManager \<Rightarrow> Buffer \<Rightarrow> (gralloc1_error \<times> BufferManager) mem" where
  "FreeBuffer E b buf = mbind (deref b (buf_handle buf)) (\<lambda>hnd.
     if \<not> validate (Some hnd) then Inr (BAD_HANDLE, b)
     else case Alloc_FreeBuffer (kern E) (mgr_alloc b) (hnd_base hnd) (hnd_size hnd) (hnd_offset hnd)
         (hnd_fd hnd) (ion_handle_main buf) of (err, al) \<Rightarrow>
       let b = b\<lparr>mgr_alloc := al\<rparr>
       in if err \<noteq> 0 then Inr (BAD_HANDLE, b)
          else case free_meta E al buf hnd of (err, al) \<Rightarrow>
            let b = b\<lparr>mgr_alloc := al\<rparr>
            in if err \<noteq> 0 then Inr (BAD_HANDLE, b)
               else Inr (ERROR_NONE,
                 if has_flag (hnd_flags hnd) PRIV_FLAGS_CLIENT_ALLOCATED
                 then put_handle (buf_handle buf) (hnd\<lparr>hnd_fd := -1, hnd_fd_metadata := -1\<rparr>) b
                 else delete_handle (buf_handle buf) b))"

definition import_meta :: "mgr_env \<Rightarrow> allocator \<Rightarrow> private_handle \<Rightarrow> int \<times> allocator" where
  "import_meta E al hnd =
     (if 0 \<le> hnd_fd_metadata hnd then Alloc_ImportBuffer (kern E) al (hnd_fd_metadata hnd)
      else (-1, al))"

definition ImportHandleLocked :: "mgr_env \<Rightarrow> BufferManager \<Rightarrow> hptr \<Rightarrow> (gralloc1_error \<times> BufferManager) mem" where
  "ImportHandleLocked E b p = (if p = 0 then Inr (BAD_HANDLE, b) else mbind (deref b p) (\<lambda>hnd.
     if \<not> validate (Some hnd) then Inr (BAD_HANDLE, b)
     else case Alloc_ImportBuffer (kern E) (mgr_alloc b) (hnd_fd hnd) of (ion_handle, al) \<Rightarrow>
       let b = b\<lparr>mgr_alloc := al\<rparr>
       in if ion_handle < 0 then Inr (BAD_HANDLE, b)
          else case import_meta E al hnd of (ion_handle_meta', al) \<Rightarrow>
            let b = b\<lparr>mgr_alloc := al\<rparr>
            in if 0 \<le> hnd_fd_metadata hnd \<and> ion_handle_meta' < 0
               then let b = b\<lparr>mgr_alloc := snd (Alloc_FreeBuffer (kern E) (mgr_alloc b) 0 (hnd_size hnd)
                          (hnd_offset hnd) (hnd_fd hnd) ion_handle)\<rparr>;
                        b = mgr_sys (Close_fd (hnd_fd_metadata hnd)) b
                    in Inr (BAD_HANDLE, put_handle p (hnd\<lparr>hnd_fd := -1, hnd_fd_metadata := -1\<rparr>) b)
               else let b = mgr_sys (Lseek_end (hnd_fd hnd)) b;
                        hnd = hnd\<lparr>hnd_size := UINT (mgr_reply E b), hnd_offset_metadata := 0,
                          hnd_base := 0, hnd_base_metadata := 0, hnd_gpuaddr := 0\<rparr>
                    in Inr (ERROR_NONE,
                         RegisterHandleLocked (put_handle p hnd b) p ion_handle ion_handle_meta')))"

definition RetainBuffer :: "mgr_env \<Rightarrow> BufferManager \<Rightarrow> hptr \<Rightarrow> (gralloc1_error \<times> BufferManager) mem" where
  "RetainBuffer E b hnd = (case GetBufferFromHandleLocked b hnd of
     Some buf \<Rightarrow> Inr (ERROR_NONE, b\<lparr>handles_map := AList.update hnd (IncRef buf) (handles_map b)\<rparr>)
   | None \<Rightarrow> ImportHandleLocked E b hnd)"

text \<open>The message for an unknown handle prints its \<open>id\<close>.\<close>

definition ReleaseBuffer :: "mgr_env \<Rightarrow> BufferManager \<Rightarrow> hptr \<Rightarrow> (gralloc1_error \<times> BufferManager) mem" where
  "ReleaseBuffer E b hnd = (case GetBufferFromHandleLocked b hnd of
     None \<Rightarrow> mbind (deref b hnd) (\<lambda>_. Inr (BAD_HANDLE, b))
   | Some buf \<Rightarrow> (case DecRef buf of (gone, buf) \<Rightarrow>
       if gone
       then mbind (FreeBuffer E (b\<lparr>handles_map := AList.delete hnd (handles_map b)\<rparr>) buf)
              (\<lambda>(_, b). Inr (ERROR_NONE, b))
       else Inr (ERROR_NONE, b\<lparr>handles_map := AList.update hnd buf (handles_map b)\<rparr>)))"

subsection \<open>Locking\<close>

definition MapBuffer :: "mgr_env \<Rightarrow> BufferManager \<Rightarrow> hptr \<Rightarrow> (gralloc1_error \<times> BufferManager) mem" where
  "MapBuffer E b p = mbind (deref b p) (\<lambda>hnd.
     case Alloc_MapBuffer (kern E) (mgr_alloc b) 0 (hnd_size hnd) (hnd_offset hnd) (hnd_fd hnd) of
       (err, base, al) \<Rightarrow>
         Inr (if err \<noteq> 0 then BAD_HANDLE else ERROR_NONE,
              put_handle p (hnd\<lparr>hnd_base := base\<rparr>) (b\<lparr>mgr_alloc := al\<rparr>)))"

text \<open>The cache invalidation of \<open>LockBuffer\<close>; the result is whether it failed.\<close>

definition lock_invalidate :: "mgr_env \<Rightarrow> BufferManager \<Rightarrow> Buffer \<Rightarrow> private_handle \<Rightarrow> usage \<Rightarrow> bool \<times> BufferManager" where
  "lock_invalidate E b buf hnd cons_usage =
     (if has_flag (hnd_flags hnd) PRIV_FLAGS_USES_ION \<and> has_flag (hnd_flags hnd) PRIV_FLAGS_CACHED \<and>
         (CONSUMER_CPU_READ \<in> cons_usage \<or> CONSUMER_CPU_READ_OFTEN \<in> cons_usage) \<and>
         has_flag (hnd_flags hnd) PRIV_FLAGS_NON_CPU_WRITER
      then case Alloc_CleanBuffer (kern E) (mgr_alloc b) (hnd_base hnd) (hnd_size hnd) (hnd_offset hnd)
             (ion_handle_main buf) CACHE_INVALIDATE of (err, al) \<Rightarrow> (err \<noteq> 0, b\<lparr>mgr_alloc := al\<rparr>)
      else (False, b))"

text \<open>What \<open>LockBuffer\<close> does once the buffer is mapped.\<close>

definition lock_mapped ::
    "mgr_env \<Rightarrow> BufferManager \<Rightarrow> hptr \<Rightarrow> Buffer \<Rightarrow> gralloc1_error \<Rightarrow> usage \<Rightarrow> usage \<Rightarrow>
     (gralloc1_error \<times> BufferManager) mem" where
  "lock_mapped E b p buf err prod_usage cons_usage = mbind (deref b p) (\<lambda>hnd.
     if err \<noteq> ERROR_NONE then Inr (err, b)
     else case lock_invalidate E b buf hnd cons_usage of (failed, b) \<Rightarrow>
       if failed then Inr (BAD_HANDLE, b)
       else Inr (ERROR_NONE,
         if CpuCanWrite prod_usage
         then put_handle p (hnd\<lparr>hnd_flags := hnd_flags hnd OR PRIV_FLAGS_NEEDS_FLUSH\<rparr>) b
         else b))"

definition LockBuffer ::
    "mgr_env \<Rightarrow> BufferManager \<Rightarrow> hptr \<Rightarrow> usage \<Rightarrow> usage \<Rightarrow> (gralloc1_error \<times> BufferManager) mem" where
  "LockBuffer E b p prod_usage cons_usage =
     (if \<not> CpuCanAccess prod_usage cons_usage then Inr (BAD_VALUE, b)
      else case GetBufferFromHandleLocked b p of
        None \<Rightarrow> Inr (BAD_HANDLE, b)
      | Some buf \<Rightarrow> mbind (deref b p) (\<lambda>hnd.
          mbind (if hnd_base hnd = 0 then MapBuffer E b p else Inr (ERROR_NONE, b)) (\<lambda>(err, b).
          lock_mapped E b p buf err prod_usage cons_usage)))"

definition UnlockBuffer :: "mgr_env \<Rightarrow> BufferManager \<Rightarrow> hptr \<Rightarrow> (gralloc1_error \<times> BufferManager) mem" where
  "UnlockBuffer E b p = (case GetBufferFromHandleLocked b p of
     None \<Rightarrow> Inr (BAD_HANDLE, b)
   | Some buf \<Rightarrow> mbind (deref b p) (\<lambda>hnd.
       if has_flag (hnd_flags hnd) PRIV_FLAGS_NEEDS_FLUSH
       then case Alloc_CleanBuffer (kern E) (mgr_alloc b) (hnd_base hnd) (hnd_size hnd) (hnd_offset hnd)
           (ion_handle_main buf) CACHE_CLEAN of (err, al) \<Rightarrow>
         Inr (if err \<noteq> 0 then BAD_HANDLE else ERROR_NONE,
              put_handle p (hnd\<lparr>hnd_flags := hnd_flags hnd AND NOT PRIV_FLAGS_NEEDS_FLUSH\<rparr>)
                (b\<lparr>mgr_alloc := al\<rparr>))
       else Inr (ERROR_NONE, b)))"

subsection \<open>Allocation\<close>

definition mgr_GetDataAlignment :: "mgr_env \<Rightarrow> hal_format \<Rightarrow> usage \<Rightarrow> usage \<Rightarrow> u32" where
  "mgr_GetDataAlignment E format prod_usage cons_usage =
     (let align = (if format = YCbCr_420_SP_TILED then 8192 else page_size (gre E))
      in if PRODUCER_PROTECTED \<in> prod_usage
         then if PRODUCER_CAMERA \<in> prod_usage \<or> CONSUMER_SECURE_DISPLAY \<in> cons_usage
              then SZ_2M else SECURE_ALIGN (gre E)
         else align)"

definition flag_if :: "bool \<Rightarrow> u32 \<Rightarrow> u32" where
  "flag_if c m = (if c then m else 0)"

definition GetHandleFlags :: "mgr_env \<Rightarrow> hal_format \<Rightarrow> usage \<Rightarrow> usage \<Rightarrow> u32" where
  "GetHandleFlags E format prod_usage cons_usage =
     flag_if (CONSUMER_EXTERNAL_ONLY \<in> cons_usage) PRIV_FLAGS_EXTERNAL_ONLY OR
     flag_if (CONSUMER_INTERNAL_ONLY \<in> cons_usage) PRIV_FLAGS_INTERNAL_ONLY OR
     flag_if (CONSUMER_VIDEO_ENCODER \<in> cons_usage) PRIV_FLAGS_VIDEO_ENCODER OR
     flag_if (PRODUCER_CAMERA \<in> prod_usage) PRIV_FLAGS_CAMERA_WRITE OR
     flag_if (CONSUMER_CAMERA \<in> prod_usage) PRIV_FLAGS_CAMERA_READ OR
     flag_if (CONSUMER_HWCOMPOSER \<in> cons_usage) PRIV_FLAGS_HW_COMPOSER OR
     flag_if (CONSUMER_GPU_TEXTURE \<in> prod_usage) PRIV_FLAGS_HW_TEXTURE OR
     flag_if (CONSUMER_SECURE_DISPLAY \<in> cons_usage) PRIV_FLAGS_SECURE_DISPLAY OR
     flag_if (IsUBwcEnabled (gpu (gre E)) format prod_usage cons_usage) PRIV_FLAGS_UBWC_ALIGNED OR
     flag_if (PRODUCER_CPU_READ \<in> prod_usage \<or> PRODUCER_CPU_WRITE \<in> prod_usage) PRIV_FLAGS_CPU_RENDERED OR
     flag_if (CONSUMER_VIDEO_ENCODER \<in> cons_usage \<or> CONSUMER_CLIENT_TARGET \<in> cons_usage \<or>
       PRODUCER_CAMERA \<in> prod_usage \<or> PRODUCER_GPU_RENDER_TARGET \<in> prod_usage) PRIV_FLAGS_NON_CPU_WRITER OR
     flag_if (CONSUMER_HWCOMPOSER \<in> cons_usage) PRIV_FLAGS_DISP_CONSUMER OR
     flag_if (\<not> UseUncached prod_usage cons_usage) PRIV_FLAGS_CACHED"

definition BUFFER_TYPE_UI :: int where
  "BUFFER_TYPE_UI = 0"

definition BUFFER_TYPE_VIDEO :: int where
  "BUFFER_TYPE_VIDEO = 1"

definition GetBufferType :: "hal_format \<Rightarrow> int" where
  "GetBufferType inputFormat = (if IsUncompressedRGBFormat inputFormat then BUFFER_TYPE_UI else BUFFER_TYPE_VIDEO)"

datatype alloc_result = Alloc_ok hptr | Alloc_inval | Alloc_unsupported | Alloc_err int

definition main_request :: "mgr_env \<Rightarrow> BufferDescriptor \<Rightarrow> u32 \<Rightarrow> (u32 \<times> u32) \<times> AllocData" where
  "main_request E d bufferSize =
     (case GetBufferSizeAndDimensions (gre E)
         ((GetBufferInfo d)\<lparr>info_layer_count := SINT (d_layer_count d)\<rparr>) of
        (sz, alignedw, alignedh) \<Rightarrow>
          ((alignedw, alignedh),
           AllocData_new\<lparr>ad_align := mgr_GetDataAlignment E (d_format d) (d_producer_usage d) (d_consumer_usage d),
             ad_size := if sz \<le> bufferSize then bufferSize else sz,
             ad_uncached := UseUncached (d_producer_usage d) (d_consumer_usage d)\<rparr>))"

definition meta_request :: "mgr_env \<Rightarrow> AllocData" where
  "meta_request E = AllocData_new\<lparr>ad_size := meta_size E, ad_align := page_size (gre E)\<rparr>"

text \<open>The part of \<open>AllocateBuffer\<close> that runs once both allocations have succeeded.\<close>

definition create_handle ::
    "mgr_env \<Rightarrow> BufferManager \<Rightarrow> BufferDescriptor \<Rightarrow> u32 \<times> u32 \<Rightarrow> AllocData \<Rightarrow> AllocData \<Rightarrow> hptr \<times> BufferManager" where
  "create_handle E b d dims data e_data =
     (let fl = GetHandleFlags E (d_format d) (d_producer_usage d) (d_consumer_usage d) OR ad_alloc_type data;
          buffer_type = GetBufferType (GetImplDefinedFormat (cfg E) (d_producer_usage d)
            (d_consumer_usage d) (d_format d));
          hnd = (private_handle_t (ad_fd data) (ad_fd e_data) fl (SINT (fst dims)) (SINT (snd dims))
            (d_width d) (d_height d) (d_format d) buffer_type (ad_size data)
            (d_producer_usage d) (d_consumer_usage d))
            \<lparr>hnd_id := next_id b + 1, hnd_base := 0, hnd_base_metadata := 0,
             hnd_layer_count := d_layer_count d\<rparr>;
          p = new_addr (heap b);
          b = b\<lparr>next_id := next_id b + 1\<rparr>
      in case setMetaData (meta b) hnd (P_COLOR_SPACE ITU_R_601) of (_, m, hnd) \<Rightarrow>
           (p, RegisterHandleLocked (put_handle p hnd (b\<lparr>meta := m\<rparr>)) p
                 (ad_ion_handle data) (ad_ion_handle e_data)))"

definition AllocateBuffer ::
    "mgr_env \<Rightarrow> BufferManager \<Rightarrow> BufferDescriptor \<Rightarrow> bool \<Rightarrow> u32 \<Rightarrow> (alloc_result \<times> BufferManager) mem" where
  "AllocateBuffer E b d has_out bufferSize =
     (let prod_usage = d_producer_usage d; cons_usage = d_consumer_usage d
      in if \<not> has_out then Inr (Alloc_inval, b)
         else if CONSUMER_SECURE_DISPLAY \<notin> prod_usage \<and> \<not> IsGPUSupportedHwBuffer (gpu (gre E)) prod_usage
         then Inr (Alloc_unsupported, b)
         else case main_request E d bufferSize of (dims, data) \<Rightarrow>
           mbind (AllocateMem (cfg E) (kern E) (mgr_alloc b) data prod_usage cons_usage) (\<lambda>(err, data, al).
           let b = b\<lparr>mgr_alloc := al\<rparr>
           in if err \<noteq> 0 then Inr (Alloc_err err, b)
              else mbind (AllocateMem (cfg E) (kern E) (mgr_alloc b) (meta_request E) {} {}) (\<lambda>(err, e_data, al).
                let b = b\<lparr>mgr_alloc := al\<rparr>
                in if err \<noteq> 0 then Inr (Alloc_err err, b)
                   else case create_handle E b d dims data e_data of (p, b) \<Rightarrow> Inr (Alloc_ok p, b))))"

definition CreateSharedHandle ::
    "mgr_env \<Rightarrow> BufferManager \<Rightarrow> hptr \<Rightarrow> BufferDescriptor \<Rightarrow> (hptr \<times> BufferManager) mem" where
  "CreateSharedHandle E b inbuffer d = mbind (deref b inbuffer) (\<lambda>input.
     case GetAlignedWidthAndHeight (gre E) (GetBufferInfo d) of (alignedw, alignedh) \<Rightarrow>
     let fl = GetHandleFlags E (d_format d) (d_producer_usage d) (d_consumer_usage d);
         b1 = mgr_sys (Dup (hnd_fd input)) b;
         b2 = mgr_sys (Dup (hnd_fd_metadata input)) b1;
         out_hnd = (private_handle_t (mgr_reply E b1) (mgr_reply E b2) fl (SINT alignedw) (SINT alignedh)
           (d_width d) (d_height d) (d_format d) (GetBufferType (d_format d)) (hnd_size input)
           (d_producer_usage d) (d_consumer_usage d))\<lparr>hnd_id := next_id b2 + 1\<rparr>;
         p = new_addr (heap b2);
         b3 = put_handle p out_hnd (b2\<lparr>next_id := next_id b2 + 1\<rparr>)
     in Inr (p, RegisterHandleLocked b3 p (-1) (-1)))"

fun resolve_formats :: "mgr_env \<Rightarrow> u64 list \<Rightarrow> BufferManager \<Rightarrow> BufferManager" where
  "resolve_formats E [] b = b"
| "resolve_formats E (i # is) b =
     resolve_formats E is (snd (CallBufferDescriptorFunction b i (\<lambda>d.
       d\<lparr>d_format := GetImplDefinedFormat (cfg E) (d_producer_usage d) (d_consumer_usage d) (d_format d)\<rparr>)))"

fun share_each ::
    "mgr_env \<Rightarrow> BufferManager \<Rightarrow> hptr \<Rightarrow> int \<Rightarrow> int \<Rightarrow> BufferDescriptor list \<Rightarrow> (hptr list \<times> BufferManager) mem" where
  "share_each E b main max_index i [] = Inr ([], b)"
| "share_each E b main max_index i (d # ds) =
     mbind (if i = max_index then Inr (main, b) else CreateSharedHandle E b main d) (\<lambda>(p, b).
     mbind (share_each E b main max_index (i + 1) ds) (\<lambda>(ps, b). Inr (p # ps, b)))"

fun allocate_each ::
    "mgr_env \<Rightarrow> BufferManager \<Rightarrow> BufferDescriptor list \<Rightarrow> (bool \<times> hptr list \<times> BufferManager) mem" where
  "allocate_each E b [] = Inr (True, [], b)"
| "allocate_each E b (d # ds) = mbind (AllocateBuffer E b d True 0) (\<lambda>(r, b). case r of
     Alloc_ok p \<Rightarrow> mbind (allocate_each E b ds) (\<lambda>(ok, ps, b). Inr (ok, p # ps, b))
   | _ \<Rightarrow> Inr (False, [], b))"

definition AllocateBuffers ::
    "mgr_env \<Rightarrow> BufferManager \<Rightarrow> u64 list \<Rightarrow> bool \<Rightarrow> (gralloc1_error \<times> hptr list \<times> BufferManager) mem" where
  "AllocateBuffers E b descriptor_ids has_out =
     (if \<not> list_all (\<lambda>i. map_of (descriptors_map b) i \<noteq> None) descriptor_ids
      then Inr (BAD_DESCRIPTOR, [], b)
      else
        let b = resolve_formats E descriptor_ids b;
            ds = map (\<lambda>i. the (map_of (descriptors_map b) i)) descriptor_ids;
            (shared, max_buf_index) = CheckForBufferSharing (cfg E) (gre E) ds
        in if \<not> has_out then Inr (if shared then NOT_SHARED else ERROR_NONE, [], b)
           else if shared \<and> 0 \<le> max_buf_index
           then mbind (AllocateBuffer E b (ds ! nat max_buf_index) True 0) (\<lambda>(r, b). case r of
               Alloc_ok p \<Rightarrow> mbind (share_each E b p max_buf_index 0 ds) (\<lambda>(ps, b). Inr (ERROR_NONE, ps, b))
             | _ \<Rightarrow> Inr (NO_RESOURCES, [], b))
           else mbind (allocate_each E b ds) (\<lambda>(ok, ps, b).
             if \<not> ok then Inr (NO_RESOURCES, ps, b)
             else Inr (if shared then ERROR_NONE else NOT_SHARED, ps, b)))"

subsection \<open>Requests\<close>

text \<open>
  A request to the manager, or an action of a client on handles of its own: unmarshalling a
  handle creates one, and a handle that is not registered may be deleted.
\<close>

datatype (plugins only: code size) mgr_op =
    Create
  | Destroy u64
  | Describe u64 "BufferDescriptor \<Rightarrow> BufferDescriptor"
  | Allocate "u64 list" bool
  | Allocate_one BufferDescriptor bool u32
  | Retain hptr
  | Release hptr
  | Lock hptr usage usage
  | Unlock hptr
  | Client_handle private_handle
  | Client_delete hptr

definition no_buffers :: "gralloc1_error \<times> BufferManager \<Rightarrow> gralloc1_error \<times> hptr list \<times> BufferManager" where
  "no_buffers r = (fst r, [], snd r)"

definition mgr_exec :: "mgr_env \<Rightarrow> BufferManager \<Rightarrow> mgr_op \<Rightarrow> (gralloc1_error \<times> hptr list \<times> BufferManager) mem" where
  "mgr_exec E b op = (case op of
     Create \<Rightarrow> (case CreateBufferDescriptor b of (r, _, b) \<Rightarrow> Inr (r, [], b))
   | Destroy i \<Rightarrow> Inr (no_buffers (DestroyBufferDescriptor b i))
   | Describe i f \<Rightarrow> Inr (no_buffers (CallBufferDescriptorFunction b i f))
   | Allocate ids has_out \<Rightarrow> AllocateBuffers E b ids has_out
   | Allocate_one d has_out sz \<Rightarrow> mbind (AllocateBuffer E b d has_out sz) (\<lambda>(r, b).
       Inr (ERROR_NONE, case r of Alloc_ok p \<Rightarrow> [p] | _ \<Rightarrow> [], b))
   | Retain p \<Rightarrow> mbind (RetainBuffer E b p) (\<lambda>r. Inr (no_buffers r))
   | Release p \<Rightarrow> mbind (ReleaseBuffer E b p) (\<lambda>r. Inr (no_buffers r))
   | Lock p prod_usage cons_usage \<Rightarrow> mbind (LockBuffer E b p prod_usage cons_usage) (\<lambda>r. Inr (no_buffers r))
   | Unlock p \<Rightarrow> mbind (UnlockBuffer E b p) (\<lambda>r. Inr (no_buffers r))
   | Client_handle h \<Rightarrow> Inr (ERROR_NONE, [], put_handle (new_addr (heap b)) h b)
   | Client_delete p \<Rightarrow> Inr (ERROR_NONE, [], delete_handle p b))"

text \<open>
  What the interface asks of clients: a handle that is handed in exists, unless it is null or
  registered; a registered handle is not deleted; there are fewer than \<open>2 ^ 31 - 1\<close> references
  to a buffer.
\<close>

definition client_ok :: "BufferManager \<Rightarrow> mgr_op \<Rightarrow> bool" where
  "client_ok b op = (case op of
     Retain p \<Rightarrow> (case map_of (handles_map b) p of
         Some buf \<Rightarrow> ref_count buf < 2 ^ 31 - 1
       | None \<Rightarrow> p = 0 \<or> map_of (heap b) p \<noteq> None)
   | Release p \<Rightarrow> map_of (handles_map b) p \<noteq> None \<or> map_of (heap b) p \<noteq> None
   | Client_delete p \<Rightarrow> map_of (handles_map b) p = None
   | _ \<Rightarrow> True)"

type_synonym mgr_label = "mgr_op \<times> gralloc1_error \<times> hptr list"

definition mgr_step :: "mgr_env \<Rightarrow> mgr_label \<Rightarrow> BufferManager \<Rightarrow> BufferManager \<Rightarrow> bool" where
  "mgr_step E l b b' = (case l of (op, r, ps) \<Rightarrow> client_ok b op \<and> mgr_exec E b op = Inr (r, ps, b'))"

text \<open>A run computed from the requests.\<close>

fun mgr_trace :: "mgr_env \<Rightarrow> BufferManager \<Rightarrow> mgr_op list \<Rightarrow> (mgr_label list \<times> BufferManager) mem" where
  "mgr_trace E b [] = Inr ([], b)"
| "mgr_trace E b (op # ops) =
     (if client_ok b op
      then mbind (mgr_exec E b op) (\<lambda>(r, ps, b).
        mbind (mgr_trace E b ops) (\<lambda>(ls, b). Inr ((op, r, ps) # ls, b)))
      else Inl Abort)"

definition E0 :: mgr_env where
  "E0 = \<lparr>cfg = cfg0, kern = kernel0, gre = env0, sizeof_MetaData = 512\<rparr>"

definition desc0 :: BufferDescriptor where
  "desc0 = BufferDescriptor_with 1 640 480 RGBA_8888 {PRODUCER_CPU_WRITE, PRODUCER_CPU_WRITE_OFTEN} {}"

definition ops0 :: "mgr_op list" where
  "ops0 = [Allocate_one desc0 True 0, Retain 1, Release 1, Lock 1 {PRODUCER_CPU_WRITE} {}, Unlock 1,
     Release 1, Unlock 1]"

definition ops1 :: "mgr_op list" where
  "ops1 = [Create, Create,
     Describe 1 (\<lambda>d. d\<lparr>d_width := 64, d_height := 64, d_format := RGB_565\<rparr>),
     Describe 2 (\<lambda>d. d\<lparr>d_width := 640, d_height := 480, d_format := YCbCr_420_888\<rparr>)]"

definition results0 :: "(gralloc1_error \<times> hptr list) list" where
  "results0 = [(ERROR_NONE, [1]), (ERROR_NONE, []), (ERROR_NONE, []), (ERROR_NONE, []), (ERROR_NONE, []),
     (ERROR_NONE, []), (BAD_HANDLE, [])]"

definition mgr_inv :: "BufferManager \<Rightarrow> bool" where
  "mgr_inv b \<longleftrightarrow> mgr_alloc b \<noteq> None \<and> map_of (heap b) 0 = None \<and>
     (\<forall>p buf. map_of (handles_map b) p = Some buf \<longrightarrow>
        buf_handle buf = p \<and> map_of (heap b) p \<noteq> None \<and> 1 \<le> ref_count buf \<and> ref_count buf < 2 ^ 31)"

subsection \<open>Reference counts\<close>

text \<open>The specification: the number of references to each handle, and what a request does to it.\<close>

definition refs :: "BufferManager \<Rightarrow> hptr \<Rightarrow> nat" where
  "refs b p = (case map_of (handles_map b) p of None \<Rightarrow> 0 | Some buf \<Rightarrow> nat (ref_count buf))"

definition first_refs :: "hptr list \<Rightarrow> (hptr \<Rightarrow> nat) \<Rightarrow> hptr \<Rightarrow> nat" where
  "first_refs ps f p = (if p \<in> set ps then 1 else f p)"

definition ref_step :: "mgr_label \<Rightarrow> (hptr \<Rightarrow> nat) \<Rightarrow> (hptr \<Rightarrow> nat) \<Rightarrow> bool" where
  "ref_step l f g = (case l of (op, r, ps) \<Rightarrow> (case op of
     Allocate _ _ \<Rightarrow> distinct ps \<and> list_all (\<lambda>p. f p = 0) ps \<and> g = first_refs ps f
   | Allocate_one _ _ _ \<Rightarrow> distinct ps \<and> list_all (\<lambda>p. f p = 0) ps \<and> g = first_refs ps f
   | Retain p \<Rightarrow> r = ERROR_NONE \<and> g = f(p := f p + 1) \<or> r = BAD_HANDLE \<and> f p = 0 \<and> g = f
   | Release p \<Rightarrow> (if 0 < f p then r = ERROR_NONE \<and> g = f(p := f p - 1) else r = BAD_HANDLE \<and> g = f)
   | Lock p _ _ \<Rightarrow> (f p = 0 \<longrightarrow> r \<noteq> ERROR_NONE) \<and> g = f
   | Unlock p \<Rightarrow> (f p = 0 \<longrightarrow> r = BAD_HANDLE) \<and> g = f
   | _ \<Rightarrow> g = f))"

definition ref_result :: "hptr \<Rightarrow> (hptr \<Rightarrow> nat) \<Rightarrow> gralloc1_error \<times> BufferManager \<Rightarrow> bool" where
  "ref_result p f = (\<lambda>(r, b'). mgr_inv b' \<and>
     (r = ERROR_NONE \<and> refs b' = f(p := f p + 1) \<or> r = BAD_HANDLE \<and> f p = 0 \<and> refs b' = f))"

definition shared_result :: "hptr \<Rightarrow> (hptr \<Rightarrow> nat) \<Rightarrow> bool \<Rightarrow> hptr list \<times> BufferManager \<Rightarrow> bool" where
  "shared_result main f has_main = (\<lambda>(ps, b'). mgr_inv b' \<and> distinct ps \<and> (main \<in> set ps \<longleftrightarrow> has_main) \<and>
     (\<forall>p \<in> set ps. p \<noteq> main \<longrightarrow> f p = 0) \<and> refs b' = first_refs (filter (\<lambda>p. p \<noteq> main) ps) f)"

text \<open>The handle \<open>create_handle\<close> registers.\<close>

definition fresh_handle :: "private_handle \<Rightarrow> AllocData \<Rightarrow> AllocData \<Rightarrow> bool" where
  "fresh_handle h data e_data \<longleftrightarrow> validate (Some h) \<and> hnd_fd h = ad_fd data \<and>
     hnd_fd_metadata h = ad_fd e_data \<and> hnd_base h = 0 \<and> hnd_offset h = 0 \<and> hnd_offset_metadata h = 0 \<and>
     \<not> has_flag (hnd_flags h) PRIV_FLAGS_CLIENT_ALLOCATED"

subsection \<open>The state of the manager\<close>

lemma new_addr_free:
  shows "map_of h (new_addr h) = None" "new_addr h \<noteq> 0"
proof -
  let ?xs = "filter (\<lambda>p. p \<notin> set (map fst h)) [1..<length h + 2]"
  have "?xs \<noteq> []"
  proof
    assume "?xs = []"
    then have "{1..<length h + 2} \<subseteq> set (map fst h)"
      unfolding filter_empty_conv set_upt by blast
    then have "card {1..<length h + 2} \<le> card (set (map fst h))" by (intro card_mono) simp_all
    also have "\<dots> \<le> length h" using card_length [of "map fst h"] by simp
    finally show False unfolding card_atLeastLessThan by linarith
  qed
  then have "new_addr h \<in> set ?xs" unfolding new_addr_def by (rule hd_in_set)
  then have "new_addr h \<notin> fst ` set h" "new_addr h \<in> {1..<length h + 2}"
    unfolding set_filter set_upt set_map by blast+
  then show "map_of h (new_addr h) = None" "new_addr h \<noteq> 0"
    by (simp_all add: map_of_eq_None_iff)
qed

lemma deref_Inr: "map_of (heap b) p = Some h \<Longrightarrow> p \<noteq> 0 \<Longrightarrow> deref b p = Inr h"
  by (simp add: deref_def)

lemma registered:
  assumes "mgr_inv b" "map_of (handles_map b) p = Some buf"
  obtains h where "map_of (heap b) p = Some h" "p \<noteq> 0" "deref b p = Inr h" "buf_handle buf = p"
    "1 \<le> ref_count buf" "ref_count buf < 2 ^ 31"
proof -
  from assms have *: "map_of (heap b) 0 = None" "buf_handle buf = p" "map_of (heap b) p \<noteq> None"
    "1 \<le> ref_count buf" "ref_count buf < 2 ^ 31"
    unfolding mgr_inv_def by blast+
  then obtain h where "map_of (heap b) p = Some h" "p \<noteq> 0"
    by (metis not_None_eq)
  with * that show ?thesis by (simp add: deref_Inr)
qed

lemma refs_0_iff: "mgr_inv b \<Longrightarrow> refs b p = 0 \<longleftrightarrow> map_of (handles_map b) p = None"
  by (cases "map_of (handles_map b) p") (auto simp: refs_def elim: registered)

lemma map_heap_simps [simp]:
  "map_of (heap (put_handle p h b)) = (map_of (heap b))(p \<mapsto> h)"
  "map_of (heap (delete_handle p b)) = (map_of (heap b))(p := None)"
  "handles_map (put_handle p h b) = handles_map b" "mgr_alloc (put_handle p h b) = mgr_alloc b"
  "handles_map (delete_handle p b) = handles_map b" "mgr_alloc (delete_handle p b) = mgr_alloc b"
  by (simp_all add: put_handle_def delete_handle_def update_conv' delete_conv')

lemma mgr_sys_simps [simp]:
  "heap (mgr_sys c b) = heap b" "handles_map (mgr_sys c b) = handles_map b"
  "mgr_alloc (mgr_sys c b) = map_option (sys c) (mgr_alloc b)"
  by (simp_all add: mgr_sys_def)

lemma mgr_frame:
  assumes "mgr_inv b" "handles_map b' = handles_map b" "mgr_alloc b' \<noteq> None"
    and "map_of (heap b') 0 = None"
    and "\<And>p. map_of (handles_map b) p \<noteq> None \<Longrightarrow> map_of (heap b') p \<noteq> None"
  shows "mgr_inv b'" "refs b' = refs b"
  using assms unfolding mgr_inv_def by (auto simp: refs_def fun_eq_iff)

lemma mgr_inv_alloc: "mgr_inv b \<Longrightarrow> \<exists>a. mgr_alloc b = Some a"
  by (simp add: mgr_inv_def)

lemma mgr_inv_null: "mgr_inv b \<Longrightarrow> map_of (heap b) 0 = None"
  by (simp add: mgr_inv_def)

lemma mgr_frame_alloc:
  assumes "mgr_inv b" "al \<noteq> None"
  shows "mgr_inv (b\<lparr>mgr_alloc := al\<rparr>)" "refs (b\<lparr>mgr_alloc := al\<rparr>) = refs b"
  using assms by (auto simp: mgr_inv_def refs_def fun_eq_iff)

lemma mgr_frame_put:
  assumes "mgr_inv b" "p \<noteq> 0"
  shows "mgr_inv (put_handle p h b)" "refs (put_handle p h b) = refs b"
  using assms by (auto simp: mgr_inv_def refs_def fun_eq_iff)

lemma mgr_frame_sys:
  assumes "mgr_inv b"
  shows "mgr_inv (mgr_sys c b)" "refs (mgr_sys c b) = refs b"
  using assms by (auto simp: mgr_inv_def refs_def fun_eq_iff)

lemma refs_fields [simp]:
  "refs (b\<lparr>next_id := i\<rparr>) = refs b" "refs (b\<lparr>meta := m\<rparr>) = refs b" "refs (b\<lparr>descriptors_map := ds\<rparr>) = refs b"
  "refs (b\<lparr>next_desc := j\<rparr>) = refs b"
  by (simp_all add: refs_def fun_eq_iff)

lemma mgr_inv_fields [simp]:
  "mgr_inv (b\<lparr>next_id := i\<rparr>) = mgr_inv b" "mgr_inv (b\<lparr>meta := m\<rparr>) = mgr_inv b"
  "mgr_inv (b\<lparr>descriptors_map := ds\<rparr>) = mgr_inv b" "mgr_inv (b\<lparr>next_desc := j\<rparr>) = mgr_inv b"
  by (simp_all add: mgr_inv_def)

lemma Register_refs:
  assumes "mgr_inv b" "refs b p = 0" "map_of (heap b) p \<noteq> None"
  shows "mgr_inv (RegisterHandleLocked b p i j)" "refs (RegisterHandleLocked b p i j) = (refs b)(p := 1)"
proof -
  have "map_of (handles_map b) p = None" using assms refs_0_iff by blast
  then show "mgr_inv (RegisterHandleLocked b p i j)"
    "refs (RegisterHandleLocked b p i j) = (refs b)(p := 1)"
    using assms
    by (auto simp: RegisterHandleLocked_def mgr_inv_def refs_def Buffer_new_def update_conv' fun_eq_iff)
qed

subsection \<open>The operations and the reference counts\<close>

lemma Alloc_keeps:
  "\<exists>e a'. Alloc_FreeBuffer k (Some a) base sz off fd h = (e, Some a')"
  "\<exists>e a'. Alloc_ImportBuffer k (Some a) fd = (e, Some a')"
  "\<exists>e a'. Alloc_CleanBuffer k (Some a) base sz off h op = (e, Some a')"
  "\<exists>e ad a'. Alloc_MapBuffer k (Some a) base sz off fd = (e, ad, Some a')"
  "\<exists>e a'. free_meta E (Some a) buf hnd = (e, Some a')"
  "\<exists>e a'. import_meta E (Some a) hnd = (e, Some a')"
  by (simp_all add: free_meta_def import_meta_def Alloc_FreeBuffer_def Alloc_ImportBuffer_def Alloc_CleanBuffer_def
      Alloc_MapBuffer_def split: prod.splits)

lemma delete_refs:
  assumes "mgr_inv b" "refs b p = 0"
  shows "mgr_inv (delete_handle p b)" "refs (delete_handle p b) = refs b"
proof -
  have "map_of (handles_map b) p = None" using assms refs_0_iff by blast
  then show "mgr_inv (delete_handle p b)" "refs (delete_handle p b) = refs b"
    using assms(1) by (auto simp: mgr_inv_def refs_def fun_eq_iff)
qed

lemma FreeBuffer_refs:
  assumes "mgr_inv b" "map_of (heap b) p = Some h" "buf_handle buf = p" "refs b p = 0"
  shows "ensures (FreeBuffer E b buf) (\<lambda>(r, b'). mgr_inv b' \<and> refs b' = refs b)"
proof -
  have p: "p \<noteq> 0" using mgr_inv_null [OF assms(1)] assms(2) by (cases "p = 0") simp_all
  obtain a where a: "mgr_alloc b = Some a" using mgr_inv_alloc [OF assms(1)] by blast
  obtain e1 a1 where f1: "Alloc_FreeBuffer (kern E) (Some a) (hnd_base h) (hnd_size h) (hnd_offset h)
      (hnd_fd h) (ion_handle_main buf) = (e1, Some a1)"
    using Alloc_keeps(1) by blast
  obtain e2 a2 where f2: "free_meta E (Some a1) buf h = (e2, Some a2)"
    using Alloc_keeps(5) by blast
  define b1 where "b1 = b\<lparr>mgr_alloc := Some a1\<rparr>"
  define b2 where "b2 = b\<lparr>mgr_alloc := Some a2\<rparr>"
  have inv: "mgr_inv b1" "refs b1 = refs b" "mgr_inv b2" "refs b2 = refs b"
    using mgr_frame_alloc [OF assms(1)] by (simp_all add: b1_def b2_def)
  have "FreeBuffer E b buf \<in> Inr ` {(BAD_HANDLE, b), (BAD_HANDLE, b1), (BAD_HANDLE, b2),
      (ERROR_NONE, put_handle p (h\<lparr>hnd_fd := -1, hnd_fd_metadata := -1\<rparr>) b2), (ERROR_NONE, delete_handle p b2)}"
    unfolding FreeBuffer_def
    by (simp add: assms(3) deref_Inr [OF assms(2) p] a f1 f2 b1_def b2_def Let_def)
  then show ?thesis
    using inv assms(1,4) mgr_frame_put [OF inv(3) p] delete_refs [OF inv(3), of p] by auto
qed

lemma ImportHandle_refs:
  assumes "mgr_inv b" "refs b p = 0" "p = 0 \<or> map_of (heap b) p \<noteq> None"
  shows "ensures (ImportHandleLocked E b p) (ref_result p (refs b))"
proof (cases "p = 0")
  case True
  then show ?thesis using assms(1,2) by (simp add: ImportHandleLocked_def ref_result_def)
next
  case False
  then obtain h where h: "map_of (heap b) p = Some h" using assms(3) by blast
  obtain a where a: "mgr_alloc b = Some a" using mgr_inv_alloc [OF assms(1)] by blast
  obtain e1 a1 where f1: "Alloc_ImportBuffer (kern E) (Some a) (hnd_fd h) = (e1, Some a1)"
    using Alloc_keeps(2) by blast
  obtain e2 a2 where f2: "import_meta E (Some a1) h = (e2, Some a2)"
    using Alloc_keeps(6) by blast
  obtain e3 a3 where f3: "Alloc_FreeBuffer (kern E) (Some a2) 0 (hnd_size h) (hnd_offset h) (hnd_fd h) e1 =
      (e3, Some a3)"
    using Alloc_keeps(1) by blast
  have al: "mgr_inv (b\<lparr>mgr_alloc := Some x\<rparr>)" "refs (b\<lparr>mgr_alloc := Some x\<rparr>) = refs b" for x
    using mgr_frame_alloc [OF assms(1)] by simp_all
  define b3 where "b3 = mgr_sys (Close_fd (hnd_fd_metadata h)) (b\<lparr>mgr_alloc := Some a3\<rparr>)"
  define b2 where "b2 = mgr_sys (Lseek_end (hnd_fd h)) (b\<lparr>mgr_alloc := Some a2\<rparr>)"
  have inv: "mgr_inv b2" "refs b2 = refs b" "mgr_inv b3" "refs b3 = refs b"
    using mgr_frame_sys al by (simp_all add: b2_def b3_def)
  have reg: "mgr_inv (RegisterHandleLocked (put_handle p hn b2) p i j)"
    "refs (RegisterHandleLocked (put_handle p hn b2) p i j) = (refs b)(p := 1)" for hn i j
    using Register_refs [of "put_handle p hn b2" p i j] mgr_frame_put [OF inv(1) False] inv(2) assms(2)
    by simp_all
  have "\<exists>hn hn' i j. ImportHandleLocked E b p \<in> Inr ` {(BAD_HANDLE, b), (BAD_HANDLE, b\<lparr>mgr_alloc := Some a1\<rparr>),
      (BAD_HANDLE, put_handle p hn b3), (ERROR_NONE, RegisterHandleLocked (put_handle p hn' b2) p i j)}"
    unfolding ImportHandleLocked_def
    by (auto simp: False deref_Inr [OF h False] a f1 f2 f3 b2_def b3_def Let_def)
  then show ?thesis
    using al inv assms(1,2) mgr_frame_put [OF inv(3) False] reg
    by (auto simp: ref_result_def)
qed

lemma RetainBuffer_refs:
  assumes "mgr_inv b" "client_ok b (Retain p)"
  shows "ensures (RetainBuffer E b p) (ref_result p (refs b))"
proof (cases "map_of (handles_map b) p")
  case None
  then show ?thesis
    using assms ImportHandle_refs [of b p E] refs_0_iff [of b p]
    by (simp add: RetainBuffer_def GetBufferFromHandleLocked_def client_ok_def)
next
  case (Some buf)
  obtain h where h: "map_of (heap b) p = Some h" "buf_handle buf = p" "1 \<le> ref_count buf"
    using registered [OF assms(1) Some] by blast
  have lim: "ref_count buf < 2 ^ 31 - 1" using assms(2) Some by (simp add: client_ok_def)
  then have w: "wrap32 (ref_count buf + 1) = ref_count buf + 1" using h(3) by (intro wrap32_id) simp_all
  let ?b = "b\<lparr>handles_map := AList.update p (IncRef buf) (handles_map b)\<rparr>"
  have "mgr_inv ?b"
    using assms(1) h lim w by (auto simp: mgr_inv_def update_conv' IncRef_def)
  moreover have "refs ?b = (refs b)(p := refs b p + 1)"
    using h(3) w Some by (auto simp: refs_def update_conv' IncRef_def fun_eq_iff)
  ultimately show ?thesis
    by (simp add: RetainBuffer_def GetBufferFromHandleLocked_def Some ref_result_def)
qed

lemma ReleaseBuffer_refs:
  assumes "mgr_inv b" "client_ok b (Release p)"
  shows "ensures (ReleaseBuffer E b p) (\<lambda>(r, b'). mgr_inv b' \<and>
    (if 0 < refs b p then r = ERROR_NONE \<and> refs b' = (refs b)(p := refs b p - 1)
     else r = BAD_HANDLE \<and> refs b' = refs b))"
proof (cases "map_of (handles_map b) p")
  case None
  then obtain h where h: "map_of (heap b) p = Some h" using assms(2) by (auto simp: client_ok_def)
  then have "p \<noteq> 0" using mgr_inv_null [OF assms(1)] by (cases "p = 0") simp_all
  then show ?thesis
    using None assms(1) h by (simp add: ReleaseBuffer_def GetBufferFromHandleLocked_def deref_Inr refs_def)
next
  case (Some buf)
  obtain h where h: "map_of (heap b) p = Some h" "buf_handle buf = p" "1 \<le> ref_count buf"
    "ref_count buf < 2 ^ 31"
    using registered [OF assms(1) Some] by blast
  then have w: "wrap32 (ref_count buf - 1) = ref_count buf - 1" by (intro wrap32_id) simp_all
  show ?thesis
  proof (cases "ref_count buf = 1")
    case True
    let ?b = "b\<lparr>handles_map := AList.delete p (handles_map b)\<rparr>"
    have inv: "mgr_inv ?b" "refs ?b = (refs b)(p := 0)"
      using assms(1) by (auto simp: mgr_inv_def refs_def delete_conv' fun_eq_iff)
    have "ensures (FreeBuffer E ?b (buf\<lparr>ref_count := 0\<rparr>)) (\<lambda>(r, b'). mgr_inv b' \<and> refs b' = refs ?b)"
      by (rule FreeBuffer_refs [where p = p and h = h]) (use inv h(1,2) in simp_all)
    then show ?thesis
      using True Some inv(2) w
      by (auto simp: ReleaseBuffer_def GetBufferFromHandleLocked_def DecRef_def refs_def
          intro!: ensures_mbind)
  next
    case False
    let ?b = "b\<lparr>handles_map := AList.update p (buf\<lparr>ref_count := ref_count buf - 1\<rparr>) (handles_map b)\<rparr>"
    have "2 \<le> ref_count buf" "ref_count buf - 1 < 2 ^ 31" using h(3,4) False by linarith+
    then have "mgr_inv ?b" "refs ?b = (refs b)(p := refs b p - 1)" "0 < refs b p"
      using assms(1) h Some by (auto simp: mgr_inv_def refs_def update_conv' fun_eq_iff)
    then show ?thesis
      using False w by (simp add: ReleaseBuffer_def GetBufferFromHandleLocked_def DecRef_def Some)
  qed
qed

lemma MapBuffer_refs:
  assumes "mgr_inv b" "map_of (heap b) p = Some h"
  shows "ensures (MapBuffer E b p) (\<lambda>(r, b'). mgr_inv b' \<and> refs b' = refs b \<and>
    handles_map b' = handles_map b \<and> (\<exists>base. map_of (heap b') p = Some (h\<lparr>hnd_base := base\<rparr>)))"
proof -
  have p: "p \<noteq> 0" using mgr_inv_null [OF assms(1)] assms(2) by (cases "p = 0") simp_all
  obtain a where a: "mgr_alloc b = Some a" using mgr_inv_alloc [OF assms(1)] by blast
  obtain e ad a' where m: "Alloc_MapBuffer (kern E) (Some a) 0 (hnd_size h) (hnd_offset h) (hnd_fd h) =
      (e, ad, Some a')"
    using Alloc_keeps(4) by blast
  have "mgr_inv (put_handle p hn (b\<lparr>mgr_alloc := Some a'\<rparr>))"
    "refs (put_handle p hn (b\<lparr>mgr_alloc := Some a'\<rparr>)) = refs b" for hn
    using mgr_frame_alloc [OF assms(1), of "Some a'"] mgr_frame_put p by simp_all
  then show ?thesis
    by (auto simp: MapBuffer_def deref_Inr [OF assms(2) p] a m)
qed

lemma lock_invalidate_refs:
  assumes "mgr_inv b" "lock_invalidate E b buf h c = (failed, b')"
  shows "mgr_inv b'" "refs b' = refs b" "heap b' = heap b" "handles_map b' = handles_map b"
proof -
  obtain a where a: "mgr_alloc b = Some a" using mgr_inv_alloc [OF assms(1)] by blast
  obtain e x where "Alloc_CleanBuffer (kern E) (Some a) (hnd_base h) (hnd_size h) (hnd_offset h)
      (ion_handle_main buf) CACHE_INVALIDATE = (e, Some x)"
    using Alloc_keeps(3) by blast
  then have "b' = b \<or> b' = b\<lparr>mgr_alloc := Some x\<rparr>"
    using assms(2) by (simp add: lock_invalidate_def a split: if_splits)
  then show "mgr_inv b'" "refs b' = refs b" "heap b' = heap b" "handles_map b' = handles_map b"
    using mgr_frame_alloc [OF assms(1), of "Some x"] assms(1) by auto
qed

lemma lock_mapped_refs:
  assumes "mgr_inv b" "map_of (heap b) p = Some h" "p \<noteq> 0"
  shows "ensures (lock_mapped E b p buf err pu cu) (\<lambda>(r, b'). mgr_inv b' \<and> refs b' = refs b)"
proof -
  obtain f b' where l: "lock_invalidate E b buf h cu = (f, b')" by fastforce
  note r = lock_invalidate_refs [OF assms(1) l]
  show ?thesis
    using assms(1) r mgr_frame_put [OF r(1) assms(3)]
    by (simp add: lock_mapped_def deref_Inr [OF assms(2,3)] l)
qed

lemma LockBuffer_refs:
  assumes "mgr_inv b"
  shows "ensures (LockBuffer E b p pu cu) (\<lambda>(r, b'). mgr_inv b' \<and> refs b' = refs b \<and>
    (refs b p = 0 \<longrightarrow> r \<noteq> ERROR_NONE))"
proof (cases "CpuCanAccess pu cu \<and> map_of (handles_map b) p \<noteq> None")
  case False
  then show ?thesis using assms by (auto simp: LockBuffer_def GetBufferFromHandleLocked_def)
next
  case True
  then obtain buf where buf: "map_of (handles_map b) p = Some buf" by blast
  obtain h where h: "map_of (heap b) p = Some h" "p \<noteq> 0"
    using registered [OF assms buf] by blast
  have refs: "refs b p \<noteq> 0" using refs_0_iff [OF assms] buf by simp
  have map: "ensures (if hnd_base h = 0 then MapBuffer E b p else Inr (ERROR_NONE, b)) (\<lambda>(r, b').
      mgr_inv b' \<and> refs b' = refs b \<and> (\<exists>base. map_of (heap b') p = Some (h\<lparr>hnd_base := base\<rparr>)))"
  proof (cases "hnd_base h = 0")
    case True
    then show ?thesis using MapBuffer_refs [OF assms h(1), of E] by (auto intro: ensures_mono)
  next
    case False
    have "\<exists>base. h = h\<lparr>hnd_base := base\<rparr>" by (rule exI [of _ "hnd_base h"]) simp
    with False assms h(1) show ?thesis by simp
  qed
  have "ensures (mbind (if hnd_base h = 0 then MapBuffer E b p else Inr (ERROR_NONE, b))
      (\<lambda>(err, b). lock_mapped E b p buf err pu cu)) (\<lambda>(r, b'). mgr_inv b' \<and> refs b' = refs b)"
  proof (rule ensures_mbind [OF map], clarify)
    fix err b1 base
    assume "mgr_inv b1" "refs b1 = refs b" "map_of (heap b1) p = Some (h\<lparr>hnd_base := base\<rparr>)"
    then show "ensures (lock_mapped E b1 p buf err pu cu) (\<lambda>(r, b'). mgr_inv b' \<and> refs b' = refs b)"
      using lock_mapped_refs [of b1 p _ E buf err pu cu] h(2) by simp
  qed
  then show ?thesis
    unfolding LockBuffer_def GetBufferFromHandleLocked_def buf
    using True refs by (simp add: deref_Inr [OF h])
qed

lemma UnlockBuffer_refs:
  assumes "mgr_inv b"
  shows "ensures (UnlockBuffer E b p) (\<lambda>(r, b'). mgr_inv b' \<and> refs b' = refs b \<and>
    (refs b p = 0 \<longrightarrow> r = BAD_HANDLE))"
proof (cases "map_of (handles_map b) p")
  case None
  then show ?thesis using assms by (simp add: UnlockBuffer_def GetBufferFromHandleLocked_def)
next
  case (Some buf)
  obtain h where h: "map_of (heap b) p = Some h" "p \<noteq> 0"
    using registered [OF assms Some] by blast
  obtain a where a: "mgr_alloc b = Some a" using mgr_inv_alloc [OF assms] by blast
  obtain e a' where c: "Alloc_CleanBuffer (kern E) (Some a) (hnd_base h) (hnd_size h) (hnd_offset h)
      (ion_handle_main buf) CACHE_CLEAN = (e, Some a')"
    using Alloc_keeps(3) by blast
  have "mgr_inv (put_handle p hn (b\<lparr>mgr_alloc := Some a'\<rparr>))"
    "refs (put_handle p hn (b\<lparr>mgr_alloc := Some a'\<rparr>)) = refs b" for hn
    using mgr_frame_alloc [OF assms, of "Some a'"] mgr_frame_put h(2) by simp_all
  then show ?thesis
    using assms refs_0_iff [OF assms, of p] Some
    by (simp add: UnlockBuffer_def GetBufferFromHandleLocked_def deref_Inr [OF h] a c)
qed

lemma new_addr_refs:
  assumes "mgr_inv b"
  shows "refs b (new_addr (heap b)) = 0"
proof (cases "map_of (handles_map b) (new_addr (heap b))")
  case (Some buf)
  then show ?thesis
    using registered [OF assms Some] new_addr_free(1) [of "heap b"] by (metis option.distinct(1))
qed (simp add: refs_def)

lemma register_new_refs:
  assumes "mgr_inv b" "p = new_addr (heap b)"
  shows "mgr_inv (RegisterHandleLocked (put_handle p h b) p i j)"
    and "refs (RegisterHandleLocked (put_handle p h b) p i j) = (refs b)(p := 1)"
  using Register_refs [of "put_handle p h b" p i j] mgr_frame_put [OF assms(1), of p h]
    new_addr_free(2) [of "heap b"] new_addr_refs [OF assms(1)] assms(2) by simp_all

lemma create_handle_refs:
  assumes "mgr_inv b" "create_handle E b d dims data e_data = (p, b')"
  shows "mgr_inv b'" "refs b p = 0" "refs b' = (refs b)(p := 1)"
proof -
  have "\<exists>h i m. p = new_addr (heap b) \<and>
      b' = RegisterHandleLocked (put_handle p h (b\<lparr>next_id := i, meta := m\<rparr>)) p
        (ad_ion_handle data) (ad_ion_handle e_data)"
    using assms(2) by (auto simp: create_handle_def Let_def split: prod.splits)
  then obtain h i m where b': "p = new_addr (heap b)"
    "b' = RegisterHandleLocked (put_handle p h (b\<lparr>next_id := i, meta := m\<rparr>)) p
       (ad_ion_handle data) (ad_ion_handle e_data)"
    by blast
  then show "mgr_inv b'" "refs b p = 0" "refs b' = (refs b)(p := 1)"
    using register_new_refs [of "b\<lparr>next_id := i, meta := m\<rparr>" p] assms(1) new_addr_refs [OF assms(1)]
    by simp_all
qed

lemma AllocateBuffer_refs:
  assumes "mgr_inv b"
  shows "ensures (AllocateBuffer E b d has_out sz) (\<lambda>(r, b'). mgr_inv b' \<and>
    (case r of Alloc_ok p \<Rightarrow> refs b p = 0 \<and> refs b' = (refs b)(p := 1) | _ \<Rightarrow> refs b' = refs b))"
proof -
  obtain a where a: "mgr_alloc b = Some a" using mgr_inv_alloc [OF assms] by blast
  obtain dims data where rq: "main_request E d sz = (dims, data)" by fastforce
  obtain e1 d1 a1 where m1: "AllocateMem (cfg E) (kern E) (Some a) data (d_producer_usage d)
      (d_consumer_usage d) = Inr (e1, d1, Some a1)"
    using AllocateMem_returns by blast
  obtain e2 d2 a2 where m2: "AllocateMem (cfg E) (kern E) (Some a1) (meta_request E) {} {} =
      Inr (e2, d2, Some a2)"
    using AllocateMem_returns by blast
  obtain p b' where c: "create_handle E (b\<lparr>mgr_alloc := Some a2\<rparr>) d dims d1 d2 = (p, b')" by fastforce
  have al: "mgr_inv (b\<lparr>mgr_alloc := Some x\<rparr>)" "refs (b\<lparr>mgr_alloc := Some x\<rparr>) = refs b" for x
    using mgr_frame_alloc [OF assms] by simp_all
  note cr = create_handle_refs [OF al(1) c]
  have "AllocateBuffer E b d has_out sz \<in> Inr ` {(Alloc_inval, b), (Alloc_unsupported, b),
      (Alloc_err e1, b\<lparr>mgr_alloc := Some a1\<rparr>), (Alloc_err e2, b\<lparr>mgr_alloc := Some a2\<rparr>), (Alloc_ok p, b')}"
    by (simp add: AllocateBuffer_def Let_def a rq m1 m2 c)
  then show ?thesis using assms al cr by auto
qed

lemma CreateSharedHandle_refs:
  assumes "mgr_inv b" "refs b main \<noteq> 0"
  shows "ensures (CreateSharedHandle E b main d) (\<lambda>(p, b').
    mgr_inv b' \<and> refs b p = 0 \<and> refs b' = (refs b)(p := 1))"
proof -
  obtain buf where "map_of (handles_map b) main = Some buf"
    using assms(2) refs_0_iff [OF assms(1), of main] by auto
  then obtain h where h: "map_of (heap b) main = Some h" "main \<noteq> 0"
    using registered [OF assms(1)] by blast
  define b2 where "b2 = mgr_sys (Dup (hnd_fd_metadata h)) (mgr_sys (Dup (hnd_fd h)) b)"
  have inv: "mgr_inv b2" "refs b2 = refs b"
    using mgr_frame_sys assms(1) by (simp_all add: b2_def)
  have hp: "new_addr (heap b2) = new_addr (heap b)" by (simp add: b2_def)
  have "\<exists>hn n. CreateSharedHandle E b main d = Inr (new_addr (heap b),
      RegisterHandleLocked (put_handle (new_addr (heap b)) hn (b2\<lparr>next_id := n\<rparr>)) (new_addr (heap b)) (-1) (-1))"
    by (auto simp: CreateSharedHandle_def deref_Inr [OF h] Let_def b2_def split: prod.split)
  then obtain hn n where "CreateSharedHandle E b main d = Inr (new_addr (heap b),
      RegisterHandleLocked (put_handle (new_addr (heap b)) hn (b2\<lparr>next_id := n\<rparr>)) (new_addr (heap b)) (-1) (-1))"
    by blast
  then show ?thesis
    using register_new_refs [of "b2\<lparr>next_id := n\<rparr>" "new_addr (heap b)" hn "-1" "-1"] inv hp
      new_addr_refs [OF assms(1)] by simp
qed

lemma first_refs_simps [simp]: "first_refs [] f = f" "first_refs [p] f = f(p := 1)"
  by (simp_all add: first_refs_def fun_eq_iff)

lemma first_refs_Cons:
  assumes "f p = 0" "g = f(p := 1)" "distinct ps" "list_all (\<lambda>q. g q = 0) ps"
  shows "distinct (p # ps)" "list_all (\<lambda>q. f q = 0) (p # ps)" "first_refs ps g = first_refs (p # ps) f"
proof -
  have p: "p \<notin> set ps" using assms(2,4) by (auto simp: list_all_iff)
  then have "f q = 0" if "q \<in> set ps" for q
    using assms(2,4) that by (auto simp: list_all_iff split: if_splits)
  with p assms show "distinct (p # ps)" "list_all (\<lambda>q. f q = 0) (p # ps)"
    by (simp_all add: list_all_iff)
  show "first_refs ps g = first_refs (p # ps) f"
    by (rule ext) (simp add: assms(2) first_refs_def)
qed

lemma allocate_each_refs:
  assumes "mgr_inv b"
  shows "ensures (allocate_each E b ds) (\<lambda>(ok, ps, b'). mgr_inv b' \<and> distinct ps \<and>
    list_all (\<lambda>p. refs b p = 0) ps \<and> refs b' = first_refs ps (refs b))"
  using assms
proof (induction ds arbitrary: b)
  case Nil
  then show ?case by (simp add: first_refs_def fun_eq_iff)
next
  case (Cons d ds)
  have "ensures (case r of Alloc_ok p \<Rightarrow> mbind (allocate_each E b1 ds) (\<lambda>(ok, ps, b). Inr (ok, p # ps, b))
       | _ \<Rightarrow> Inr (False, [], b1))
     (\<lambda>(ok, ps, b'). mgr_inv b' \<and> distinct ps \<and> list_all (\<lambda>p. refs b p = 0) ps \<and>
       refs b' = first_refs ps (refs b))"
    if "mgr_inv b1"
      "case r of Alloc_ok p \<Rightarrow> refs b p = 0 \<and> refs b1 = (refs b)(p := 1) | _ \<Rightarrow> refs b1 = refs b" for r b1
  proof (cases r)
    case (Alloc_ok p)
    then have f: "refs b p = 0" "refs b1 = (refs b)(p := 1)" using that(2) by simp_all
    show ?thesis
      unfolding Alloc_ok alloc_result.case
      by (rule ensures_mbind [OF Cons.IH [OF that(1)]]) (use first_refs_Cons [OF f] in auto)
  qed (use that in \<open>simp_all add: first_refs_def fun_eq_iff\<close>)
  note one = this
  show ?case
    unfolding allocate_each.simps
  proof (rule ensures_mbind [OF AllocateBuffer_refs [OF Cons.prems]])
    fix x
    assume "case x of (r, b') \<Rightarrow> mgr_inv b' \<and> (case r of
      Alloc_ok p \<Rightarrow> refs b p = 0 \<and> refs b' = (refs b)(p := 1) | _ \<Rightarrow> refs b' = refs b)"
    then show "ensures (case x of (r, b) \<Rightarrow> case r of
        Alloc_ok p \<Rightarrow> mbind (allocate_each E b ds) (\<lambda>(ok, ps, b). Inr (ok, p # ps, b))
      | _ \<Rightarrow> Inr (False, [], b))
      (\<lambda>(ok, ps, b'). mgr_inv b' \<and> distinct ps \<and> list_all (\<lambda>p. refs b p = 0) ps \<and>
        refs b' = first_refs ps (refs b))"
      unfolding case_prod_beta' by (elim conjE) (rule one [unfolded case_prod_beta'])
  qed
qed

lemma shared_result_Cons:
  assumes "shared_result main g has_main (ps, b')"
    and "if p = main then \<not> has_main \<and> g = f else f p = 0 \<and> g = f(p := 1)"
  shows "shared_result main f (p = main \<or> has_main) (p # ps, b')"
proof (cases "p = main")
  case True
  then show ?thesis using assms by (simp add: shared_result_def)
next
  case False
  then have f: "f p = 0" "g = f(p := 1)" using assms(2) by simp_all
  have s: "mgr_inv b'" "distinct ps" "main \<in> set ps \<longleftrightarrow> has_main" "\<forall>q \<in> set ps. q \<noteq> main \<longrightarrow> g q = 0"
    "refs b' = first_refs (filter (\<lambda>q. q \<noteq> main) ps) g"
    using assms(1) by (simp_all add: shared_result_def)
  let ?ps = "filter (\<lambda>q. q \<noteq> main) ps"
  have "list_all (\<lambda>q. g q = 0) ?ps" "distinct ?ps" using s(2,4) by (simp_all add: list_all_iff)
  note c = first_refs_Cons [OF f this(2,1)]
  have "p \<notin> set ps" using c(1) False by simp
  then show ?thesis
    using s(1-3,5) c False by (auto simp: shared_result_def list_all_iff)
qed

lemma share_each_refs:
  assumes "mgr_inv b" "refs b main \<noteq> 0"
  shows "ensures (share_each E b main mx i ds)
    (shared_result main (refs b) (i \<le> mx \<and> mx < i + int (length ds)))"
  using assms
proof (induction ds arbitrary: b i)
  case Nil
  then show ?case by (simp add: shared_result_def first_refs_def fun_eq_iff)
next
  case (Cons d ds)
  have first: "ensures (if i = mx then Inr (main, b) else CreateSharedHandle E b main d) (\<lambda>(p, b').
      mgr_inv b' \<and> refs b' main \<noteq> 0 \<and> (p = main \<longleftrightarrow> i = mx) \<and>
      (if i = mx then refs b' = refs b else refs b p = 0 \<and> refs b' = (refs b)(p := 1)))"
    using CreateSharedHandle_refs [OF Cons.prems, of E d] Cons.prems
    by (auto elim!: ensures_mono)
  show ?case
    unfolding share_each.simps
  proof (rule ensures_mbind [OF first], clarify)
    fix p b1
    assume b1: "mgr_inv b1" "0 < refs b1 main" and p: "p = main \<longleftrightarrow> i = mx"
      "if i = mx then refs b1 = refs b else refs b p = 0 \<and> refs b1 = (refs b)(p := 1)"
    have IH: "ensures (share_each E b1 main mx (i + 1) ds)
        (shared_result main (refs b1) (i + 1 \<le> mx \<and> mx < i + 1 + int (length ds)))"
      using b1 by (intro Cons.IH) simp_all
    have in_range: "(i \<le> mx \<and> mx < i + int (length (d # ds))) =
        (p = main \<or> i + 1 \<le> mx \<and> mx < i + 1 + int (length ds))"
      using p(1) by auto
    show "ensures (mbind (share_each E b1 main mx (i + 1) ds) (\<lambda>(ps, b). Inr (p # ps, b)))
        (shared_result main (refs b) (i \<le> mx \<and> mx < i + int (length (d # ds))))"
      unfolding in_range
    proof (rule ensures_mbind [OF IH], clarify)
      fix ps b2
      assume "shared_result main (refs b1) (i + 1 \<le> mx \<and> mx < i + 1 + int (length ds)) (ps, b2)"
      then have "shared_result main (refs b)
          (p = main \<or> i + 1 \<le> mx \<and> mx < i + 1 + int (length ds)) (p # ps, b2)"
        by (rule shared_result_Cons) (use p in auto)
      then show "ensures (Inr (p # ps, b2)) (shared_result main (refs b)
          (p = main \<or> i + 1 \<le> mx \<and> mx < i + 1 + int (length ds)))"
        by simp
    qed
  qed
qed

lemma resolve_formats_refs:
  "mgr_inv (resolve_formats E is b) = mgr_inv b \<and> refs (resolve_formats E is b) = refs b"
proof (induction "is" arbitrary: b)
  case (Cons i "is")
  have "\<exists>ds. snd (CallBufferDescriptorFunction b i f) = b\<lparr>descriptors_map := ds\<rparr>" for f
    by (rule exI [of _ "descriptors_map (snd (CallBufferDescriptorFunction b i f))"])
      (simp add: CallBufferDescriptorFunction_def split: option.splits)
  then obtain ds where "snd (CallBufferDescriptorFunction b i (\<lambda>d. d\<lparr>d_format :=
      GetImplDefinedFormat (cfg E) (d_producer_usage d) (d_consumer_usage d) (d_format d)\<rparr>)) =
      b\<lparr>descriptors_map := ds\<rparr>"
    by blast
  then show ?case by (simp add: Cons.IH)
qed simp

lemma wrap32_le: "0 \<le> x \<Longrightarrow> wrap32 x \<le> x"
  using zmod_le_nonneg_dividend [of "x + 2 ^ 31" "2 ^ 32"] by (simp add: wrap32_def)

lemma share_loop_index:
  "share_loop c env prev i ds b m = (s, r) \<Longrightarrow> r = m \<or> r < int (i + length ds)"
proof (induction ds arbitrary: prev i b m)
  case (Cons d ds)
  have "wrap32 (int i) < int (Suc i)" using wrap32_le [of "int i"] by simp
  then show ?case using Cons.prems Cons.IH [of _ "Suc i"]
    by (fastforce simp: Let_def split: if_splits)
qed simp

lemma AllocateBuffers_refs:
  assumes "mgr_inv b"
  shows "ensures (AllocateBuffers E b ids has_out) (\<lambda>(r, ps, b'). mgr_inv b' \<and> distinct ps \<and>
    list_all (\<lambda>p. refs b p = 0) ps \<and> refs b' = first_refs ps (refs b))"
proof -
  define b1 where "b1 = resolve_formats E ids b"
  define ds where "ds = map (\<lambda>i. the (map_of (descriptors_map b1) i)) ids"
  obtain sh mx where sh: "CheckForBufferSharing (cfg E) (gre E) ds = (sh, mx)" by fastforce
  have b1: "mgr_inv b1" "refs b1 = refs b"
    using resolve_formats_refs assms by (simp_all add: b1_def)
  have none: "first_refs [] f = f" for f by (simp add: first_refs_def fun_eq_iff)
  let ?Q = "\<lambda>(r, ps, b'). mgr_inv b' \<and> distinct ps \<and> list_all (\<lambda>p. refs b p = 0) ps \<and>
    refs b' = first_refs ps (refs b)"
  have each: "ensures (mbind (allocate_each E b1 ds) (\<lambda>(ok, ps, b).
      if \<not> ok then Inr (NO_RESOURCES, ps, b)
      else Inr (if sh then ERROR_NONE else NOT_SHARED, ps, b))) ?Q"
    by (rule ensures_mbind [OF allocate_each_refs [OF b1(1)]]) (auto simp: b1(2))
  have one: "ensures (mbind (share_each E b2 p mx 0 ds) (\<lambda>(ps, b). Inr (ERROR_NONE, ps, b))) ?Q"
    if "mgr_inv b2" "refs b p = 0" "refs b2 = (refs b)(p := 1)" "0 \<le> mx" for b2 p
  proof -
    have "mx < int (length ds)"
      using share_loop_index [of "cfg E" "gre E" "(0, 0, 0)" 0 ds 0 "-1"] sh that(4)
      by (auto simp: CheckForBufferSharing_def)
    then have "ensures (share_each E b2 p mx 0 ds) (shared_result p (refs b2) True)"
      using share_each_refs [of b2 p E mx 0 ds] that by simp
    then show ?thesis
    proof (rule ensures_mbind, clarify)
      fix ps b3
      assume s: "shared_result p (refs b2) True (ps, b3)"
      then have "first_refs (filter (\<lambda>q. q \<noteq> p) ps) (refs b2) = first_refs ps (refs b)"
        using that(3) by (auto simp: first_refs_def shared_result_def fun_eq_iff)
      then show "ensures (Inr (ERROR_NONE, ps, b3)) ?Q"
        using s that(2,3) by (auto simp: shared_result_def list_all_iff split: if_splits)
    qed
  qed
  have "ensures (mbind (AllocateBuffer E b1 d True 0) (\<lambda>(r, b). case r of
      Alloc_ok p \<Rightarrow> mbind (share_each E b p mx 0 ds) (\<lambda>(ps, b). Inr (ERROR_NONE, ps, b))
    | _ \<Rightarrow> Inr (NO_RESOURCES, [], b))) ?Q" if "0 \<le> mx" for d
    by (rule ensures_mbind [OF AllocateBuffer_refs [OF b1(1)]])
      (use one [OF _ _ _ that] in \<open>auto simp: b1(2) none split: alloc_result.splits\<close>)
  note shared = this
  let ?bad = "\<not> list_all (\<lambda>i. map_of (descriptors_map b) i \<noteq> None) ids"
  consider "?bad" | "\<not> ?bad" "\<not> has_out" | "\<not> ?bad" "has_out" "sh \<and> 0 \<le> mx"
    | "\<not> ?bad" "has_out" "\<not> (sh \<and> 0 \<le> mx)"
    by blast
  then show ?thesis
    by cases (use assms b1 each shared in \<open>simp_all only: AllocateBuffers_def Let_def b1_def [symmetric]
        ds_def [symmetric] sh case_prod_conv if_True if_False not_not simp_thms ensures_Inr none
        list.pred_inject(1) distinct.simps(1)\<close>)
qed

lemma no_buffers_ensures:
  "ensures m (\<lambda>(r, b'). Q r [] b') \<Longrightarrow> ensures (mbind m (\<lambda>r. Inr (no_buffers r))) (\<lambda>(r, ps, b'). Q r ps b')"
  by (erule ensures_mbind) (simp add: no_buffers_def case_prod_beta')

lemma mgr_exec_refs:
  assumes "mgr_inv b" "client_ok b op"
  shows "ensures (mgr_exec E b op) (\<lambda>(r, ps, b'). mgr_inv b' \<and> ref_step (op, r, ps) (refs b) (refs b'))"
proof (cases op)
  case (Allocate ids has_out)
  then show ?thesis
    using AllocateBuffers_refs [OF assms(1), of E ids has_out]
    by (auto simp: mgr_exec_def ref_step_def elim!: ensures_mono)
next
  case (Allocate_one d has_out sz)
  show ?thesis
    unfolding Allocate_one mgr_exec_def mgr_op.case
    by (rule ensures_mbind [OF AllocateBuffer_refs [OF assms(1)]])
      (auto simp: ref_step_def split: alloc_result.splits)
next
  case (Retain p)
  show ?thesis
    unfolding Retain mgr_exec_def mgr_op.case
    by (rule no_buffers_ensures, rule ensures_mono [OF RetainBuffer_refs [OF assms(1)]])
      (use assms(2) Retain in \<open>auto simp: ref_result_def ref_step_def\<close>)
next
  case (Release p)
  show ?thesis
    unfolding Release mgr_exec_def mgr_op.case
    by (rule no_buffers_ensures, rule ensures_mono [OF ReleaseBuffer_refs [OF assms(1)]])
      (use assms(2) Release in \<open>auto simp: ref_step_def split: if_splits\<close>)
next
  case (Lock p pu cu)
  show ?thesis
    unfolding Lock mgr_exec_def mgr_op.case
    by (rule no_buffers_ensures, rule ensures_mono [OF LockBuffer_refs [OF assms(1)]])
      (auto simp: ref_step_def)
next
  case (Unlock p)
  show ?thesis
    unfolding Unlock mgr_exec_def mgr_op.case
    by (rule no_buffers_ensures, rule ensures_mono [OF UnlockBuffer_refs [OF assms(1)]])
      (auto simp: ref_step_def)
next
  case (Client_handle h)
  then show ?thesis
    using mgr_frame_put [OF assms(1) new_addr_free(2) [of "heap b"]] by (simp add: mgr_exec_def ref_step_def)
next
  case (Client_delete p)
  then have "refs b p = 0" using assms refs_0_iff by (simp add: client_ok_def)
  then show ?thesis
    using delete_refs [OF assms(1)] Client_delete by (simp add: mgr_exec_def ref_step_def)
qed (use assms(1) in \<open>simp_all add: mgr_exec_def ref_step_def no_buffers_def CreateBufferDescriptor_def
      DestroyBufferDescriptor_def CallBufferDescriptorFunction_def Let_def split: option.splits\<close>)

interpretation mgr: forward_simulation "mgr_step E" "\<lambda>_. True" mgr_inv ref_step refs
proof
  fix l s t
  assume "mgr_step E l s t" "mgr_inv s"
  then obtain op r ps where "l = (op, r, ps)" "client_ok s op" "mgr_exec E s op = Inr (r, ps, t)"
    by (auto simp: mgr_step_def split: prod.splits)
  then show "mgr_inv t" "ref_step l (refs s) (refs t)"
    using mgr_exec_refs [OF \<open>mgr_inv s\<close>, of op E] by simp_all
qed

lemma BufferManager_new_inv: "mgr_inv (BufferManager_new E v m)"
  by (simp add: mgr_inv_def BufferManager_new_def Allocator_Init_def split: prod.splits)

lemma mgr_run_inv: "run (mgr_step E) (BufferManager_new E v m) ls b \<Longrightarrow> mgr_inv b"
  using mgr.inv_run [of E _ ls b] BufferManager_new_inv by (simp add: list_all_iff)

lemma mgr_trace_run: "mgr_trace E b ops = Inr (ls, b') \<Longrightarrow> run (mgr_step E) b ls b'"
proof (induction ops arbitrary: b ls)
  case (Cons op ops)
  then show ?case
    by (auto simp: mbind_eq_Inr_iff mgr_step_def split: if_splits intro!: run_Cons)
qed (simp add: run_Nil)

lemma trace0:
  "map_sum id (\<lambda>(ls, b). (map (\<lambda>(op, r, ps). (r, ps)) ls, map_of (handles_map b) 1 = None))
     (mgr_trace E0 (BufferManager_new E0 None mem0) ops0) = Inr (results0, True)"
  by code_simp

text \<open>
  C1: However allocations, imports, retains, releases, locks and unlocks are interleaved by
  clients that keep to the interface, the next request of such a client returns: the manager
  never reads through a null pointer or a deleted handle.  Every registered handle still exists
  and has between 1 and \<open>2 ^ 31 - 1\<close> references.
\<close>

theorem mgr_requests_safe:
  assumes "run (mgr_step E) (BufferManager_new E v m) ls b"
  shows "(client_ok b op \<longrightarrow> (\<exists>r ps b'. mgr_exec E b op = Inr (r, ps, b'))) \<and>
    (\<forall>p buf. map_of (handles_map b) p = Some buf \<longrightarrow>
      (\<exists>h. deref b p = Inr h) \<and> buf_handle buf = p \<and> 1 \<le> ref_count buf \<and> ref_count buf < 2 ^ 31)"
proof -
  note inv = mgr_run_inv [OF assms]
  have "\<exists>r ps b'. mgr_exec E b op = Inr (r, ps, b')" if "client_ok b op"
    using mgr_exec_refs [OF inv that, of E] by (auto simp: ensures_iff)
  then show ?thesis
    using registered [OF inv] by blast
qed

theorem mgr_requests_safe_witness:
  "\<exists>ls b r ps b'. run (mgr_step E0) (BufferManager_new E0 None mem0) ls b \<and> length ls = 7 \<and>
     mgr_exec E0 b (Client_delete 1) = Inr (r, ps, b')"
proof -
  obtain ls b where t: "mgr_trace E0 (BufferManager_new E0 None mem0) ops0 = Inr (ls, b)"
    "map (\<lambda>(op, r, ps). (r, ps)) ls = results0" "map_of (handles_map b) 1 = None"
    using trace0 by (cases "mgr_trace E0 (BufferManager_new E0 None mem0) ops0") auto
  have "length ls = 7" using arg_cong [OF t(2), of length] by (simp add: results0_def)
  moreover have "client_ok b (Client_delete 1)" using t(3) by (simp add: client_ok_def)
  ultimately show ?thesis
    using mgr_requests_safe [OF mgr_trace_run [OF t(1)]] mgr_trace_run [OF t(1)] by blast
qed

text \<open>
  C2: The map of registered buffers implements reference counting: on every run of the
  manager the numbers of references change as the specification \<open>ref_step\<close> says.  New buffers
  are distinct from all registered ones and start at one reference, a retain adds one or, for
  a handle that cannot be imported, changes nothing, a release takes one away and reports an
  unknown handle exactly when there was none, and no other request changes a count.
\<close>

theorem references_refined:
  assumes "run (mgr_step E) (BufferManager_new E v m) ls b"
  shows "run ref_step (\<lambda>_. 0) ls (refs b)"
proof -
  have "refs (BufferManager_new E v m) = (\<lambda>_. 0)"
    by (simp add: refs_def BufferManager_new_def fun_eq_iff)
  then show ?thesis
    using mgr.sim_run [OF assms] BufferManager_new_inv [of E v m] by (simp add: list_all_iff)
qed

theorem references_refined_witness:
  "\<exists>ls b. run (mgr_step E0) (BufferManager_new E0 None mem0) ls b \<and>
     map (\<lambda>(op, r, ps). (r, ps)) ls = results0 \<and> run ref_step (\<lambda>_. 0) ls (refs b)"
proof -
  obtain ls b where t: "mgr_trace E0 (BufferManager_new E0 None mem0) ops0 = Inr (ls, b)"
    "map (\<lambda>(op, r, ps). (r, ps)) ls = results0"
    using trace0 by (cases "mgr_trace E0 (BufferManager_new E0 None mem0) ops0") auto
  then show ?thesis
    using references_refined [OF mgr_trace_run [OF t(1)]] mgr_trace_run [OF t(1)] by blast
qed

subsection \<open>What a buffer holds\<close>

lemma AllocBuffer_fd:
  assumes "AllocBuffer c k a data = (ret, data', a')"
  shows "ad_alloc_type data' = ad_alloc_type data"
    and "ret = 0 \<Longrightarrow> \<exists>h cs. ad_fd data' = k_val k (Ion_map h # cs)"
proof -
  show "ad_alloc_type data' = ad_alloc_type data"
    using assms by (auto simp: AllocBuffer_def Let_def split: if_splits)
  assume "ret = 0"
  with assms have "ad_fd data' = k_val k (calls a') \<and> (\<exists>h cs. calls a' = Ion_map h # cs)"
    by (auto simp: AllocBuffer_def Let_def err_of_def split: if_splits)
  then show "\<exists>h cs. ad_fd data' = k_val k (Ion_map h # cs)" by metis
qed

lemma AllocateMem_ok:
  assumes "AllocateMem c k (Some a) data p q = Inr (0, data', Some a')"
  shows "\<exists>h cs. ad_fd data' = k_val k (Ion_map h # cs)"
    and "\<not> has_flag (ad_alloc_type data') PRIV_FLAGS_CLIENT_ALLOCATED"
proof -
  obtain hp ty fl where info: "GetIonHeapInfo c p q = (hp, ty, fl)" using prod_cases3 by blast
  let ?d = "data\<lparr>ad_uncached := UseUncached p q, ad_heap_id := hp, ad_alloc_type := ty, ad_flags := fl\<rparr>"
  obtain r d a1 where buf: "AllocBuffer c k a ?d = (r, d, a1)" using prod_cases3 by blast
  have d: "r = 0" "data' = d\<lparr>ad_alloc_type := ad_alloc_type d OR PRIV_FLAGS_USES_ION\<rparr>"
    using assms by (auto simp: AllocateMem_def info buf Let_def split: if_splits)
  show "\<exists>h cs. ad_fd data' = k_val k (Ion_map h # cs)"
    using AllocBuffer_fd(2) [OF buf d(1)] by (simp add: d(2))
  have "ty = 0 \<or> ty = PRIV_FLAGS_SECURE_BUFFER" using GetIonHeapInfo_cases(2) [OF info] by simp
  then show "\<not> has_flag (ad_alloc_type data') PRIV_FLAGS_CLIENT_ALLOCATED"
    using AllocBuffer_fd(1) [OF buf] d(2)
    by (auto simp: has_flag_or has_flag_def PRIV_FLAGS_CLIENT_ALLOCATED_def PRIV_FLAGS_USES_ION_def
        PRIV_FLAGS_SECURE_BUFFER_def)
qed

lemma GetHandleFlags_not_client: "\<not> has_flag (GetHandleFlags E f p c) PRIV_FLAGS_CLIENT_ALLOCATED"
proof -
  have "\<not> has_flag (flag_if x m) PRIV_FLAGS_CLIENT_ALLOCATED" if "m AND PRIV_FLAGS_CLIENT_ALLOCATED = 0" for x m
    using that by (simp add: flag_if_def has_flag_def)
  then show ?thesis
    unfolding GetHandleFlags_def has_flag_or
    by (simp add: PRIV_FLAGS_EXTERNAL_ONLY_def PRIV_FLAGS_INTERNAL_ONLY_def PRIV_FLAGS_VIDEO_ENCODER_def
        PRIV_FLAGS_CAMERA_WRITE_def PRIV_FLAGS_CAMERA_READ_def PRIV_FLAGS_HW_COMPOSER_def
        PRIV_FLAGS_HW_TEXTURE_def PRIV_FLAGS_SECURE_DISPLAY_def PRIV_FLAGS_UBWC_ALIGNED_def
        PRIV_FLAGS_CPU_RENDERED_def PRIV_FLAGS_NON_CPU_WRITER_def PRIV_FLAGS_DISP_CONSUMER_def
        PRIV_FLAGS_CACHED_def PRIV_FLAGS_CLIENT_ALLOCATED_def)
qed

lemma setMetaData_handle:
  assumes "setMetaData m h v = (ok, m', h')"
  shows "\<exists>base. h' = h\<lparr>hnd_base_metadata := base\<rparr>"
proof -
  have "\<exists>base. h = h\<lparr>hnd_base_metadata := base\<rparr>" by (rule exI [of _ "hnd_base_metadata h"]) simp
  then show ?thesis
    using assms by (auto simp: setMetaData_def validateAndMap_def split: if_splits option.splits)
qed

lemma create_handle_ok:
  assumes "mgr_inv b" "create_handle E b d dims data e_data = (p, b')"
    and "\<not> has_flag (ad_alloc_type data) PRIV_FLAGS_CLIENT_ALLOCATED"
  shows "mgr_alloc b' = mgr_alloc b" "p \<noteq> 0"
    "map_of (handles_map b') p = Some (Buffer_new p (ad_ion_handle data) (ad_ion_handle e_data))"
    "\<exists>h. map_of (heap b') p = Some h \<and> fresh_handle h data e_data"
proof -
  let ?fl = "GetHandleFlags E (d_format d) (d_producer_usage d) (d_consumer_usage d) OR ad_alloc_type data"
  let ?h = "(private_handle_t (ad_fd data) (ad_fd e_data) ?fl (SINT (fst dims)) (SINT (snd dims))
    (d_width d) (d_height d) (d_format d) (GetBufferType (GetImplDefinedFormat (cfg E) (d_producer_usage d)
      (d_consumer_usage d) (d_format d))) (ad_size data) (d_producer_usage d) (d_consumer_usage d))
    \<lparr>hnd_id := next_id b + 1, hnd_base := 0, hnd_base_metadata := 0, hnd_layer_count := d_layer_count d\<rparr>"
  obtain ok m h where s: "setMetaData (meta b) ?h (P_COLOR_SPACE ITU_R_601) = (ok, m, h)"
    using prod_cases3 by blast
  obtain base where h: "h = ?h\<lparr>hnd_base_metadata := base\<rparr>" using setMetaData_handle [OF s] by blast
  have fresh: "fresh_handle h data e_data"
    using assms(3) GetHandleFlags_not_client [of E "d_format d"]
    by (simp add: h fresh_handle_def private_handle_t_def validate_def has_flag_or)
  have p: "p = new_addr (heap b)" and b': "b' = RegisterHandleLocked (put_handle p h
      (b\<lparr>next_id := next_id b + 1, meta := m\<rparr>)) p (ad_ion_handle data) (ad_ion_handle e_data)"
    using assms(2) by (auto simp: create_handle_def Let_def s)
  have none: "map_of (handles_map b) p = None"
    using new_addr_refs [OF assms(1)] refs_0_iff [OF assms(1)] p by simp
  show "mgr_alloc b' = mgr_alloc b" "p \<noteq> 0"
    "map_of (handles_map b') p = Some (Buffer_new p (ad_ion_handle data) (ad_ion_handle e_data))"
    "\<exists>h. map_of (heap b') p = Some h \<and> fresh_handle h data e_data"
    using none fresh new_addr_free(2) [of "heap b"] p
    by (simp_all add: b' RegisterHandleLocked_def update_conv' put_handle_def)
qed

text \<open>The state after a successful \<open>AllocateBuffer\<close>.\<close>

lemma AllocateBuffer_ok:
  assumes "mgr_inv b" "AllocateBuffer E b d has_out sz = Inr (Alloc_ok p, b')"
  obtains a data d1 a1 d2 a2 h where "mgr_alloc b = Some a"
    "AllocateMem (cfg E) (kern E) (Some a) data (d_producer_usage d) (d_consumer_usage d) = Inr (0, d1, Some a1)"
    "AllocateMem (cfg E) (kern E) (Some a1) (meta_request E) {} {} = Inr (0, d2, Some a2)"
    "mgr_alloc b' = Some a2" "map_of (heap b') p = Some h" "p \<noteq> 0"
    "map_of (handles_map b') p = Some (Buffer_new p (ad_ion_handle d1) (ad_ion_handle d2))"
    "fresh_handle h d1 d2"
proof -
  obtain a where a: "mgr_alloc b = Some a" using mgr_inv_alloc [OF assms(1)] by blast
  obtain dims data where rq: "main_request E d sz = (dims, data)" by fastforce
  obtain e1 d1 a1 where m1: "AllocateMem (cfg E) (kern E) (Some a) data (d_producer_usage d)
      (d_consumer_usage d) = Inr (e1, d1, Some a1)"
    using AllocateMem_returns by blast
  obtain e2 d2 a2 where m2: "AllocateMem (cfg E) (kern E) (Some a1) (meta_request E) {} {} =
      Inr (e2, d2, Some a2)"
    using AllocateMem_returns by blast
  have "e1 = 0 \<and> e2 = 0 \<and> create_handle E (b\<lparr>mgr_alloc := Some a2\<rparr>) d dims d1 d2 = (p, b')"
    using assms(2) by (auto simp: AllocateBuffer_def Let_def a rq m1 m2 split: if_splits prod.splits)
  then have z: "e1 = 0" "e2 = 0" and c: "create_handle E (b\<lparr>mgr_alloc := Some a2\<rparr>) d dims d1 d2 = (p, b')"
    by simp_all
  have "mgr_inv (b\<lparr>mgr_alloc := Some a2\<rparr>)" using mgr_frame_alloc [OF assms(1)] by simp
  note ok = create_handle_ok [OF this c AllocateMem_ok(2) [OF m1 [unfolded z]]]
  from ok(4) obtain h where "map_of (heap b') p = Some h" "fresh_handle h d1 d2" by blast
  then show thesis using that a m1 m2 ok(1-3) unfolding z by simp
qed

text \<open>
  C19: When a buffer that \<open>AllocateBuffer\<close> has returned is released by its only reference,
  all driver handles and descriptors taken for its memory and its metadata are given back, the
  handle is no longer registered and the object is deleted, provided the kernel hands out
  non-negative descriptors and \<open>munmap\<close> does not fail.
\<close>

theorem last_release_balances:
  assumes "run (mgr_step E) (BufferManager_new E v m) ls b"
    and "AllocateBuffer E b d has_out sz = Inr (Alloc_ok p, b1)"
    and "\<And>h cs. 0 \<le> k_val (kern E) (Ion_map h # cs)"
    and "\<And>base n cs. k_errno (kern E) (Munmap base n # cs) = 0"
  shows "\<exists>b2. ReleaseBuffer E b1 p = Inr (ERROR_NONE, b2) \<and>
    held (kern E) (alloc_calls (mgr_alloc b2)) = held (kern E) (alloc_calls (mgr_alloc b)) \<and>
    map_of (handles_map b2) p = None \<and> map_of (heap b2) p = None"
proof -
  let ?k = "kern E"
  obtain a data d1 a1 d2 a2 h where a: "mgr_alloc b = Some a"
    and m1: "AllocateMem (cfg E) ?k (Some a) data (d_producer_usage d) (d_consumer_usage d) = Inr (0, d1, Some a1)"
    and m2: "AllocateMem (cfg E) ?k (Some a1) (meta_request E) {} {} = Inr (0, d2, Some a2)"
    and b1: "mgr_alloc b1 = Some a2" "map_of (heap b1) p = Some h" "p \<noteq> 0"
      "map_of (handles_map b1) p = Some (Buffer_new p (ad_ion_handle d1) (ad_ion_handle d2))"
    and h: "fresh_handle h d1 d2"
    using AllocateBuffer_ok [OF mgr_run_inv [OF assms(1)] assms(2)] by metis
  have fd: "0 \<le> ad_fd d2" using AllocateMem_ok(1) [OF m2] assms(3) by auto
  have "acquire_mem (cfg E) ?k (data, d_producer_usage d, d_consumer_usage d) a =
      (Some (ad_fd d1, ad_ion_handle d1), a1)"
    "acquire_mem (cfg E) ?k (meta_request E, {}, {}) a1 = (Some (ad_fd d2, ad_ion_handle d2), a2)"
    using m1 m2 by (simp_all add: acquire_mem_def)
  note balance = ion.pair_round_trip [OF this, of "(hnd_base_metadata h, meta_size E)" "(0, hnd_size h)"]
  define a3 where "a3 = release_mem ?k (0, hnd_size h) (ad_fd d1, ad_ion_handle d1) a2"
  define a4 where "a4 = release_mem ?k (hnd_base_metadata h, meta_size E) (ad_fd d2, ad_ion_handle d2) a3"
  define b0 where "b0 = b1\<lparr>handles_map := AList.delete p (handles_map b1)\<rparr>"
  let ?buf = "\<lparr>buf_handle = p, ref_count = 0, ion_handle_main = ad_ion_handle d1, ion_handle_meta = ad_ion_handle d2\<rparr>"
  have f1: "Alloc_FreeBuffer ?k (Some a2) 0 (hnd_size h) 0 (ad_fd d1) (ad_ion_handle d1) = (0, Some a3)"
    by (simp add: Alloc_FreeBuffer_def Ion_FreeBuffer_def a3_def release_mem_def Let_def)
  have f2: "free_meta E (Some a3) ?buf h = (0, Some a4)"
    using h fd assms(4)
    by (auto simp: free_meta_def fresh_handle_def Alloc_FreeBuffer_def Ion_FreeBuffer_def UnmapBuffer_def
        a4_def release_mem_def Let_def err_of_def)
  have "FreeBuffer E b0 ?buf = Inr (ERROR_NONE, delete_handle p (b0\<lparr>mgr_alloc := Some a4\<rparr>))"
    using h b1(1-3) f1 f2 by (simp add: FreeBuffer_def b0_def deref_Inr fresh_handle_def Let_def)
  then have "ReleaseBuffer E b1 p = Inr (ERROR_NONE, delete_handle p (b0\<lparr>mgr_alloc := Some a4\<rparr>))"
    using b1(4) by (simp add: ReleaseBuffer_def GetBufferFromHandleLocked_def DecRef_def Buffer_new_def
        b0_def [symmetric] wrap32_id)
  then show ?thesis
    using balance a by (simp add: alloc_calls_def a4_def a3_def b0_def delete_conv')
qed

theorem last_release_balances_witness:
  "\<exists>b1 b2. AllocateBuffer E0 (BufferManager_new E0 None mem0) desc0 True 0 = Inr (Alloc_ok 1, b1) \<and>
     ReleaseBuffer E0 b1 1 = Inr (ERROR_NONE, b2) \<and>
     held kernel0 (alloc_calls (mgr_alloc b2)) =
       held kernel0 (alloc_calls (mgr_alloc (BufferManager_new E0 None mem0))) \<and>
     map_of (heap b2) 1 = None"
proof -
  have "map_sum id fst (AllocateBuffer E0 (BufferManager_new E0 None mem0) desc0 True 0) = Inr (Alloc_ok 1)"
    by code_simp
  then obtain b1 where a: "AllocateBuffer E0 (BufferManager_new E0 None mem0) desc0 True 0 = Inr (Alloc_ok 1, b1)"
    by (cases "AllocateBuffer E0 (BufferManager_new E0 None mem0) desc0 True 0") auto
  have "kern E0 = kernel0" by (simp add: E0_def)
  then show ?thesis
    using last_release_balances [OF run_Nil a] a by (simp add: kernel0_def) blast
qed

subsection \<open>Caches\<close>

lemma LockBuffer_write:
  assumes "mgr_inv b" "LockBuffer E b p pu cu = Inr (ERROR_NONE, b1)" "CpuCanWrite pu"
  shows "mgr_inv b1" "\<exists>buf. map_of (handles_map b1) p = Some buf"
    "\<exists>h. map_of (heap b1) p = Some h \<and> has_flag (hnd_flags h) PRIV_FLAGS_NEEDS_FLUSH"
proof -
  have r: "mgr_inv b1" "refs b1 = refs b" "refs b p \<noteq> 0"
    using LockBuffer_refs [OF assms(1), of E p pu cu] assms(2) by simp_all
  then have "refs b1 p \<noteq> 0" by simp
  then show "mgr_inv b1" "\<exists>buf. map_of (handles_map b1) p = Some buf"
    using r(1) refs_0_iff [OF r(1), of p] by auto
  have f: "has_flag (fl OR PRIV_FLAGS_NEEDS_FLUSH) PRIV_FLAGS_NEEDS_FLUSH" for fl
    unfolding has_flag_or by (simp add: has_flag_def PRIV_FLAGS_NEEDS_FLUSH_def)
  obtain err b2 buf where "lock_mapped E b2 p buf err pu cu = Inr (ERROR_NONE, b1)"
    using assms(2) by (auto simp: LockBuffer_def mbind_eq_Inr_iff split: if_splits option.splits prod.splits)
  then show "\<exists>h. map_of (heap b1) p = Some h \<and> has_flag (hnd_flags h) PRIV_FLAGS_NEEDS_FLUSH"
    using assms(3) f by (auto simp: lock_mapped_def mbind_eq_Inr_iff split: if_splits prod.splits)
qed

text \<open>
  C32: After a lock for writing the buffer is marked, and unlocking it asks the driver to
  clean exactly its range from the cache, through the driver handle of its memory, and removes
  the mark and nothing else from the handle.
\<close>

theorem write_lock_flushes:
  assumes "run (mgr_step E) (BufferManager_new E v m) ls b"
    and "LockBuffer E b p pu cu = Inr (ERROR_NONE, b1)" "CpuCanWrite pu"
  shows "\<exists>buf h r b2. map_of (handles_map b1) p = Some buf \<and> map_of (heap b1) p = Some h \<and>
    has_flag (hnd_flags h) PRIV_FLAGS_NEEDS_FLUSH \<and> UnlockBuffer E b1 p = Inr (r, b2) \<and>
    alloc_calls (mgr_alloc b2) = Ion_custom ION_IOC_CLEAN_CACHES (ion_handle_main buf) (hnd_base h)
      (hnd_offset h) (hnd_size h) # alloc_calls (mgr_alloc b1) \<and>
    map_of (heap b2) p = Some (h\<lparr>hnd_flags := hnd_flags h AND NOT PRIV_FLAGS_NEEDS_FLUSH\<rparr>)"
proof -
  note l = LockBuffer_write [OF mgr_run_inv [OF assms(1)] assms(2,3)]
  obtain buf where buf: "map_of (handles_map b1) p = Some buf" using l(2) by blast
  obtain h where h: "map_of (heap b1) p = Some h" "has_flag (hnd_flags h) PRIV_FLAGS_NEEDS_FLUSH"
    using l(3) by blast
  have p: "p \<noteq> 0" using registered [OF l(1) buf] by blast
  obtain a where a: "mgr_alloc b1 = Some a" using mgr_inv_alloc [OF l(1)] by blast
  show ?thesis
    using h(2)
    by (simp add: UnlockBuffer_def GetBufferFromHandleLocked_def buf deref_Inr [OF h(1) p] h(1) a
        Alloc_CleanBuffer_def Ion_CleanBuffer_def alloc_calls_def cache_cmd_of_def Let_def)
qed

theorem write_lock_flushes_witness:
  "\<exists>ls b b1 r b2 base. run (mgr_step E0) (BufferManager_new E0 None mem0) ls b \<and>
     LockBuffer E0 b 1 {PRODUCER_CPU_WRITE} {} = Inr (ERROR_NONE, b1) \<and>
     UnlockBuffer E0 b1 1 = Inr (r, b2) \<and>
     hd (alloc_calls (mgr_alloc b2)) = Ion_custom ION_IOC_CLEAN_CACHES 2 base 0 1228800"
proof -
  define t where "t = mgr_trace E0 (BufferManager_new E0 None mem0) (take 1 ops0)"
  have c: "map_sum id (\<lambda>(ls, b). map_sum id (\<lambda>(r, b1). (r, map_option ion_handle_main (map_of (handles_map b1) 1),
      map_option (\<lambda>h. (hnd_offset h, hnd_size h)) (map_of (heap b1) 1)))
      (LockBuffer E0 b 1 {PRODUCER_CPU_WRITE} {})) t = Inr (Inr (ERROR_NONE, Some 2, Some (0, 1228800)))"
    unfolding t_def by code_simp
  obtain ls b where t: "t = Inr (ls, b)" using c by (cases t) auto
  obtain b1 where l: "LockBuffer E0 b 1 {PRODUCER_CPU_WRITE} {} = Inr (ERROR_NONE, b1)"
    and i: "map_option ion_handle_main (map_of (handles_map b1) 1) = Some 2"
      "map_option (\<lambda>h. (hnd_offset h, hnd_size h)) (map_of (heap b1) 1) = Some (0, 1228800)"
    using c by (cases "LockBuffer E0 b 1 {PRODUCER_CPU_WRITE} {}") (auto simp: t)
  note r = mgr_trace_run [OF t [unfolded t_def]]
  show ?thesis
    using write_lock_flushes [OF r l] r l i by (fastforce simp: CpuCanWrite_def)
qed

subsection \<open>Results of an allocation\<close>

lemma share_each_length: "share_each E b main mx i ds = Inr (ps, b') \<Longrightarrow> length ps = length ds"
  by (induction ds arbitrary: b i ps) (auto simp: mbind_eq_Inr_iff)

lemma allocate_each_length: "allocate_each E b ds = Inr (ok, ps, b') \<Longrightarrow> ok \<longleftrightarrow> length ps = length ds"
proof (induction ds arbitrary: b ps)
  case (Cons d ds)
  obtain r b1 where r: "AllocateBuffer E b d True 0 = Inr (r, b1)"
    using Cons.prems by (auto simp: mbind_eq_Inr_iff)
  show ?case using Cons.prems
    by (cases r) (auto simp: r mbind_eq_Inr_iff dest: Cons.IH)
qed simp

lemma Alloc_ok_cases:
  assumes "(case x of Alloc_ok p \<Rightarrow> f p | _ \<Rightarrow> Inr (NO_RESOURCES, [], b)) = Inr (r, ps, b')"
  obtains p where "x = Alloc_ok p" "f p = Inr (r, ps, b')" | "r = NO_RESOURCES"
  using assms by (cases x) auto

text \<open>
  C31: \<open>AllocateBuffers\<close> reports a bad descriptor exactly when one of the identifiers is unknown,
  and has then changed nothing.  Otherwise it either reports that resources are missing, or
  returns as many buffers as descriptors, which are distinct and carry one reference each.
\<close>

theorem AllocateBuffers_result:
  assumes "run (mgr_step E) (BufferManager_new E v m) ls b"
    and "AllocateBuffers E b ids True = Inr (r, ps, b')"
  shows "(r = BAD_DESCRIPTOR \<longleftrightarrow> (\<exists>i \<in> set ids. map_of (descriptors_map b) i = None)) \<and>
    (if r = BAD_DESCRIPTOR then b' = b \<and> ps = []
     else if r = NO_RESOURCES then True
     else r \<in> {ERROR_NONE, NOT_SHARED} \<and> length ps = length ids \<and> distinct ps \<and> map (refs b') ps = replicate (length ids) 1)"
proof (cases "list_all (\<lambda>i. map_of (descriptors_map b) i \<noteq> None) ids")
  case False
  then show ?thesis using assms(2) by (auto simp: AllocateBuffers_def list_all_iff)
next
  case True
  have known: "\<not> (\<exists>i \<in> set ids. map_of (descriptors_map b) i = None)"
    using True by (auto simp: list_all_iff)
  have "r \<in> {ERROR_NONE, NOT_SHARED} \<and> length ps = length ids \<or> r = NO_RESOURCES"
    using assms(2) True
    by (auto simp: AllocateBuffers_def Let_def mbind_eq_Inr_iff
        split: prod.split_asm if_split_asm
        dest!: share_each_length allocate_each_length elim!: Alloc_ok_cases)
  moreover have "distinct ps" "refs b' = first_refs ps (refs b)"
    using AllocateBuffers_refs [OF mgr_run_inv [OF assms(1)], of E ids True] assms(2) by simp_all
  moreover have "map (first_refs ps f) ps = replicate (length ps) 1" for f
    by (simp add: first_refs_def map_replicate_const [symmetric])
  ultimately show ?thesis using known by (auto simp del: map_eq_conv)
qed

theorem AllocateBuffers_result_witness:
  "\<exists>ls b ps b'. run (mgr_step E0) (BufferManager_new E0 None mem0) ls b \<and>
     AllocateBuffers E0 b [1, 2] True = Inr (ERROR_NONE, ps, b') \<and> length ps = 2 \<and> distinct ps"
proof -
  define t where "t = mgr_trace E0 (BufferManager_new E0 None mem0) ops1"
  have c: "map_sum id (\<lambda>(ls, b). map_sum id fst (AllocateBuffers E0 b [1, 2] True)) t = Inr (Inr ERROR_NONE)"
    unfolding t_def by code_simp
  obtain ls b where t: "t = Inr (ls, b)" using c by (cases t) auto
  obtain ps b' where a: "AllocateBuffers E0 b [1, 2] True = Inr (ERROR_NONE, ps, b')"
    using c by (cases "AllocateBuffers E0 b [1, 2] True") (auto simp: t)
  note r = mgr_trace_run [OF t [unfolded t_def]]
  show ?thesis using AllocateBuffers_result [OF r a] r a by force
qed

subsection \<open>Shortcomings\<close>

text \<open>
  Releasing a handle once too often reads the deleted object, for the error message.
\<close>

lemma double_release_reads_deleted:
  "map_of (handles_map b) p = None \<Longrightarrow> map_of (heap b) p = None \<Longrightarrow> p \<noteq> 0 \<Longrightarrow>
     ReleaseBuffer E b p = Inl OobRead"
  by (simp add: ReleaseBuffer_def GetBufferFromHandleLocked_def deref_def)

text \<open>
  When the metadata cannot be allocated, the memory allocated just before stays held although
  the caller gets no handle to it.
\<close>

lemma metadata_failure_leaks:
  assumes "mgr_alloc b = Some a" "main_request E d sz = (dims, data)"
    and "CONSUMER_SECURE_DISPLAY \<in> d_producer_usage d \<or> IsGPUSupportedHwBuffer (gpu (gre E)) (d_producer_usage d)"
    and "AllocateMem (cfg E) (kern E) (Some a) data (d_producer_usage d) (d_consumer_usage d) = Inr (0, d1, Some a1)"
    and "AllocateMem (cfg E) (kern E) (Some a1) (meta_request E) {} {} = Inr (e2, d2, Some a2)" "e2 \<noteq> 0"
  shows "\<exists>b'. AllocateBuffer E b d True sz = Inr (Alloc_err e2, b') \<and>
    held (kern E) (alloc_calls (mgr_alloc b')) =
      buffer_res (ad_fd d1) (ad_ion_handle d1) + held (kern E) (alloc_calls (mgr_alloc b))"
proof -
  have "acquire_mem (cfg E) (kern E) (data, d_producer_usage d, d_consumer_usage d) a =
      (Some (ad_fd d1, ad_ion_handle d1), a1)"
    "acquire_mem (cfg E) (kern E) (meta_request E, {}, {}) a1 = (None, a2)"
    using assms(4-6) by (simp_all add: acquire_mem_def)
  note leak = ion.second_fails [OF this]
  have "AllocateBuffer E b d True sz = Inr (Alloc_err e2, b\<lparr>mgr_alloc := Some a2\<rparr>)"
    using assms by (auto simp: AllocateBuffer_def Let_def)
  then show ?thesis using leak assms(1) by (simp add: alloc_calls_def)
qed

end
