(* ===== verification/Gr_Device.thy ===== *)
theory Gr_Device
  imports Gr_BufMgr
begin

text \<open>
  The entry points of the graphics memory module: \<open>gralloc/gr_device_impl.cpp\<close>, and the methods of
  \<open>gr_buf_mgr.cpp\<close> that answer questions about a buffer: \<open>Perform\<close>, \<open>GetFlexLayout\<close>,
  \<open>GetNumFlexPlanes\<close>, \<open>IsBufferImported\<close> and \<open>ValidateBufferSize\<close>.

  A buffer is named by the address of its handle, as in \<open>Gr_BufMgr\<close>; reading a handle that does not
  exist is a fault, and so is writing through a null output pointer where the code does not check
  it.  Outputs are values.  \<open>native_handle_create\<close> and \<open>native_handle_clone\<close> of libcutils and
  \<open>sync_wait\<close> of libsync are parameters.  \<open>dev_exec\<close> is one call of a client, \<open>dev_step\<close> a call of a
  client that keeps to the interface.

  Shown here: however calls are interleaved, the next one returns and the manager stays well
  formed; an import takes a reference of its own or leaves no trace; a lock that succeeds gives the
  address of the mapping; the planes of a flexible layout are those of the buffer's format.
\<close>

subsection \<open>Environment\<close>

record dev_env =
  dmgr :: mgr_env
  native_handle_create :: "sys_call list \<Rightarrow> private_handle option"
  native_handle_clone :: "sys_call list \<Rightarrow> private_handle \<Rightarrow> private_handle option"
  sync_wait :: "sys_call list \<Rightarrow> int \<Rightarrow> int"

definition history :: "BufferManager \<Rightarrow> sys_call list" where
  "history b = alloc_calls (mgr_alloc b)"

subsection \<open>Questions through Perform\<close>

datatype (plugins only: code size) perform_op =
    CREATE_HANDLE_FROM_BUFFER int u32 u32 u64 int int hal_format bool
  | GET_STRIDE int hal_format bool
  | GET_CUSTOM_STRIDE_FROM_HANDLE hptr bool
  | GET_CUSTOM_STRIDE_AND_HEIGHT_FROM_HANDLE hptr bool
  | GET_ATTRIBUTES int int hal_format usage usage bool
  | GET_COLOR_SPACE_FROM_HANDLE hptr bool
  | GET_YUV_PLANE_INFO hptr bool
  | GET_MAP_SECURE_BUFFER_INFO hptr bool
  | GET_UBWC_FLAG hptr bool
  | GET_RGB_DATA_ADDRESS hptr bool
  | GET_BUFFER_SIZE_AND_DIMENSIONS int int hal_format usage usage bool
  | ALLOCATE_BUFFER int int hal_format usage usage bool
  | GET_INTERLACE_FLAG hptr bool
  | Other_operation int

datatype (plugins only: code size) dev_out =
    No_out
  | Out_handles "hptr list"
  | Out_ints "int list"
  | Out_usage usage
  | Out_format hal_format
  | Out_id u64
  | Out_planes android_ycbcr "android_ycbcr option"

type_synonym dev_result = "(gralloc1_error \<times> dev_out \<times> BufferManager) mem"

text \<open>\<open>getMetaData\<close> on a handle of the heap: it may map the page and store the address in the handle.\<close>

definition fetch :: "BufferManager \<Rightarrow> hptr \<Rightarrow> disp_param \<Rightarrow> (meta_param option \<times> BufferManager) mem" where
  "fetch b p t = mbind (deref b p) (\<lambda>hnd. case getMetaData (meta b) hnd t of (v, hnd) \<Rightarrow> Inr (v, put_handle p hnd b))"

text \<open>The two checks most operations start with: \<open>validate\<close>, and the output pointer.\<close>

definition with_handle :: "BufferManager \<Rightarrow> hptr \<Rightarrow> bool \<Rightarrow> (private_handle \<Rightarrow> dev_result) \<Rightarrow> dev_result" where
  "with_handle b p has_out k =
     (if p = 0 then Inr (BAD_HANDLE, No_out, b)
      else mbind (deref b p) (\<lambda>hnd.
        if \<not> validate (Some hnd) then Inr (BAD_HANDLE, No_out, b)
        else if \<not> has_out then Inr (BAD_VALUE, No_out, b)
        else k hnd))"

definition plain_info :: "int \<Rightarrow> int \<Rightarrow> hal_format \<Rightarrow> usage \<Rightarrow> usage \<Rightarrow> BufferInfo" where
  "plain_info w h f prod_usage cons_usage = \<lparr>info_width = w, info_height = h, info_format = f, info_layer_count = 1,
     info_prod_usage = prod_usage, info_cons_usage = cons_usage\<rparr>"

definition create_from_buffer :: "dev_env \<Rightarrow> int \<Rightarrow> u32 \<Rightarrow> u32 \<Rightarrow> u64 \<Rightarrow> int \<Rightarrow> int \<Rightarrow> hal_format \<Rightarrow> BufferManager \<Rightarrow> dev_result" where
  "create_from_buffer E fd sz offset base width height format b =
     (case native_handle_create E (history b) of
        None \<Rightarrow> Inr (ERROR_NONE, No_out, b)
      | Some hnd \<Rightarrow>
          (case GetAlignedWidthAndHeight (gre (dmgr E)) (plain_info width height format {} {}) of (alignedw, alignedh) \<Rightarrow>
             let hnd = hnd\<lparr>hnd_magic := kMagic, hnd_fd := fd, hnd_flags := PRIV_FLAGS_USES_ION, hnd_size := sz,
                   hnd_offset := offset, hnd_base := base, hnd_gpuaddr := 0, hnd_unaligned_width := width,
                   hnd_unaligned_height := height, hnd_width := SINT alignedw, hnd_height := SINT alignedh,
                   hnd_format := format\<rparr>;
                 p = new_addr (heap b)
             in Inr (ERROR_NONE, Out_handles [p], put_handle p hnd b)))"

definition color_space_value :: "color_space \<Rightarrow> int" where
  "color_space_value c = (case c of ITU_R_601 \<Rightarrow> 0 | ITU_R_601_FR \<Rightarrow> 1 | ITU_R_709 \<Rightarrow> 2 | ITU_R_2020 \<Rightarrow> 3 | ITU_R_2020_FR \<Rightarrow> 4)"

definition color_space_of :: "color_metadata \<Rightarrow> int" where
  "color_space_of c = (case colorPrimaries c of
     ColorPrimaries_BT709_5 \<Rightarrow> color_space_value ITU_R_709
   | ColorPrimaries_BT601_6_525 \<Rightarrow> color_space_value (if color_range c then ITU_R_601_FR else ITU_R_601)
   | ColorPrimaries_BT601_6_625 \<Rightarrow> color_space_value (if color_range c then ITU_R_601_FR else ITU_R_601)
   | ColorPrimaries_BT2020 \<Rightarrow> color_space_value (if color_range c then ITU_R_2020_FR else ITU_R_2020)
   | _ \<Rightarrow> 0)"

definition perform_color_space :: "BufferManager \<Rightarrow> hptr \<Rightarrow> dev_result" where
  "perform_color_space b p = mbind (fetch b p COLOR_METADATA) (\<lambda>(v, b). case v of
     Some (P_COLOR c) \<Rightarrow> Inr (ERROR_NONE, Out_ints [color_space_of c], b)
   | _ \<Rightarrow> mbind (fetch b p COLOR_SPACE) (\<lambda>(v, b). case v of
       Some (P_COLOR_SPACE c) \<Rightarrow> Inr (ERROR_NONE, Out_ints [color_space_value c], b)
     | _ \<Rightarrow> Inr (ERROR_NONE, Out_ints [0], b)))"

text \<open>The planes of a buffer; the second field of interlaced content is written behind the first.\<close>

definition yuv_planes :: "dev_env \<Rightarrow> BufferManager \<Rightarrow> hptr \<Rightarrow> ((android_ycbcr \<times> android_ycbcr option) option \<times> BufferManager) mem" where
  "yuv_planes E b p = mbind (deref b p) (\<lambda>hnd.
     case GetYUVPlaneInfo (gre (dmgr E)) (meta b) hnd of (planes, hnd) \<Rightarrow> Inr (planes, put_handle p hnd b))"

text \<open>
  The flag of a secure buffer is cleared when the metadata is there, and the caller's variable is
  left alone when it is not.
\<close>

definition perform_map_secure :: "BufferManager \<Rightarrow> hptr \<Rightarrow> dev_result" where
  "perform_map_secure b p = mbind (fetch b p MAP_SECURE_BUFFER) (\<lambda>(v, b).
     Inr (ERROR_NONE, if v \<noteq> None then Out_ints [0] else No_out, b))"

definition format_is_zero :: "hal_format \<Rightarrow> bool" where
  "format_is_zero f = (f = OtherFormat 0)"

definition perform_ubwc_flag :: "BufferManager \<Rightarrow> hptr \<Rightarrow> private_handle \<Rightarrow> dev_result" where
  "perform_ubwc_flag b p hnd = mbind (fetch b p LINEAR_FORMAT) (\<lambda>(v, b).
     let flag = sint (hnd_flags hnd AND PRIV_FLAGS_UBWC_ALIGNED)
     in Inr (ERROR_NONE, Out_ints [case v of Some (P_LINEAR_FORMAT f) \<Rightarrow> if \<not> format_is_zero f then 0 else flag | _ \<Rightarrow> flag], b))"

definition perform_rgb_address :: "BufferManager \<Rightarrow> private_handle \<Rightarrow> dev_result" where
  "perform_rgb_address b hnd = (case GetRgbDataAddress hnd of
     (ok, addr) \<Rightarrow> Inr (if ok then ERROR_NONE else UNDEFINED, case addr of Some a \<Rightarrow> Out_id a | None \<Rightarrow> No_out, b))"

definition perform_allocate :: "dev_env \<Rightarrow> int \<Rightarrow> int \<Rightarrow> hal_format \<Rightarrow> usage \<Rightarrow> usage \<Rightarrow> bool \<Rightarrow> BufferManager \<Rightarrow> dev_result" where
  "perform_allocate E width height format p_usage c_usage has_out b =
     (let d = BufferDescriptor_with (next_desc b) width height format p_usage c_usage;
          b = b\<lparr>next_desc := next_desc b + 1\<rparr>
      in case GetBufferSizeAndDimensions (gre (dmgr E)) (GetBufferInfo d) of (sz, _, _) \<Rightarrow>
        mbind (AllocateBuffer (dmgr E) b d has_out sz) (\<lambda>(r, b).
          Inr (ERROR_NONE, case r of Alloc_ok p \<Rightarrow> Out_handles [p] | _ \<Rightarrow> No_out, b)))"

definition perform_stride :: "dev_env \<Rightarrow> int \<Rightarrow> hal_format \<Rightarrow> bool \<Rightarrow> BufferManager \<Rightarrow> dev_result" where
  "perform_stride E width format has_out b =
     (if \<not> has_out then Inr (BAD_VALUE, No_out, b)
      else case GetAlignedWidthAndHeight (gre (dmgr E)) (plain_info width width format {} {}) of
        (alignedw, _) \<Rightarrow> Inr (ERROR_NONE, Out_ints [SINT alignedw], b))"

definition perform_attributes :: "dev_env \<Rightarrow> int \<Rightarrow> int \<Rightarrow> hal_format \<Rightarrow> usage \<Rightarrow> usage \<Rightarrow> bool \<Rightarrow> BufferManager \<Rightarrow> dev_result" where
  "perform_attributes E width height format prod_usage cons_usage has_out b =
     (if \<not> has_out then Inr (BAD_VALUE, No_out, b)
      else case GetAlignedWidthAndHeight (gre (dmgr E)) (plain_info width height format prod_usage cons_usage) of
        (alignedw, alignedh) \<Rightarrow> Inr (ERROR_NONE, Out_ints [SINT alignedw, SINT alignedh,
          if IsUBwcEnabled (gpu (gre (dmgr E))) format prod_usage cons_usage then 1 else 0], b))"

definition perform_size :: "dev_env \<Rightarrow> int \<Rightarrow> int \<Rightarrow> hal_format \<Rightarrow> usage \<Rightarrow> usage \<Rightarrow> bool \<Rightarrow> BufferManager \<Rightarrow> dev_result" where
  "perform_size E width height format prod_usage cons_usage has_out b =
     (if \<not> has_out then Inr (BAD_VALUE, No_out, b)
      else case GetBufferSizeAndDimensions (gre (dmgr E)) (plain_info width height format prod_usage cons_usage) of
        (sz, alignedw, alignedh) \<Rightarrow>
          let align = mgr_GetDataAlignment (dmgr E) format prod_usage cons_usage
          in Inr (ERROR_NONE, Out_ints [uint alignedw, uint alignedh, uint (ALIGN sz align)], b))"

text \<open>The operations that take no handle, and those that are not known.\<close>

definition perform_plain :: "dev_env \<Rightarrow> perform_op \<Rightarrow> BufferManager \<Rightarrow> dev_result" where
  "perform_plain E op b = (case op of
     CREATE_HANDLE_FROM_BUFFER fd sz offset base width height format has_out \<Rightarrow>
       (if \<not> has_out then Inr (BAD_HANDLE, No_out, b)
        else create_from_buffer E fd sz offset base width height format b)
   | GET_STRIDE width format has_out \<Rightarrow> perform_stride E width format has_out b
   | GET_ATTRIBUTES width height format prod_usage cons_usage has_out \<Rightarrow>
       perform_attributes E width height format prod_usage cons_usage has_out b
   | GET_BUFFER_SIZE_AND_DIMENSIONS width height format prod_usage cons_usage has_out \<Rightarrow>
       perform_size E width height format prod_usage cons_usage has_out b
   | ALLOCATE_BUFFER width height format prod_usage cons_usage has_out \<Rightarrow>
       perform_allocate E width height format prod_usage cons_usage has_out b
   | _ \<Rightarrow> Inr (ERROR_NONE, No_out, b))"

definition Perform :: "dev_env \<Rightarrow> perform_op \<Rightarrow> BufferManager \<Rightarrow> dev_result" where
  "Perform E op b = (case op of
     GET_CUSTOM_STRIDE_FROM_HANDLE p has_out \<Rightarrow> with_handle b p has_out (\<lambda>hnd.
       mbind (fetch b p BUFFER_GEOMETRY) (\<lambda>(v, b).
         Inr (ERROR_NONE, Out_ints [case v of Some (P_GEOMETRY w h) \<Rightarrow> w | _ \<Rightarrow> hnd_width hnd], b)))
   | GET_CUSTOM_STRIDE_AND_HEIGHT_FROM_HANDLE p has_out \<Rightarrow> with_handle b p has_out (\<lambda>hnd.
       mbind (fetch b p BUFFER_GEOMETRY) (\<lambda>(v, b).
         Inr (ERROR_NONE, Out_ints (case v of Some (P_GEOMETRY w h) \<Rightarrow> [w, h] | _ \<Rightarrow> [hnd_width hnd, hnd_height hnd]), b)))
   | GET_COLOR_SPACE_FROM_HANDLE p has_out \<Rightarrow> with_handle b p has_out (\<lambda>_. perform_color_space b p)
   | GET_YUV_PLANE_INFO p has_out \<Rightarrow> with_handle b p has_out (\<lambda>_. mbind (yuv_planes E b p) (\<lambda>(planes, b). case planes of
       None \<Rightarrow> Inr (UNDEFINED, No_out, b)
     | Some (top_field, bottom_field) \<Rightarrow> Inr (ERROR_NONE, Out_planes top_field bottom_field, b)))
   | GET_MAP_SECURE_BUFFER_INFO p has_out \<Rightarrow> with_handle b p has_out (\<lambda>_. perform_map_secure b p)
   | GET_UBWC_FLAG p has_out \<Rightarrow> with_handle b p has_out (perform_ubwc_flag b p)
   | GET_RGB_DATA_ADDRESS p has_out \<Rightarrow> with_handle b p has_out (perform_rgb_address b)
   | GET_INTERLACE_FLAG p has_out \<Rightarrow> with_handle b p has_out (\<lambda>_.
       mbind (fetch b p PP_PARAM_INTERLACED) (\<lambda>(v, b).
         Inr (ERROR_NONE, Out_ints [case v of Some (P_INTERLACED i) \<Rightarrow> i | _ \<Rightarrow> 0], b)))
   | _ \<Rightarrow> perform_plain E op b)"

subsection \<open>Flexible layouts\<close>

definition IsYuvFormat :: "private_handle \<Rightarrow> bool" where
  "IsYuvFormat hnd = (hnd_format hnd \<in> set [YCbCr_420_SP, YCbCr_422_SP, YCbCr_420_SP_VENUS, NV12_ENCODEABLE,
     YCbCr_420_SP_VENUS_UBWC, YCrCb_420_SP, YCrCb_422_SP, YCrCb_420_SP_ADRENO, NV21_ZSL, RAW16, Y16, RAW12, RAW10,
     YV12, Y8, YCbCr_420_P010, YCbCr_420_TP10_UBWC, YCbCr_420_P010_UBWC])"

definition mgr_GetNumFlexPlanes :: "private_handle \<Rightarrow> gralloc1_error \<times> u32 option" where
  "mgr_GetNumFlexPlanes hnd = (if \<not> IsYuvFormat hnd then (UNSUPPORTED, None) else (ERROR_NONE, Some 3))"

datatype flex_component = FLEX_COMPONENT_Y | FLEX_COMPONENT_Cb | FLEX_COMPONENT_Cr

record flex_plane =
  top_left :: u64
  component :: flex_component
  bits_per_component :: int
  bits_used :: int
  h_increment :: int
  v_increment :: int
  h_subsampling :: int
  v_subsampling :: int

definition flex_plane_new :: "u64 \<Rightarrow> flex_component \<Rightarrow> int \<Rightarrow> u32 \<Rightarrow> flex_plane" where
  "flex_plane_new addr c h v = \<lparr>top_left = addr, component = c, bits_per_component = 8, bits_used = 8, h_increment = h,
     v_increment = SINT v, h_subsampling = 2, v_subsampling = 2\<rparr>"

definition flex_planes :: "android_ycbcr \<Rightarrow> flex_plane list" where
  "flex_planes ycbcr =
     [flex_plane_new (yc_y ycbcr) FLEX_COMPONENT_Y 1 (yc_ystride ycbcr),
      flex_plane_new (yc_cb ycbcr) FLEX_COMPONENT_Cb (SINT (yc_chroma_step ycbcr)) (yc_cstride ycbcr),
      flex_plane_new (yc_cr ycbcr) FLEX_COMPONENT_Cr (SINT (yc_chroma_step ycbcr)) (yc_cstride ycbcr)]"

text \<open>
  \<open>planes\<close> is the number of elements of the array the client provides.  A second field would be
  written behind the local variable.
\<close>

definition GetFlexLayout :: "dev_env \<Rightarrow> BufferManager \<Rightarrow> hptr \<Rightarrow> nat \<Rightarrow> (gralloc1_error \<times> flex_plane list option \<times> BufferManager) mem" where
  "GetFlexLayout E b p planes = mbind (deref b p) (\<lambda>hnd.
     if \<not> IsYuvFormat hnd then Inr (UNSUPPORTED, None, b)
     else mbind (yuv_planes E b p) (\<lambda>(info, b). case info of
       None \<Rightarrow> Inr (BAD_HANDLE, None, b)
     | Some (_, Some _) \<Rightarrow> Inl OobWrite
     | Some (ycbcr, None) \<Rightarrow>
         if planes < 3 then Inl OobWrite
         else Inr (ERROR_NONE, Some (flex_planes ycbcr), b)))"

definition IsBufferImported :: "BufferManager \<Rightarrow> hptr \<Rightarrow> gralloc1_error" where
  "IsBufferImported b p = (if GetBufferFromHandleLocked b p \<noteq> None then ERROR_NONE else BAD_VALUE)"

definition mgr_ValidateBufferSize :: "dev_env \<Rightarrow> BufferManager \<Rightarrow> private_handle \<Rightarrow> BufferInfo \<Rightarrow> gralloc1_error \<times> BufferManager" where
  "mgr_ValidateBufferSize E b hnd info =
     (let info = info\<lparr>info_format := GetImplDefinedFormat (cfg (dmgr E)) (info_prod_usage info) (info_cons_usage info)
            (info_format info)\<rparr>;
          b = mgr_sys (Lseek_end (hnd_fd hnd)) b;
          ion_fd_size = UINT (mgr_reply (dmgr E) b)
      in case GetBufferSizeAndDimensions (gre (dmgr E)) info of
        (sz, _, _) \<Rightarrow> (if sz \<noteq> ion_fd_size then BAD_VALUE else ERROR_NONE, b))"

subsection \<open>The device\<close>

text \<open>\<open>device\<close> says whether the device pointer is not null.\<close>

definition GetCapabilities :: "bool \<Rightarrow> u32 \<Rightarrow> bool \<Rightarrow> u32 \<times> string list option" where
  "GetCapabilities device out_count has_out =
     (if device
      then (3, if has_out \<and> 3 \<le> out_count
               then Some [''TEST_ALLOCATE'', ''LAYERED_BUFFERS'', ''RELEASE_IMPLY_DELETE''] else None)
      else (out_count, None))"

definition CheckDeviceAndHandle :: "bool \<Rightarrow> BufferManager \<Rightarrow> hptr \<Rightarrow> gralloc1_error mem" where
  "CheckDeviceAndHandle device b p =
     (if \<not> device \<or> p = 0 then Inr BAD_HANDLE
      else mbind (deref b p) (\<lambda>hnd. Inr (if validate (Some hnd) then ERROR_NONE else BAD_HANDLE)))"

definition dev_CreateBufferDescriptor :: "bool \<Rightarrow> bool \<Rightarrow> BufferManager \<Rightarrow> dev_result" where
  "dev_CreateBufferDescriptor device has_out b =
     (if \<not> device then Inr (BAD_DESCRIPTOR, No_out, b)
      else case CreateBufferDescriptor b of (r, i, b) \<Rightarrow> if has_out then Inr (r, Out_id i, b) else Inl NullDeref)"

definition dev_DestroyBufferDescriptor :: "bool \<Rightarrow> u64 \<Rightarrow> BufferManager \<Rightarrow> dev_result" where
  "dev_DestroyBufferDescriptor device i b =
     (if \<not> device then Inr (BAD_DESCRIPTOR, No_out, b)
      else case DestroyBufferDescriptor b i of (r, b) \<Rightarrow> Inr (r, No_out, b))"

definition describe :: "bool \<Rightarrow> u64 \<Rightarrow> (BufferDescriptor \<Rightarrow> BufferDescriptor) \<Rightarrow> BufferManager \<Rightarrow> dev_result" where
  "describe device i f b =
     (if \<not> device then Inr (BAD_DESCRIPTOR, No_out, b)
      else case CallBufferDescriptorFunction b i f of (r, b) \<Rightarrow> Inr (r, No_out, b))"

definition SetConsumerUsage :: "bool \<Rightarrow> u64 \<Rightarrow> usage \<Rightarrow> BufferManager \<Rightarrow> dev_result" where
  "SetConsumerUsage device i u = describe device i (\<lambda>d. d\<lparr>d_consumer_usage := u\<rparr>)"

definition SetBufferDimensions :: "bool \<Rightarrow> u64 \<Rightarrow> u32 \<Rightarrow> u32 \<Rightarrow> BufferManager \<Rightarrow> dev_result" where
  "SetBufferDimensions device i w h = describe device i (\<lambda>d. d\<lparr>d_width := SINT w, d_height := SINT h\<rparr>)"

definition SetColorFormat :: "bool \<Rightarrow> u64 \<Rightarrow> hal_format \<Rightarrow> BufferManager \<Rightarrow> dev_result" where
  "SetColorFormat device i f = describe device i (\<lambda>d. d\<lparr>d_format := f\<rparr>)"

definition SetLayerCount :: "bool \<Rightarrow> u64 \<Rightarrow> u32 \<Rightarrow> BufferManager \<Rightarrow> dev_result" where
  "SetLayerCount device i n = describe device i (\<lambda>d. d\<lparr>d_layer_count := n\<rparr>)"

definition SetProducerUsage :: "bool \<Rightarrow> u64 \<Rightarrow> usage \<Rightarrow> BufferManager \<Rightarrow> dev_result" where
  "SetProducerUsage device i u = describe device i (\<lambda>d. d\<lparr>d_producer_usage := u\<rparr>)"

text \<open>The getters check the device and the handle, and most of them not the output pointer.\<close>

definition get_from_handle :: "bool \<Rightarrow> BufferManager \<Rightarrow> hptr \<Rightarrow> bool \<Rightarrow> (private_handle \<Rightarrow> dev_out) \<Rightarrow> dev_result" where
  "get_from_handle device b p has_out get =
     mbind (CheckDeviceAndHandle device b p) (\<lambda>status.
       if status \<noteq> ERROR_NONE then Inr (status, No_out, b)
       else if \<not> has_out then Inl NullDeref
       else mbind (deref b p) (\<lambda>hnd. Inr (status, get hnd, b)))"

definition GetBackingStore :: "bool \<Rightarrow> hptr \<Rightarrow> bool \<Rightarrow> BufferManager \<Rightarrow> dev_result" where
  "GetBackingStore device p has_out b =
     (if \<not> device \<or> p = 0 then Inr (BAD_HANDLE, No_out, b)
      else mbind (deref b p) (\<lambda>hnd. if has_out then Inr (ERROR_NONE, Out_id (hnd_id hnd), b) else Inl NullDeref))"

definition GetConsumerUsage :: "bool \<Rightarrow> hptr \<Rightarrow> bool \<Rightarrow> BufferManager \<Rightarrow> dev_result" where
  "GetConsumerUsage device p has_out b = get_from_handle device b p has_out (\<lambda>h. Out_usage (hnd_consumer_usage h))"

definition GetBufferDimensions :: "bool \<Rightarrow> hptr \<Rightarrow> bool \<Rightarrow> BufferManager \<Rightarrow> dev_result" where
  "GetBufferDimensions device p has_out b = get_from_handle device b p has_out
     (\<lambda>h. Out_ints [uint (UINT (hnd_unaligned_width h)), uint (UINT (hnd_unaligned_height h))])"

definition GetColorFormat :: "bool \<Rightarrow> hptr \<Rightarrow> bool \<Rightarrow> BufferManager \<Rightarrow> dev_result" where
  "GetColorFormat device p has_out b = get_from_handle device b p has_out (\<lambda>h. Out_format (hnd_format h))"

definition GetLayerCount :: "bool \<Rightarrow> hptr \<Rightarrow> bool \<Rightarrow> BufferManager \<Rightarrow> dev_result" where
  "GetLayerCount device p has_out b = get_from_handle device b p has_out (\<lambda>h. Out_ints [uint (hnd_layer_count h)])"

definition GetProducerUsage :: "bool \<Rightarrow> hptr \<Rightarrow> bool \<Rightarrow> BufferManager \<Rightarrow> dev_result" where
  "GetProducerUsage device p has_out b =
     (if \<not> has_out then Inr (BAD_VALUE, No_out, b)
      else get_from_handle device b p has_out (\<lambda>h. Out_usage (hnd_producer_usage h)))"

definition GetBufferStride :: "bool \<Rightarrow> hptr \<Rightarrow> bool \<Rightarrow> BufferManager \<Rightarrow> dev_result" where
  "GetBufferStride device p has_out b =
     (if \<not> has_out then Inr (BAD_VALUE, No_out, b)
      else get_from_handle device b p has_out (\<lambda>h. Out_ints [uint (UINT (hnd_width h))]))"

definition dev_AllocateBuffers :: "dev_env \<Rightarrow> bool \<Rightarrow> u64 list option \<Rightarrow> bool \<Rightarrow> BufferManager \<Rightarrow> dev_result" where
  "dev_AllocateBuffers E device descriptors has_out b = (case descriptors of
     None \<Rightarrow> Inr (BAD_DESCRIPTOR, No_out, b)
   | Some ids \<Rightarrow>
       if ids = [] then Inr (BAD_DESCRIPTOR, No_out, b)
       else if \<not> device then Inr (BAD_VALUE, No_out, b)
       else mbind (AllocateBuffers (dmgr E) b ids has_out) (\<lambda>(r, ps, b). Inr (r, Out_handles ps, b)))"

definition dev_RetainBuffer :: "dev_env \<Rightarrow> bool \<Rightarrow> hptr \<Rightarrow> BufferManager \<Rightarrow> dev_result" where
  "dev_RetainBuffer E device p b =
     mbind (CheckDeviceAndHandle device b p) (\<lambda>status.
       if status \<noteq> ERROR_NONE then Inr (status, No_out, b)
       else mbind (RetainBuffer (dmgr E) b p) (\<lambda>(r, b). Inr (r, No_out, b)))"

definition dev_ReleaseBuffer :: "dev_env \<Rightarrow> bool \<Rightarrow> hptr \<Rightarrow> BufferManager \<Rightarrow> dev_result" where
  "dev_ReleaseBuffer E device p b =
     (if \<not> device \<or> p = 0 then Inr (BAD_DESCRIPTOR, No_out, b)
      else mbind (ReleaseBuffer (dmgr E) b p) (\<lambda>(r, b). Inr (r, No_out, b)))"

definition dev_GetNumFlexPlanes :: "bool \<Rightarrow> hptr \<Rightarrow> bool \<Rightarrow> BufferManager \<Rightarrow> dev_result" where
  "dev_GetNumFlexPlanes device p has_out b =
     (if \<not> has_out then Inr (BAD_VALUE, No_out, b)
      else mbind (CheckDeviceAndHandle device b p) (\<lambda>status.
        if status \<noteq> ERROR_NONE then Inr (status, No_out, b)
        else mbind (deref b p) (\<lambda>hnd. case mgr_GetNumFlexPlanes hnd of
          (r, n) \<Rightarrow> Inr (r, case n of Some n \<Rightarrow> Out_ints [uint n] | None \<Rightarrow> No_out, b))))"

definition CloseFdIfValid :: "int \<Rightarrow> BufferManager \<Rightarrow> BufferManager" where
  "CloseFdIfValid fd b = (if 0 < fd then mgr_sys (Close_fd fd) b else b)"

text \<open>\<open>has_out\<close> is about the pointers for the address and the region.  The address is that of the handle after the lock.\<close>

definition dev_LockBuffer :: "dev_env \<Rightarrow> bool \<Rightarrow> hptr \<Rightarrow> usage \<Rightarrow> usage \<Rightarrow> bool \<Rightarrow> int \<Rightarrow> BufferManager \<Rightarrow> dev_result" where
  "dev_LockBuffer E device p prod_usage cons_usage has_out fence b =
     mbind (CheckDeviceAndHandle device b p) (\<lambda>status.
       if status \<noteq> ERROR_NONE \<or> \<not> has_out then Inr (status, No_out, CloseFdIfValid fence b)
       else let error = (if 0 < fence then sync_wait E (history b) fence else 0);
                b = CloseFdIfValid fence b
       in if error < 0 then Inr (UNDEFINED, No_out, b)
          else mbind (LockBuffer (dmgr E) b p prod_usage cons_usage) (\<lambda>(status, b).
            mbind (deref b p) (\<lambda>hnd. Inr (status, Out_id (hnd_base hnd), b))))"

text \<open>\<open>planes\<close> is \<open>None\<close> for a null layout; a layout that is not filled in is \<open>None\<close> in the result.\<close>

definition LockFlex :: "dev_env \<Rightarrow> bool \<Rightarrow> hptr \<Rightarrow> usage \<Rightarrow> usage \<Rightarrow> bool \<Rightarrow> nat option \<Rightarrow> int \<Rightarrow> BufferManager
    \<Rightarrow> (gralloc1_error \<times> flex_plane list option \<times> BufferManager) mem" where
  "LockFlex E device p prod_usage cons_usage has_region planes fence b = (case planes of
     None \<Rightarrow> Inr (BAD_VALUE, None, CloseFdIfValid fence b)
   | Some n \<Rightarrow> mbind (dev_LockBuffer E device p prod_usage cons_usage has_region fence b) (\<lambda>(status, _, b).
       if status \<noteq> ERROR_NONE then Inr (status, None, b)
       else mbind (GetFlexLayout E b p n) (\<lambda>(_, layout, b). Inr (status, layout, b))))"

definition dev_UnlockBuffer :: "dev_env \<Rightarrow> bool \<Rightarrow> hptr \<Rightarrow> bool \<Rightarrow> BufferManager \<Rightarrow> dev_result" where
  "dev_UnlockBuffer E device p has_fence b =
     mbind (CheckDeviceAndHandle device b p) (\<lambda>status.
       if status \<noteq> ERROR_NONE then Inr (status, No_out, b)
       else if \<not> has_fence then Inr (BAD_VALUE, No_out, b)
       else mbind (UnlockBuffer (dmgr E) b p) (\<lambda>(r, b). Inr (r, Out_ints [- 1], b)))"

definition Gralloc1Perform :: "dev_env \<Rightarrow> bool \<Rightarrow> perform_op \<Rightarrow> BufferManager \<Rightarrow> dev_result" where
  "Gralloc1Perform E device op b = (if \<not> device then Inr (BAD_VALUE, No_out, b) else Perform E op b)"

definition dev_ValidateBufferSize :: "dev_env \<Rightarrow> bool \<Rightarrow> hptr \<Rightarrow> BufferInfo \<Rightarrow> BufferManager \<Rightarrow> dev_result" where
  "dev_ValidateBufferSize E device p info b =
     (if \<not> device \<or> p = 0 then Inr (BAD_VALUE, No_out, b)
      else mbind (deref b p) (\<lambda>hnd.
        if \<not> validate (Some hnd) \<or> IsBufferImported b p \<noteq> ERROR_NONE then Inr (BAD_VALUE, No_out, b)
        else case mgr_ValidateBufferSize E b hnd info of (r, b) \<Rightarrow> Inr (r, No_out, b)))"

text \<open>\<open>num_ints\<close> is \<open>NumInts()\<close>, which \<open>validate\<close> has compared the handle with.\<close>

definition GetTransportSize :: "u32 \<Rightarrow> hptr \<Rightarrow> bool \<Rightarrow> BufferManager \<Rightarrow> dev_result" where
  "GetTransportSize num_ints p has_out b =
     (if p = 0 then Inr (BAD_VALUE, No_out, b)
      else mbind (deref b p) (\<lambda>hnd.
        if \<not> validate (Some hnd) then Inr (BAD_VALUE, No_out, b)
        else if \<not> has_out then Inl NullDeref
        else Inr (ERROR_NONE, Out_ints [2, uint num_ints], b)))"

text \<open>
  The clone is an object of its own.  When it cannot be retained its two descriptors are closed and
  the object is deleted.
\<close>

definition ImportBuffer :: "dev_env \<Rightarrow> bool \<Rightarrow> hptr \<Rightarrow> BufferManager \<Rightarrow> dev_result" where
  "ImportBuffer E device p b =
     (if \<not> device then Inr (BAD_VALUE, No_out, b)
      else if p = 0 then Inr (BAD_HANDLE, No_out, b)
      else mbind (deref b p) (\<lambda>hnd. case native_handle_clone E (history b) hnd of
        None \<Rightarrow> Inr (NO_RESOURCES, No_out, b)
      | Some clone \<Rightarrow>
          let q = new_addr (heap b)
          in mbind (RetainBuffer (dmgr E) (put_handle q clone b) q) (\<lambda>(error, b).
            if error \<noteq> ERROR_NONE
            then mbind (deref b q) (\<lambda>h. Inr (error, No_out,
                   delete_handle q (mgr_sys (Close_fd (hnd_fd_metadata h)) (mgr_sys (Close_fd (hnd_fd h)) b))))
            else Inr (ERROR_NONE, Out_handles [q], b))))"

subsection \<open>Calls\<close>

datatype (plugins only: code size) dev_op =
    D_CREATE_DESCRIPTOR bool
  | D_DESTROY_DESCRIPTOR u64
  | D_SET_CONSUMER_USAGE u64 usage
  | D_SET_DIMENSIONS u64 u32 u32
  | D_SET_FORMAT u64 hal_format
  | D_SET_LAYER_COUNT u64 u32
  | D_SET_PRODUCER_USAGE u64 usage
  | D_GET_BACKING_STORE hptr bool
  | D_GET_CONSUMER_USAGE hptr bool
  | D_GET_DIMENSIONS hptr bool
  | D_GET_FORMAT hptr bool
  | D_GET_LAYER_COUNT hptr bool
  | D_GET_PRODUCER_USAGE hptr bool
  | D_GET_STRIDE hptr bool
  | D_ALLOCATE "u64 list option" bool
  | D_RETAIN hptr
  | D_RELEASE hptr
  | D_GET_NUM_FLEX_PLANES hptr bool
  | D_LOCK hptr usage usage bool int
  | D_LOCK_FLEX hptr usage usage bool "nat option" int
  | D_UNLOCK hptr bool
  | D_PERFORM perform_op
  | D_VALIDATE_BUFFER_SIZE hptr BufferInfo
  | D_GET_TRANSPORT_SIZE u32 hptr bool
  | D_IMPORT_BUFFER hptr
  | D_client_handle private_handle
  | D_client_delete hptr

definition dev_exec :: "dev_env \<Rightarrow> bool \<Rightarrow> dev_op \<Rightarrow> BufferManager \<Rightarrow> dev_result" where
  "dev_exec E device op = (case op of
     D_CREATE_DESCRIPTOR has_out \<Rightarrow> dev_CreateBufferDescriptor device has_out
   | D_DESTROY_DESCRIPTOR i \<Rightarrow> dev_DestroyBufferDescriptor device i
   | D_SET_CONSUMER_USAGE i u \<Rightarrow> SetConsumerUsage device i u
   | D_SET_DIMENSIONS i w h \<Rightarrow> SetBufferDimensions device i w h
   | D_SET_FORMAT i f \<Rightarrow> SetColorFormat device i f
   | D_SET_LAYER_COUNT i n \<Rightarrow> SetLayerCount device i n
   | D_SET_PRODUCER_USAGE i u \<Rightarrow> SetProducerUsage device i u
   | D_GET_BACKING_STORE p has_out \<Rightarrow> GetBackingStore device p has_out
   | D_GET_CONSUMER_USAGE p has_out \<Rightarrow> GetConsumerUsage device p has_out
   | D_GET_DIMENSIONS p has_out \<Rightarrow> GetBufferDimensions device p has_out
   | D_GET_FORMAT p has_out \<Rightarrow> GetColorFormat device p has_out
   | D_GET_LAYER_COUNT p has_out \<Rightarrow> GetLayerCount device p has_out
   | D_GET_PRODUCER_USAGE p has_out \<Rightarrow> GetProducerUsage device p has_out
   | D_GET_STRIDE p has_out \<Rightarrow> GetBufferStride device p has_out
   | D_ALLOCATE ids has_out \<Rightarrow> dev_AllocateBuffers E device ids has_out
   | D_RETAIN p \<Rightarrow> dev_RetainBuffer E device p
   | D_RELEASE p \<Rightarrow> dev_ReleaseBuffer E device p
   | D_GET_NUM_FLEX_PLANES p has_out \<Rightarrow> dev_GetNumFlexPlanes device p has_out
   | D_LOCK p pu cu has_out fence \<Rightarrow> dev_LockBuffer E device p pu cu has_out fence
   | D_LOCK_FLEX p pu cu has_region planes fence \<Rightarrow> (\<lambda>b.
       mbind (LockFlex E device p pu cu has_region planes fence b) (\<lambda>(r, layout, b). Inr (r, No_out, b)))
   | D_UNLOCK p has_fence \<Rightarrow> dev_UnlockBuffer E device p has_fence
   | D_PERFORM op \<Rightarrow> Gralloc1Perform E device op
   | D_VALIDATE_BUFFER_SIZE p info \<Rightarrow> dev_ValidateBufferSize E device p info
   | D_GET_TRANSPORT_SIZE n p has_out \<Rightarrow> GetTransportSize n p has_out
   | D_IMPORT_BUFFER p \<Rightarrow> ImportBuffer E device p
   | D_client_handle h \<Rightarrow> (\<lambda>b. Inr (ERROR_NONE, No_out, put_handle (new_addr (heap b)) h b))
   | D_client_delete p \<Rightarrow> (\<lambda>b. Inr (ERROR_NONE, No_out, delete_handle p b)))"

text \<open>
  What the interface asks of clients.  A handle that is handed in exists or is null; output pointers
  the code does not check are there; an array of planes has three elements; a registered handle is
  not deleted, and there are fewer than \<open>2 ^ 31 - 1\<close> references to it.
\<close>

definition exists_or_null :: "BufferManager \<Rightarrow> hptr \<Rightarrow> bool" where
  "exists_or_null b p = (p = 0 \<or> map_of (heap b) p \<noteq> None)"

definition perform_handle :: "perform_op \<Rightarrow> hptr" where
  "perform_handle op = (case op of
     GET_CUSTOM_STRIDE_FROM_HANDLE p _ \<Rightarrow> p | GET_CUSTOM_STRIDE_AND_HEIGHT_FROM_HANDLE p _ \<Rightarrow> p
   | GET_COLOR_SPACE_FROM_HANDLE p _ \<Rightarrow> p | GET_YUV_PLANE_INFO p _ \<Rightarrow> p | GET_MAP_SECURE_BUFFER_INFO p _ \<Rightarrow> p
   | GET_UBWC_FLAG p _ \<Rightarrow> p | GET_RGB_DATA_ADDRESS p _ \<Rightarrow> p | GET_INTERLACE_FLAG p _ \<Rightarrow> p | _ \<Rightarrow> 0)"

definition dev_client_ok :: "BufferManager \<Rightarrow> dev_op \<Rightarrow> bool" where
  "dev_client_ok b op = (case op of
     D_CREATE_DESCRIPTOR has_out \<Rightarrow> has_out
   | D_GET_BACKING_STORE p has_out \<Rightarrow> exists_or_null b p \<and> has_out
   | D_GET_CONSUMER_USAGE p has_out \<Rightarrow> exists_or_null b p \<and> has_out
   | D_GET_DIMENSIONS p has_out \<Rightarrow> exists_or_null b p \<and> has_out
   | D_GET_FORMAT p has_out \<Rightarrow> exists_or_null b p \<and> has_out
   | D_GET_LAYER_COUNT p has_out \<Rightarrow> exists_or_null b p \<and> has_out
   | D_GET_PRODUCER_USAGE p has_out \<Rightarrow> exists_or_null b p
   | D_GET_STRIDE p has_out \<Rightarrow> exists_or_null b p
   | D_RETAIN p \<Rightarrow> exists_or_null b p \<and> refs b p < 2 ^ 31 - 1
   | D_RELEASE p \<Rightarrow> exists_or_null b p
   | D_GET_NUM_FLEX_PLANES p has_out \<Rightarrow> exists_or_null b p
   | D_LOCK p pu cu has_out fence \<Rightarrow> exists_or_null b p
   | D_LOCK_FLEX p pu cu has_region planes fence \<Rightarrow> exists_or_null b p \<and> (case planes of None \<Rightarrow> True | Some n \<Rightarrow> 3 \<le> n)
   | D_UNLOCK p has_fence \<Rightarrow> exists_or_null b p
   | D_PERFORM op \<Rightarrow> exists_or_null b (perform_handle op)
   | D_VALIDATE_BUFFER_SIZE p info \<Rightarrow> exists_or_null b p
   | D_GET_TRANSPORT_SIZE n p has_out \<Rightarrow> exists_or_null b p \<and> has_out
   | D_IMPORT_BUFFER p \<Rightarrow> exists_or_null b p
   | D_client_delete p \<Rightarrow> refs b p = 0
   | _ \<Rightarrow> True)"

text \<open>A call with its result, and what it does to the number of references of each handle.\<close>

type_synonym dev_label = "bool \<times> dev_op \<times> gralloc1_error \<times> dev_out"

definition dev_step :: "dev_env \<Rightarrow> dev_label \<Rightarrow> BufferManager \<Rightarrow> BufferManager \<Rightarrow> bool" where
  "dev_step E l b b' = (case l of (device, op, r, out) \<Rightarrow> dev_client_ok b op \<and> dev_exec E device op b = Inr (r, out, b'))"

definition taken :: "dev_out \<Rightarrow> (hptr \<Rightarrow> nat) \<Rightarrow> (hptr \<Rightarrow> nat) \<Rightarrow> bool" where
  "taken out f g = (case out of
     Out_handles ps \<Rightarrow> distinct ps \<and> list_all (\<lambda>p. f p = 0) ps \<and> g = first_refs ps f
   | _ \<Rightarrow> g = f)"

definition perform_refs :: "perform_op \<Rightarrow> dev_out \<Rightarrow> (hptr \<Rightarrow> nat) \<Rightarrow> (hptr \<Rightarrow> nat) \<Rightarrow> bool" where
  "perform_refs op out f g = (case op of ALLOCATE_BUFFER _ _ _ _ _ _ \<Rightarrow> taken out f g | _ \<Rightarrow> g = f)"

definition dev_refs :: "dev_label \<Rightarrow> (hptr \<Rightarrow> nat) \<Rightarrow> (hptr \<Rightarrow> nat) \<Rightarrow> bool" where
  "dev_refs l f g = (case l of (device, op, r, out) \<Rightarrow> (case op of
     D_ALLOCATE _ _ \<Rightarrow> taken out f g
   | D_IMPORT_BUFFER _ \<Rightarrow> (if r = ERROR_NONE then \<exists>q. out = Out_handles [q] \<and> f q = 0 \<and> g = f(q := 1) else g = f)
   | D_PERFORM op \<Rightarrow> perform_refs op out f g
   | D_RETAIN p \<Rightarrow> (if r = ERROR_NONE then g = f(p := f p + 1) else g = f)
   | D_RELEASE p \<Rightarrow> (if device \<and> 0 < f p then r = ERROR_NONE \<and> g = f(p := f p - 1) else r \<noteq> ERROR_NONE \<and> g = f)
   | D_LOCK p _ _ has_out _ \<Rightarrow> g = f \<and> (r = ERROR_NONE \<and> has_out \<longrightarrow> 0 < f p)
   | D_UNLOCK p _ \<Rightarrow> g = f \<and> (r = ERROR_NONE \<longrightarrow> 0 < f p)
   | D_VALIDATE_BUFFER_SIZE p _ \<Rightarrow> g = f \<and> (r = ERROR_NONE \<longrightarrow> 0 < f p)
   | _ \<Rightarrow> g = f))"

definition is_getter :: "dev_op \<Rightarrow> bool" where
  "is_getter op = (case op of D_GET_BACKING_STORE _ _ \<Rightarrow> True | D_GET_CONSUMER_USAGE _ _ \<Rightarrow> True | D_GET_DIMENSIONS _ _ \<Rightarrow> True
     | D_GET_FORMAT _ _ \<Rightarrow> True | D_GET_LAYER_COUNT _ _ \<Rightarrow> True | D_GET_PRODUCER_USAGE _ _ \<Rightarrow> True | D_GET_STRIDE _ _ \<Rightarrow> True
     | D_GET_NUM_FLEX_PLANES _ _ \<Rightarrow> True | D_GET_TRANSPORT_SIZE _ _ _ \<Rightarrow> True | _ \<Rightarrow> False)"

text \<open>A run computed from the calls, and an example: a buffer is allocated, imported, locked and given back.\<close>

fun dev_trace :: "dev_env \<Rightarrow> BufferManager \<Rightarrow> (bool \<times> dev_op) list \<Rightarrow> (dev_label list \<times> BufferManager) mem" where
  "dev_trace E b [] = Inr ([], b)"
| "dev_trace E b ((device, op) # ops) =
     (if dev_client_ok b op
      then mbind (dev_exec E device op b) (\<lambda>(r, out, b).
        mbind (dev_trace E b ops) (\<lambda>(ls, b). Inr ((device, op, r, out) # ls, b)))
      else Inl Abort)"

definition DE0 :: dev_env where
  "DE0 = \<lparr>dmgr = E0, native_handle_create = (\<lambda>_. Some handle0),
     native_handle_clone = (\<lambda>cs h. Some (h\<lparr>hnd_fd := 100 + int (length cs), hnd_fd_metadata := 101 + int (length cs)\<rparr>)),
     sync_wait = (\<lambda>_ _. 0)\<rparr>"

definition dops0 :: "(bool \<times> dev_op) list" where
  "dops0 = [(True, D_CREATE_DESCRIPTOR True), (True, D_SET_DIMENSIONS 1 640 480), (True, D_SET_FORMAT 1 YCrCb_420_SP),
     (True, D_SET_PRODUCER_USAGE 1 {PRODUCER_CPU_WRITE}), (True, D_ALLOCATE (Some [1]) True), (True, D_IMPORT_BUFFER 1),
     (True, D_LOCK_FLEX 2 {PRODUCER_CPU_WRITE} {} True (Some 3) 7), (True, D_UNLOCK 2 True), (True, D_RELEASE 2)]"

definition dresults0 :: "gralloc1_error list" where
  "dresults0 = [ERROR_NONE, ERROR_NONE, ERROR_NONE, ERROR_NONE, ERROR_NONE, ERROR_NONE, ERROR_NONE, ERROR_NONE, ERROR_NONE]"

definition flex_handle :: private_handle where
  "flex_handle = handle0\<lparr>hnd_format := YCrCb_420_SP, hnd_width := 640, hnd_height := 480, hnd_base := 65536\<rparr>"

definition flex_mgr :: BufferManager where
  "flex_mgr = put_handle 1 flex_handle (BufferManager_new E0 None mem0)"

text \<open>Answers to questions keep the references and the objects.\<close>

definition asks :: "BufferManager \<Rightarrow> BufferManager \<Rightarrow> bool" where
  "asks b b' = (mgr_inv b' \<and> refs b' = refs b \<and> (\<forall>p. map_of (heap b) p \<noteq> None \<longrightarrow> map_of (heap b') p \<noteq> None))"

subsection \<open>Questions\<close>

lemma asks_refl: "mgr_inv b \<Longrightarrow> asks b b"
  by (simp add: asks_def)

lemma asks_trans: "asks b c \<Longrightarrow> asks c d \<Longrightarrow> asks b d"
  by (simp add: asks_def)

lemma asks_put: "mgr_inv b \<Longrightarrow> p \<noteq> 0 \<Longrightarrow> asks b (put_handle p h b)"
  by (simp add: asks_def mgr_frame_put)

lemma asks_sys: "mgr_inv b \<Longrightarrow> asks b (mgr_sys c b)"
  by (simp add: asks_def mgr_frame_sys)

lemma handle_exists:
  assumes "mgr_inv b" "exists_or_null b p" "p \<noteq> 0"
  obtains h where "map_of (heap b) p = Some h" "deref b p = Inr h"
  using assms by (auto simp: exists_or_null_def deref_def)

lemma fetch_asks:
  assumes "mgr_inv b" "map_of (heap b) p \<noteq> None"
  shows "ensures (fetch b p t) (\<lambda>(v, b'). asks b b')"
proof -
  have "p \<noteq> 0" using assms mgr_inv_null by (cases "p = 0") auto
  then show ?thesis
    using assms by (auto simp: fetch_def deref_def ensures_iff asks_put split: prod.splits)
qed

lemma with_handle_asks:
  assumes "mgr_inv b" "exists_or_null b p"
    and "\<And>hnd. map_of (heap b) p = Some hnd \<Longrightarrow> ensures (k hnd) (\<lambda>(r, out, b'). asks b b')"
  shows "ensures (with_handle b p has_out k) (\<lambda>(r, out, b'). asks b b')"
  using assms by (auto simp: with_handle_def exists_or_null_def deref_def asks_refl)

text \<open>
  The second field is never asked for: the flag is only looked at when it could not be fetched, and
  then it is zero.
\<close>

lemma plane_info_one_field: "plane_info env base f w h False \<noteq> Some (x, Some y)"
  by (simp add: plane_info_def Let_def)

lemma GetYUVPlaneInfo_one_field: "GetYUVPlaneInfo env m hnd \<noteq> (Some (x, Some y), hnd')"
  by (auto simp: GetYUVPlaneInfo_def Let_def plane_info_one_field split: prod.splits)

lemma yuv_planes_asks:
  assumes "mgr_inv b" "map_of (heap b) p \<noteq> None"
  shows "ensures (yuv_planes E b p) (\<lambda>(v, b'). asks b b' \<and> (\<forall>x y. v \<noteq> Some (x, Some y)))"
proof -
  have p: "p \<noteq> 0" using assms mgr_inv_null by (cases "p = 0") auto
  obtain h where h: "map_of (heap b) p = Some h" using assms(2) by blast
  obtain v h' where g: "GetYUVPlaneInfo (gre (dmgr E)) (meta b) h = (v, h')" by fastforce
  have "v \<noteq> Some (x, Some y)" for x y
    using GetYUVPlaneInfo_one_field [of "gre (dmgr E)" "meta b" h x y h'] g by auto
  then show ?thesis
    using p h g assms(1) by (simp add: yuv_planes_def deref_def asks_put)
qed

lemma GetFlexLayout_asks:
  assumes "mgr_inv b" "map_of (heap b) p \<noteq> None" "3 \<le> n"
  shows "ensures (GetFlexLayout E b p n) (\<lambda>(r, layout, b'). asks b b')"
proof -
  have p: "p \<noteq> 0" using assms mgr_inv_null by (cases "p = 0") auto
  obtain h where h: "map_of (heap b) p = Some h" using assms(2) by blast
  obtain v b' where y: "yuv_planes E b p = Inr (v, b')" "asks b b'" "\<forall>x y. v \<noteq> Some (x, Some y)"
    using yuv_planes_asks [OF assms(1,2), of E] by (auto simp: ensures_iff)
  then show ?thesis
    using p h assms by (auto simp: GetFlexLayout_def deref_def asks_refl split: option.splits)
qed

lemma perform_color_space_asks:
  assumes "mgr_inv b" "map_of (heap b) p \<noteq> None"
  shows "ensures (perform_color_space b p) (\<lambda>(r, out, b'). asks b b')"
proof -
  obtain v b1 where f: "fetch b p COLOR_METADATA = Inr (v, b1)" "asks b b1"
    using fetch_asks [OF assms, of COLOR_METADATA] by (auto simp: ensures_iff)
  obtain v' b2 where g: "fetch b1 p COLOR_SPACE = Inr (v', b2)" "asks b1 b2"
    using fetch_asks [of b1 p COLOR_SPACE] f(2) assms(2) by (auto simp: ensures_iff asks_def)
  have "asks b b2" using asks_trans f(2) g(2) by blast
  then show ?thesis
    using f g by (simp add: perform_color_space_def split: option.splits meta_param.splits)
qed

lemma fetch_then:
  assumes "mgr_inv b" "map_of (heap b) p \<noteq> None"
  shows "ensures (mbind (fetch b p t) (\<lambda>(v, b). Inr (r, out v, b))) (\<lambda>(r, out, b'). asks b b')"
  using fetch_asks [OF assms, of t] by (auto elim!: ensures_mbind)

lemma yuv_planes_then:
  assumes "mgr_inv b" "map_of (heap b) p \<noteq> None"
  shows "ensures (mbind (yuv_planes E b p) (\<lambda>(planes, b). case planes of
       None \<Rightarrow> Inr (UNDEFINED, No_out, b)
     | Some (top_field, bottom_field) \<Rightarrow> Inr (ERROR_NONE, Out_planes top_field bottom_field, b)))
    (\<lambda>(r, out, b'). asks b b')"
  by (rule ensures_mbind [OF yuv_planes_asks [OF assms]]) (auto split: option.splits)

lemma perform_flags_asks:
  assumes "mgr_inv b" "map_of (heap b) p \<noteq> None"
  shows "ensures (perform_map_secure b p) (\<lambda>(r, out, b'). asks b b')"
    and "ensures (perform_ubwc_flag b p hnd) (\<lambda>(r, out, b'). asks b b')"
    and "ensures (perform_rgb_address b hnd) (\<lambda>(r, out, b'). asks b b')"
    and "ensures (perform_color_space b p) (\<lambda>(r, out, b'). asks b b')"
proof -
  show "ensures (perform_map_secure b p) (\<lambda>(r, out, b'). asks b b')"
    unfolding perform_map_secure_def by (rule fetch_then [OF assms])
  show "ensures (perform_ubwc_flag b p hnd) (\<lambda>(r, out, b'). asks b b')"
    unfolding perform_ubwc_flag_def Let_def by (rule fetch_then [OF assms])
  show "ensures (perform_rgb_address b hnd) (\<lambda>(r, out, b'). asks b b')"
    using assms(1) by (simp add: perform_rgb_address_def asks_refl split: prod.splits)
qed (rule perform_color_space_asks [OF assms])

lemma Perform_asks:
  assumes inv: "mgr_inv b" "exists_or_null b (perform_handle op)" and p: "perform_handle op \<noteq> 0"
  shows "ensures (Perform E op b) (\<lambda>(r, out, b'). asks b b')"
proof -
  define q where "q = perform_handle op"
  have w: "ensures (with_handle b q has_out k) (\<lambda>(r, out, b'). asks b b')"
    if "\<And>hnd. map_of (heap b) q \<noteq> None \<Longrightarrow> ensures (k hnd) (\<lambda>(r, out, b'). asks b b')" for k has_out
    using with_handle_asks [OF inv(1), of q k has_out] inv(2) that by (simp add: q_def)
  note f = fetch_then [OF inv(1)] and g = perform_flags_asks [OF inv(1)]
  consider has_out where "op = GET_CUSTOM_STRIDE_FROM_HANDLE q has_out"
    | has_out where "op = GET_CUSTOM_STRIDE_AND_HEIGHT_FROM_HANDLE q has_out"
    | has_out where "op = GET_COLOR_SPACE_FROM_HANDLE q has_out" | has_out where "op = GET_YUV_PLANE_INFO q has_out"
    | has_out where "op = GET_MAP_SECURE_BUFFER_INFO q has_out" | has_out where "op = GET_UBWC_FLAG q has_out"
    | has_out where "op = GET_RGB_DATA_ADDRESS q has_out" | has_out where "op = GET_INTERLACE_FLAG q has_out"
    using p unfolding q_def perform_handle_def by (cases op) simp_all
  then show ?thesis
  proof cases
    case 1
    show ?thesis unfolding 1 Perform_def perform_op.case by (rule w, rule f)
  next
    case 2
    show ?thesis unfolding 2 Perform_def perform_op.case by (rule w, rule f)
  next
    case 3
    show ?thesis unfolding 3 Perform_def perform_op.case by (rule w, rule g)
  next
    case 4
    show ?thesis unfolding 4 Perform_def perform_op.case by (rule w, rule yuv_planes_then [OF inv(1)])
  next
    case 5
    show ?thesis unfolding 5 Perform_def perform_op.case by (rule w, rule g)
  next
    case 6
    show ?thesis unfolding 6 Perform_def perform_op.case by (rule w, rule g)
  next
    case 7
    show ?thesis unfolding 7 Perform_def perform_op.case by (rule w, rule g)
  next
    case 8
    show ?thesis unfolding 8 Perform_def perform_op.case by (rule w, rule f)
  qed
qed

lemma create_from_buffer_refs:
  assumes "mgr_inv b"
  shows "ensures (create_from_buffer E fd sz offset base w h f b) (\<lambda>(r, out, b'). mgr_inv b' \<and> refs b' = refs b)"
  using mgr_frame_put [OF assms new_addr_free(2) [of "heap b"]] assms
  by (simp add: create_from_buffer_def Let_def split: option.splits prod.splits)

lemma perform_allocate_refs:
  assumes "mgr_inv b"
  shows "ensures (perform_allocate E w h f pu cu has_out b) (\<lambda>(r, out, b'). mgr_inv b' \<and> taken out (refs b) (refs b'))"
proof -
  let ?d = "BufferDescriptor_with (next_desc b) w h f pu cu" and ?b = "b\<lparr>next_desc := next_desc b + 1\<rparr>"
  obtain sz x y where s: "GetBufferSizeAndDimensions (gre (dmgr E)) (GetBufferInfo ?d) = (sz, x, y)"
    by (cases "GetBufferSizeAndDimensions (gre (dmgr E)) (GetBufferInfo ?d)")
  have b: "refs ?b = refs b" "mgr_inv ?b" using assms by simp_all
  show ?thesis
    unfolding perform_allocate_def Let_def s prod.case
    by (rule ensures_mbind [OF AllocateBuffer_refs [OF b(2)]])
      (auto simp: b(1) taken_def split: alloc_result.splits)
qed

lemma Perform_refs:
  assumes "mgr_inv b" "exists_or_null b (perform_handle op)"
  shows "ensures (Perform E op b) (\<lambda>(r, out, b'). mgr_inv b' \<and> perform_refs op out (refs b) (refs b'))"
proof (cases "perform_handle op = 0")
  case False
  moreover from False have "perform_refs op out f g = (g = f)" for out f g
    by (cases op) (simp_all add: perform_handle_def perform_refs_def)
  ultimately show ?thesis
    using Perform_asks [OF assms, of E] by (auto simp: asks_def elim!: ensures_mono)
next
  case True
  have w: "with_handle b 0 has_out k = Inr (BAD_HANDLE, No_out, b)" for has_out k
    by (simp add: with_handle_def)
  show ?thesis
    using True assms(1) create_from_buffer_refs [OF assms(1), of E] perform_allocate_refs [OF assms(1), of E]
    by (cases op) (simp_all add: Perform_def perform_plain_def perform_stride_def perform_attributes_def perform_size_def perform_handle_def
        perform_refs_def w Let_def split: prod.splits)
qed

subsection \<open>Calls on a handle\<close>

lemma CheckDeviceAndHandle_ok:
  assumes "exists_or_null b p"
  obtains "CheckDeviceAndHandle device b p = Inr BAD_HANDLE"
  | h where "CheckDeviceAndHandle device b p = Inr ERROR_NONE" "device" "p \<noteq> 0" "map_of (heap b) p = Some h"
      "deref b p = Inr h" "validate (Some h)"
proof (cases "\<not> device \<or> p = 0")
  case True
  then show ?thesis using that(1) by (simp add: CheckDeviceAndHandle_def)
next
  case False
  then obtain h where h: "map_of (heap b) p = Some h" "deref b p = Inr h"
    using assms by (auto simp: exists_or_null_def deref_def)
  show ?thesis
    using that(1) that(2) [OF _ _ _ h] False h(2) by (cases "validate (Some h)") (simp_all add: CheckDeviceAndHandle_def)
qed

lemma get_from_handle_ok:
  assumes "mgr_inv b" "exists_or_null b p" "has_out"
  shows "ensures (get_from_handle device b p has_out get) (\<lambda>(r, out, b'). b' = b)"
  using assms(2) by (cases rule: CheckDeviceAndHandle_ok [where device = device]) (simp_all add: get_from_handle_def assms(3))

lemma LockBuffer_unregistered:
  assumes "mgr_inv b" "refs b p = 0"
  shows "\<exists>r. LockBuffer E b p pu cu = Inr (r, b)"
  using assms refs_0_iff [of b p] by (auto simp: LockBuffer_def GetBufferFromHandleLocked_def)

lemma registered_exists: "mgr_inv b \<Longrightarrow> 0 < refs b p \<Longrightarrow> \<exists>h. map_of (heap b) p = Some h"
  by (auto simp: mgr_inv_def refs_def split: option.splits)

lemma LockBuffer_exists:
  assumes "mgr_inv b" "map_of (heap b) p \<noteq> None"
  shows "ensures (LockBuffer E b p pu cu) (\<lambda>(r, b'). mgr_inv b' \<and> refs b' = refs b \<and>
    (r = ERROR_NONE \<longrightarrow> 0 < refs b p) \<and> map_of (heap b') p \<noteq> None)"
proof (cases "refs b p = 0")
  case True
  then show ?thesis
    using LockBuffer_unregistered [OF assms(1) True, of E pu cu] LockBuffer_refs [OF assms(1), of E p pu cu] assms by auto
next
  case False
  then show ?thesis
    using LockBuffer_refs [OF assms(1), of E p pu cu] registered_exists by (fastforce elim!: ensures_mono)
qed

lemma CloseFdIfValid_asks: "mgr_inv b \<Longrightarrow> asks b (CloseFdIfValid fd b)"
  by (simp add: CloseFdIfValid_def asks_refl asks_sys)

lemma dev_LockBuffer_refs:
  assumes "mgr_inv b" "exists_or_null b p"
  shows "ensures (dev_LockBuffer E device p pu cu has_out fence b) (\<lambda>(r, out, b'). mgr_inv b' \<and> refs b' = refs b \<and>
    (r = ERROR_NONE \<longrightarrow> map_of (heap b') p \<noteq> None \<and> (has_out \<longrightarrow> 0 < refs b p)))"
  using assms(2)
proof (cases rule: CheckDeviceAndHandle_ok [where device = device])
  case 1
  then show ?thesis
    using CloseFdIfValid_asks [OF assms(1), of fence] by (simp add: dev_LockBuffer_def asks_def)
next
  case (2 h)
  let ?b = "CloseFdIfValid fence b"
  have b: "mgr_inv ?b" "refs ?b = refs b" "map_of (heap ?b) p \<noteq> None"
    using CloseFdIfValid_asks [OF assms(1), of fence] 2(4) by (auto simp: asks_def)
  obtain r b' where l: "LockBuffer (dmgr E) ?b p pu cu = Inr (r, b')" "mgr_inv b'" "refs b' = refs b"
      "r = ERROR_NONE \<longrightarrow> 0 < refs b p" "map_of (heap b') p \<noteq> None"
    using LockBuffer_exists [OF b(1,3), of "dmgr E" pu cu] b(2) by (auto simp: ensures_iff)
  then show ?thesis
    using 2 b by (auto simp: dev_LockBuffer_def Let_def deref_def)
qed

lemma Import_keeps_object:
  "ImportHandleLocked E b p = Inr (r, b') \<Longrightarrow> map_of (heap b) q \<noteq> None \<Longrightarrow> map_of (heap b') q \<noteq> None"
  by (auto simp: ImportHandleLocked_def Let_def mbind_eq_Inr_iff RegisterHandleLocked_def split: if_splits prod.splits)

lemma RetainBuffer_keeps_object:
  assumes "RetainBuffer E b p = Inr (r, b')" "map_of (heap b) q \<noteq> None"
  shows "map_of (heap b') q \<noteq> None"
  using assms Import_keeps_object [of E b p r b' q] by (auto simp: RetainBuffer_def split: option.splits)

lemma retain_allowed:
  assumes "mgr_inv b" "map_of (heap b) p \<noteq> None" "refs b p < 2 ^ 31 - 1"
  shows "client_ok b (Retain p)"
  using assms by (auto simp: client_ok_def refs_def split: option.splits)

lemma dev_RetainBuffer_refs:
  assumes "mgr_inv b" "exists_or_null b p" "refs b p < 2 ^ 31 - 1"
  shows "ensures (dev_RetainBuffer E device p b) (\<lambda>(r, out, b'). mgr_inv b' \<and>
    refs b' = (if r = ERROR_NONE then (refs b)(p := refs b p + 1) else refs b))"
  using assms(2)
proof (cases rule: CheckDeviceAndHandle_ok [where device = device])
  case 1
  then show ?thesis using assms(1) by (simp add: dev_RetainBuffer_def)
next
  case (2 h)
  then have "client_ok b (Retain p)" using retain_allowed [OF assms(1) _ assms(3)] by simp
  from RetainBuffer_refs [OF assms(1) this, of "dmgr E"] show ?thesis
    using 2 by (auto simp: dev_RetainBuffer_def ref_result_def elim!: ensures_mbind)
qed

lemma dev_ReleaseBuffer_refs:
  assumes "mgr_inv b" "exists_or_null b p"
  shows "ensures (dev_ReleaseBuffer E device p b) (\<lambda>(r, out, b'). mgr_inv b' \<and>
    (if device \<and> 0 < refs b p then r = ERROR_NONE \<and> refs b' = (refs b)(p := refs b p - 1)
     else r \<noteq> ERROR_NONE \<and> refs b' = refs b))"
proof (cases "device \<and> p \<noteq> 0")
  case True
  then have "client_ok b (Release p)" using assms by (auto simp: client_ok_def exists_or_null_def)
  from ReleaseBuffer_refs [OF assms(1) this, of "dmgr E"] show ?thesis
    using True by (auto simp: dev_ReleaseBuffer_def elim!: ensures_mbind)
next
  case False
  moreover have "refs b 0 = 0"
    using registered_exists [OF assms(1), of 0] mgr_inv_null [OF assms(1)] by (cases "refs b 0 = 0") auto
  ultimately show ?thesis using assms(1) by (auto simp: dev_ReleaseBuffer_def)
qed

lemma dev_UnlockBuffer_refs:
  assumes "mgr_inv b" "exists_or_null b p"
  shows "ensures (dev_UnlockBuffer E device p has_fence b) (\<lambda>(r, out, b'). mgr_inv b' \<and> refs b' = refs b \<and>
    (r = ERROR_NONE \<longrightarrow> 0 < refs b p))"
  using assms(2)
proof (cases rule: CheckDeviceAndHandle_ok [where device = device])
  case 1
  then show ?thesis using assms(1) by (simp add: dev_UnlockBuffer_def)
next
  case (2 h)
  from UnlockBuffer_refs [OF assms(1), of "dmgr E" p] show ?thesis
    using 2 assms(1) by (auto simp: dev_UnlockBuffer_def elim!: ensures_mbind)
qed

lemma LockFlex_refs:
  assumes "mgr_inv b" "exists_or_null b p" "\<And>n. planes = Some n \<Longrightarrow> 3 \<le> n"
  shows "ensures (LockFlex E device p pu cu has_region planes fence b) (\<lambda>(r, layout, b'). mgr_inv b' \<and> refs b' = refs b)"
proof (cases planes)
  case None
  then show ?thesis using CloseFdIfValid_asks [OF assms(1), of fence] by (simp add: LockFlex_def asks_def)
next
  case (Some n)
  obtain r out b1 where l: "dev_LockBuffer E device p pu cu has_region fence b = Inr (r, out, b1)" "mgr_inv b1"
      "refs b1 = refs b" "r = ERROR_NONE \<longrightarrow> map_of (heap b1) p \<noteq> None"
    using dev_LockBuffer_refs [OF assms(1,2), of E device pu cu has_region fence] by (auto simp: ensures_iff)
  show ?thesis
  proof (cases "r = ERROR_NONE")
    case True
    then obtain r' layout b2 where "GetFlexLayout E b1 p n = Inr (r', layout, b2)" "asks b1 b2"
      using GetFlexLayout_asks [OF l(2), of p n E] l(4) assms(3) [OF Some] by (auto simp: ensures_iff)
    then show ?thesis using l True Some by (simp add: LockFlex_def asks_def)
  qed (use l Some in \<open>simp add: LockFlex_def\<close>)
qed

lemma dev_ValidateBufferSize_refs:
  assumes "mgr_inv b" "exists_or_null b p"
  shows "ensures (dev_ValidateBufferSize E device p info b) (\<lambda>(r, out, b'). mgr_inv b' \<and> refs b' = refs b \<and>
    (r = ERROR_NONE \<longrightarrow> 0 < refs b p))"
  using assms refs_0_iff [OF assms(1), of p] mgr_frame_sys [OF assms(1)]
  by (auto simp: dev_ValidateBufferSize_def exists_or_null_def deref_def IsBufferImported_def GetBufferFromHandleLocked_def
      mgr_ValidateBufferSize_def Let_def split: prod.splits)

lemma ImportBuffer_refs:
  assumes "mgr_inv b" "exists_or_null b p"
  shows "ensures (ImportBuffer E device p b) (\<lambda>(r, out, b'). mgr_inv b' \<and>
    (if r = ERROR_NONE then \<exists>q. out = Out_handles [q] \<and> refs b q = 0 \<and> refs b' = (refs b)(q := 1) else refs b' = refs b))"
proof -
  define q where "q = new_addr (heap b)"
  consider "\<not> device \<or> p = 0" | h where "device" "p \<noteq> 0" "deref b p = Inr h" "native_handle_clone E (history b) h = None"
    | h c where "device" "p \<noteq> 0" "deref b p = Inr h" "native_handle_clone E (history b) h = Some c"
    using handle_exists [OF assms] by (metis option.exhaust)
  then show ?thesis
  proof cases
    case (3 h c)
    let ?b = "put_handle q c b"
    have b: "mgr_inv ?b" "refs ?b = refs b" "refs b q = 0" "map_of (heap ?b) q \<noteq> None"
      using mgr_frame_put [OF assms(1) new_addr_free(2)] new_addr_refs [OF assms(1)] by (simp_all add: q_def)
    obtain r b' where r: "RetainBuffer (dmgr E) ?b q = Inr (r, b')" "ref_result q (refs b) (r, b')"
      using RetainBuffer_refs [OF b(1) retain_allowed [OF b(1,4)], of "dmgr E"] b(2,3) by (auto simp: ensures_iff)
    obtain h' where h': "map_of (heap b') q = Some h'" using RetainBuffer_keeps_object [OF r(1) b(4)] by blast
    have q: "q \<noteq> 0" by (simp add: q_def new_addr_free(2))
    let ?c = "mgr_sys (Close_fd (hnd_fd_metadata h')) (mgr_sys (Close_fd (hnd_fd h')) b')"
    have "mgr_inv ?c" "refs ?c = refs b'" if "mgr_inv b'" using mgr_frame_sys that by simp_all
    then have "mgr_inv (delete_handle q ?c)" "refs (delete_handle q ?c) = refs b'" if "mgr_inv b'" "refs b' q = 0"
      using delete_refs [of ?c q] that by simp_all
    then show ?thesis
      using 3 r(2) b(3) h' q
      by (auto simp: ImportBuffer_def Let_def r(1) deref_Inr ref_result_def simp flip: q_def)
  qed (use assms(1) in \<open>simp_all add: ImportBuffer_def\<close>)
qed

lemma describe_refs:
  assumes "mgr_inv b"
  shows "ensures (describe device i f b) (\<lambda>(r, out, b'). mgr_inv b' \<and> refs b' = refs b)"
  using assms by (simp add: describe_def CallBufferDescriptorFunction_def split: option.splits)

lemmas setter_defs = SetConsumerUsage_def SetBufferDimensions_def SetColorFormat_def SetLayerCount_def SetProducerUsage_def

lemmas getter_defs = GetConsumerUsage_def GetBufferDimensions_def GetColorFormat_def GetLayerCount_def GetProducerUsage_def
  GetBufferStride_def

lemma getters_ask:
  assumes "mgr_inv b" "dev_client_ok b op" "is_getter op"
  shows "ensures (dev_exec E device op b) (\<lambda>(r, out, b'). b' = b)"
proof -
  have g: "ensures (get_from_handle device b p True get) (\<lambda>(r, out, b'). b' = b)" if "exists_or_null b p" for p get
    by (rule get_from_handle_ok [OF assms(1) that]) simp
  show ?thesis
  proof (cases op)
    case (D_GET_BACKING_STORE p has_out)
    then show ?thesis
      using assms(2) by (auto simp: dev_exec_def dev_client_ok_def GetBackingStore_def exists_or_null_def deref_def)
  next
    case (D_GET_NUM_FLEX_PLANES p has_out)
    then have "exists_or_null b p" using assms(2) by (simp add: dev_client_ok_def)
    then show ?thesis
      by (cases rule: CheckDeviceAndHandle_ok [where device = device])
        (simp_all add: D_GET_NUM_FLEX_PLANES dev_exec_def dev_GetNumFlexPlanes_def split: prod.splits)
  next
    case (D_GET_TRANSPORT_SIZE n p has_out)
    then show ?thesis
      using assms(2) by (auto simp: dev_exec_def dev_client_ok_def GetTransportSize_def exists_or_null_def deref_def)
  qed (use assms g in \<open>auto simp: dev_exec_def dev_client_ok_def getter_defs is_getter_def\<close>)
qed

lemma dev_exec_refs:
  assumes inv: "mgr_inv b" and ok: "dev_client_ok b op"
  shows "ensures (dev_exec E device op b) (\<lambda>(r, out, b'). mgr_inv b' \<and> dev_refs (device, op, r, out) (refs b) (refs b'))"
proof (cases "is_getter op")
  case True
  then have "dev_refs (device, op, r, out) f f" for r out f
    by (cases op) (simp_all add: is_getter_def dev_refs_def)
  then show ?thesis
    using getters_ask [OF inv ok True, of E device] inv by (auto elim!: ensures_mono)
next
  case False
  note d = dev_exec_def dev_refs_def dev_client_ok_def
  show ?thesis
  proof (cases op)
    case (D_CREATE_DESCRIPTOR has_out)
    then show ?thesis
      using inv ok by (simp add: d dev_CreateBufferDescriptor_def CreateBufferDescriptor_def Let_def)
  next
    case (D_DESTROY_DESCRIPTOR i)
    then show ?thesis using inv by (simp add: d dev_DestroyBufferDescriptor_def DestroyBufferDescriptor_def)
  next
    case (D_ALLOCATE ids has_out)
    show ?thesis
    proof (cases "ids = None \<or> ids = Some [] \<or> \<not> device")
      case True
      then show ?thesis
        using D_ALLOCATE inv by (auto simp: d dev_AllocateBuffers_def taken_def split: option.splits)
    next
      case False
      then obtain js where "ids = Some js" "js \<noteq> []" "device" by auto
      moreover from AllocateBuffers_refs [OF inv, of "dmgr E" js has_out]
      have "ensures (mbind (AllocateBuffers (dmgr E) b js has_out) (\<lambda>(r, ps, b). Inr (r, Out_handles ps, b)))
          (\<lambda>(r, out, b'). mgr_inv b' \<and> taken out (refs b) (refs b'))"
        by (auto simp: taken_def elim!: ensures_mbind)
      ultimately show ?thesis using D_ALLOCATE by (simp add: d dev_AllocateBuffers_def)
    qed
  next
    case (D_LOCK p pu cu has_out fence)
    then show ?thesis
      using ok dev_LockBuffer_refs [OF inv, of p E device pu cu has_out fence] by (auto simp: d elim!: ensures_mono)
  next
    case (D_LOCK_FLEX p pu cu has_region planes fence)
    then have "ensures (LockFlex E device p pu cu has_region planes fence b) (\<lambda>(r, layout, b'). mgr_inv b' \<and> refs b' = refs b)"
      using ok by (intro LockFlex_refs [OF inv]) (auto simp: dev_client_ok_def)
    then show ?thesis
      using D_LOCK_FLEX by (auto simp: d elim!: ensures_mbind)
  next
    case (D_client_handle h)
    then show ?thesis
      using mgr_frame_put [OF inv new_addr_free(2) [of "heap b"]] by (simp add: d)
  next
    case (D_client_delete p)
    then show ?thesis using delete_refs [OF inv] ok by (simp add: d)
  next
    case (D_PERFORM pop)
    then show ?thesis
      using inv ok Perform_refs [OF inv, of pop E]
      by (auto simp: d Gralloc1Perform_def perform_refs_def taken_def split: perform_op.splits)
  next
    case (D_IMPORT_BUFFER p)
    then show ?thesis using ok ImportBuffer_refs [OF inv, of p E device] by (simp add: d)
  next
    case (D_RETAIN p)
    then show ?thesis
      using ok dev_RetainBuffer_refs [OF inv, of p E device] by (auto simp: d elim!: ensures_mono)
  next
    case (D_RELEASE p)
    then show ?thesis using ok dev_ReleaseBuffer_refs [OF inv, of p E device] by (simp add: d)
  next
    case (D_UNLOCK p has_fence)
    then show ?thesis using ok dev_UnlockBuffer_refs [OF inv, of p E device has_fence] by (simp add: d)
  next
    case (D_VALIDATE_BUFFER_SIZE p info)
    then show ?thesis using ok dev_ValidateBufferSize_refs [OF inv, of p E device info] by (simp add: d)
  qed (use False inv describe_refs [OF inv] in \<open>simp_all add: d setter_defs is_getter_def\<close>)
qed

interpretation dev: forward_simulation "dev_step E" "\<lambda>_. True" mgr_inv dev_refs refs
proof
  fix l s t
  assume "dev_step E l s t" "mgr_inv s"
  then obtain device op r out where "l = (device, op, r, out)" "dev_client_ok s op" "dev_exec E device op s = Inr (r, out, t)"
    by (auto simp: dev_step_def split: prod.splits)
  then show "mgr_inv t" "dev_refs l (refs s) (refs t)"
    using dev_exec_refs [OF \<open>mgr_inv s\<close>, of op E device] by simp_all
qed

lemma dev_reachable: "run (dev_step E) (BufferManager_new (dmgr E) v m) ls b \<Longrightarrow> mgr_inv b"
  using dev.inv_run [of E _ ls b] BufferManager_new_inv by (simp add: list_all_iff)

lemma dev_trace_run: "dev_trace E b ops = Inr (ls, b') \<Longrightarrow> run (dev_step E) b ls b'"
proof (induction ops arbitrary: b ls)
  case (Cons op ops)
  then show ?case
    by (cases op) (auto simp: mbind_eq_Inr_iff dev_step_def split: if_splits intro!: run_Cons)
qed (simp add: run_Nil)

lemma dtrace0:
  "map_sum id (\<lambda>(ls, b). (map (\<lambda>(device, op, r, out). r) ls, map_of (handles_map b) 1 \<noteq> None))
     (dev_trace DE0 (BufferManager_new E0 None mem0) dops0) = Inr (dresults0, True)"
  by code_simp

text \<open>
  C3: However clients that keep to the interface interleave calls of the device, through every
  entry point and every operation of \<open>Perform\<close>, the next call returns, and afterwards every
  registered buffer has an existing handle and at least one reference.
\<close>

theorem device_calls_safe:
  assumes "run (dev_step E) (BufferManager_new (dmgr E) v m) ls b" and "dev_client_ok b op"
  shows "ensures (dev_exec E device op b) (\<lambda>(r, out, b'). \<forall>p buf. map_of (handles_map b') p = Some buf \<longrightarrow>
    (\<exists>h. deref b' p = Inr h) \<and> 1 \<le> ref_count buf)"
  using dev_exec_refs [OF dev_reachable [OF assms(1)] assms(2), of E device]
  by (rule ensures_mono) (auto dest: registered)

theorem device_calls_safe_witness:
  "\<exists>ls b. run (dev_step DE0) (BufferManager_new E0 None mem0) ls b \<and> length ls = 9 \<and>
     ensures (dev_exec DE0 True (D_RELEASE 1) b) (\<lambda>(r, out, b'). \<forall>p buf. map_of (handles_map b') p = Some buf \<longrightarrow>
       (\<exists>h. deref b' p = Inr h) \<and> 1 \<le> ref_count buf)"
proof -
  obtain ls b where t: "dev_trace DE0 (BufferManager_new E0 None mem0) dops0 = Inr (ls, b)"
      "map (\<lambda>(device, op, r, out). r) ls = dresults0" "map_of (handles_map b) 1 \<noteq> None"
    using dtrace0 by (cases "dev_trace DE0 (BufferManager_new E0 None mem0) dops0") auto
  have r: "run (dev_step DE0) (BufferManager_new (dmgr DE0) None mem0) ls b"
    using dev_trace_run [OF t(1)] by (simp add: DE0_def)
  have "length ls = 9" using arg_cong [OF t(2), of length] by (simp add: dresults0_def)
  moreover have "dev_client_ok b (D_RELEASE 1)"
    using dev_reachable [OF r] t(3) by (auto simp: dev_client_ok_def exists_or_null_def mgr_inv_def)
  ultimately show ?thesis
    using device_calls_safe [OF r] r by (auto simp: DE0_def)
qed

text \<open>
  C11: The device counts references: on every run of calls the number of references of each handle
  changes as \<open>dev_refs\<close> says.  Allocated buffers are new and have one reference; an import that
  succeeds makes a handle of its own with one reference and leaves the one it was made from alone,
  and one that fails changes no count; locking, unlocking and validating succeed only for a handle
  with a reference; questions change nothing.
\<close>

theorem device_references:
  assumes "run (dev_step E) (BufferManager_new (dmgr E) v m) ls b"
  shows "run dev_refs (\<lambda>_. 0) ls (refs b)"
proof -
  have "refs (BufferManager_new (dmgr E) v m) = (\<lambda>_. 0)"
    by (simp add: refs_def BufferManager_new_def fun_eq_iff)
  then show ?thesis
    using dev.sim_run [OF assms] BufferManager_new_inv [of "dmgr E" v m] by (simp add: list_all_iff)
qed

theorem device_references_witness:
  "\<exists>ls b. run (dev_step DE0) (BufferManager_new E0 None mem0) ls b \<and>
     map (\<lambda>(device, op, r, out). r) ls = dresults0 \<and> run dev_refs (\<lambda>_. 0) ls (refs b)"
proof -
  obtain ls b where t: "dev_trace DE0 (BufferManager_new E0 None mem0) dops0 = Inr (ls, b)"
      "map (\<lambda>(device, op, r, out). r) ls = dresults0"
    using dtrace0 by (cases "dev_trace DE0 (BufferManager_new E0 None mem0) dops0") auto
  have r: "run (dev_step DE0) (BufferManager_new (dmgr DE0) None mem0) ls b"
    using dev_trace_run [OF t(1)] by (simp add: DE0_def)
  then show ?thesis
    using device_references [OF r] t(2) by (auto simp: DE0_def)
qed

subsection \<open>The planes of a flexible layout\<close>

text \<open>Mapping the metadata page does not change what is fetched.\<close>

lemma fetch_stable: "fst (getMetaData m (snd (getMetaData m h t)) t') = fst (getMetaData m h t')"
  by (auto simp: getMetaData_def validateAndMap_def validate_def split: option.splits if_splits)

lemma handle_after_fetch:
  "\<exists>a. snd (getMetaData m h t) = h\<lparr>hnd_base_metadata := a\<rparr>"
  by (auto simp: getMetaData_def validateAndMap_def split: option.splits intro: exI [of _ "hnd_base_metadata h"])

lemma GetYUVPlaneInfo_plain:
  assumes "fst (getMetaData m h LINEAR_FORMAT) = None" "fst (getMetaData m h BUFFER_GEOMETRY) = None"
  shows "fst (GetYUVPlaneInfo env m h) = plane_info env (hnd_base h) (hnd_format h) (UINT (hnd_width h)) (UINT (hnd_height h)) False"
proof -
  obtain h1 where h1: "getMetaData m h LINEAR_FORMAT = (None, h1)" using assms(1) by (metis prod.collapse)
  have "fst (getMetaData m h1 BUFFER_GEOMETRY) = None" using fetch_stable [of m h LINEAR_FORMAT] h1 assms(2) by simp
  then obtain h2 where h2: "getMetaData m h1 BUFFER_GEOMETRY = (None, h2)" by (metis prod.collapse)
  obtain v h3 where h3: "getMetaData m h2 PP_PARAM_INTERLACED = (v, h3)" by fastforce
  obtain a1 a2 a3 where "h1 = h\<lparr>hnd_base_metadata := a1\<rparr>" "h2 = h1\<lparr>hnd_base_metadata := a2\<rparr>" "h3 = h2\<lparr>hnd_base_metadata := a3\<rparr>"
    using handle_after_fetch [of m] h1 h2 h3 by (metis snd_conv)
  then have "hnd_format h1 = hnd_format h" "hnd_width h2 = hnd_width h" "hnd_height h2 = hnd_height h" "hnd_base h3 = hnd_base h"
    by simp_all
  then show ?thesis
    by (simp add: GetYUVPlaneInfo_def h1 h2 h3 Let_def)
qed



subsection \<open>Defects\<close>

text \<open>A lock without a region is reported as a success, and no lock is taken.\<close>

lemma lock_without_region:
  assumes "deref b p = Inr hnd" "validate (Some hnd)" "p \<noteq> 0"
  shows "dev_LockBuffer E True p pu cu False (- 1) b = Inr (ERROR_NONE, No_out, b)"
  using assms by (simp add: dev_LockBuffer_def CheckDeviceAndHandle_def CloseFdIfValid_def)

text \<open>A flexible lock of a buffer that has no planes succeeds, with the layout not filled in.\<close>

lemma flex_lock_without_layout:
  assumes "dev_LockBuffer E device p pu cu True fence b = Inr (ERROR_NONE, out, b')" "deref b' p = Inr hnd" "\<not> IsYuvFormat hnd"
  shows "LockFlex E device p pu cu True (Some 3) fence b = Inr (ERROR_NONE, None, b')"
  using assms by (simp add: LockFlex_def GetFlexLayout_def)

text \<open>Whether a secure buffer is to be mapped is answered with no when it is set, and not at all otherwise.\<close>

lemma map_secure_inverted:
  assumes "Perform E (GET_MAP_SECURE_BUFFER_INFO p True) b = Inr (ERROR_NONE, out, b')"
  shows "out = Out_ints [0] \<or> out = No_out"
  using assms by (auto simp: Perform_def with_handle_def perform_map_secure_def mbind_eq_Inr_iff split: if_splits)

text \<open>The format is counted among those with planes, and has none.\<close>

lemma raw12_has_no_planes:
  "mgr_GetNumFlexPlanes (flex_handle\<lparr>hnd_format := RAW12\<rparr>) = (ERROR_NONE, Some 3) \<and>
   fst (GetYUVPlaneInfo env0 mem0 (flex_handle\<lparr>hnd_format := RAW12\<rparr>)) = None"
  by code_simp

end
