(* ===== verification/Float32.thy ===== *)
theory Float32
  imports Complex_Main Prelude
begin

text \<open>
  Single precision arithmetic, as the display code of \<open>hardware/qcom-caf/display/sdm\<close> uses the
  C++ type \<open>float\<close>: IEEE 754 binary32, rounding to nearest, ties to even.

  A finite value is the rational number it denotes; the two zeros are identified, which only a
  division by a zero could tell apart.  An operation computes the exact result and rounds it with
  \<open>rnd\<close>: 24 significant bits, gradual underflow below \<open>2 powi -126\<close>, overflow to infinity.

  The conversion of a value outside the range of the target integer type is undefined in C++;
  its result is a parameter, a field of \<open>fp_env\<close>, as is \<open>log2f\<close> of the C library.

  Shown here: a number with at most 24 significant bits is its own rounding, so that sums,
  differences and halves of pixel coordinates are exact; otherwise rounding has a relative error
  of at most \<open>2 powi -24\<close>.
\<close>

subsection \<open>Values\<close>

datatype float32 = Fin rat | PInf | NInf | NaN

record fp_env =
  oor_u32 :: "float32 \<Rightarrow> u32"
  oor_int :: "float32 \<Rightarrow> int"
  oor_u8 :: "float32 \<Rightarrow> u8"
  log2f :: "float32 \<Rightarrow> float32"

subsection \<open>Rounding\<close>

function bit_len :: "int \<Rightarrow> int" where
  "bit_len n = (if n \<le> 0 then 0 else 1 + bit_len (n div 2))"
  by pat_completeness auto
termination
  by (relation "measure nat") auto

declare bit_len.simps [simp del]

definition ilog2 :: "rat \<Rightarrow> int" where
  "ilog2 x = (let (p, q) = quotient_of x; d = bit_len p - bit_len q
              in if 2 powi d \<le> x then d else d - 1)"

definition rne :: "rat \<Rightarrow> int" where
  "rne x = (let f = \<lfloor>x\<rfloor>; r = x - of_int f
            in if r < 1 / 2 then f else if 1 / 2 < r then f + 1 else if even f then f else f + 1)"

definition ulp_exp :: "rat \<Rightarrow> int" where
  "ulp_exp x = max (- 149) (ilog2 \<bar>x\<bar> - 23)"

definition rnd_rat :: "rat \<Rightarrow> rat" where
  "rnd_rat x = (if x = 0 then 0 else of_int (rne (x / 2 powi ulp_exp x)) * 2 powi ulp_exp x)"

definition rnd :: "rat \<Rightarrow> float32" where
  "rnd x = (let y = rnd_rat x
            in if 2 powi 128 \<le> y then PInf else if y \<le> - (2 powi 128) then NInf else Fin y)"

subsection \<open>Operations\<close>

fun fneg :: "float32 \<Rightarrow> float32" where
  "fneg (Fin a) = Fin (- a)"
| "fneg PInf = NInf"
| "fneg NInf = PInf"
| "fneg NaN = NaN"

fun fadd :: "float32 \<Rightarrow> float32 \<Rightarrow> float32" where
  "fadd (Fin a) (Fin b) = rnd (a + b)"
| "fadd NaN _ = NaN"
| "fadd _ NaN = NaN"
| "fadd PInf NInf = NaN"
| "fadd NInf PInf = NaN"
| "fadd PInf _ = PInf"
| "fadd NInf _ = NInf"
| "fadd _ PInf = PInf"
| "fadd _ NInf = NInf"

definition fsub :: "float32 \<Rightarrow> float32 \<Rightarrow> float32" where
  "fsub x y = fadd x (fneg y)"

definition sign_inf :: "rat \<Rightarrow> float32" where
  "sign_inf a = (if 0 < a then PInf else if a < 0 then NInf else NaN)"

fun fmul :: "float32 \<Rightarrow> float32 \<Rightarrow> float32" where
  "fmul (Fin a) (Fin b) = rnd (a * b)"
| "fmul NaN _ = NaN"
| "fmul _ NaN = NaN"
| "fmul (Fin a) PInf = sign_inf a"
| "fmul (Fin a) NInf = sign_inf (- a)"
| "fmul PInf (Fin b) = sign_inf b"
| "fmul NInf (Fin b) = sign_inf (- b)"
| "fmul PInf PInf = PInf"
| "fmul PInf NInf = NInf"
| "fmul NInf PInf = NInf"
| "fmul NInf NInf = PInf"

fun fdiv :: "float32 \<Rightarrow> float32 \<Rightarrow> float32" where
  "fdiv (Fin a) (Fin b) = (if b = 0 then sign_inf a else rnd (a / b))"
| "fdiv (Fin a) PInf = Fin 0"
| "fdiv (Fin a) NInf = Fin 0"
| "fdiv PInf (Fin b) = (if b < 0 then NInf else PInf)"
| "fdiv NInf (Fin b) = (if b < 0 then PInf else NInf)"
| "fdiv _ _ = NaN"

fun flt :: "float32 \<Rightarrow> float32 \<Rightarrow> bool" where
  "flt (Fin a) (Fin b) = (a < b)"
| "flt (Fin a) PInf = True"
| "flt NInf (Fin b) = True"
| "flt NInf PInf = True"
| "flt _ _ = False"

fun feq :: "float32 \<Rightarrow> float32 \<Rightarrow> bool" where
  "feq (Fin a) (Fin b) = (a = b)"
| "feq PInf PInf = True"
| "feq NInf NInf = True"
| "feq _ _ = False"

definition fle :: "float32 \<Rightarrow> float32 \<Rightarrow> bool" where
  "fle x y = (flt x y \<or> feq x y)"

definition fmin :: "float32 \<Rightarrow> float32 \<Rightarrow> float32" where
  "fmin x y = (if flt y x then y else x)"

definition fmax :: "float32 \<Rightarrow> float32 \<Rightarrow> float32" where
  "fmax x y = (if flt x y then y else x)"

fun roundf :: "float32 \<Rightarrow> float32" where
  "roundf (Fin a) = Fin (sgn a * of_int \<lfloor>\<bar>a\<bar> + 1 / 2\<rfloor>)"
| "roundf x = x"

fun ceilf :: "float32 \<Rightarrow> float32" where
  "ceilf (Fin a) = Fin (of_int \<lceil>a\<rceil>)"
| "ceilf x = x"

subsection \<open>Conversions\<close>

text \<open>Conversion to an integer type drops the fraction.\<close>

definition trunc_rat :: "rat \<Rightarrow> int" where
  "trunc_rat a = (if 0 \<le> a then \<lfloor>a\<rfloor> else \<lceil>a\<rceil>)"

fun UINT32 :: "fp_env \<Rightarrow> float32 \<Rightarrow> u32" where
  "UINT32 fp (Fin a) = (if - 1 < a \<and> a < 2 ^ 32 then word_of_int (trunc_rat a) else oor_u32 fp (Fin a))"
| "UINT32 fp x = oor_u32 fp x"

fun INT_of :: "fp_env \<Rightarrow> float32 \<Rightarrow> int" where
  "INT_of fp (Fin a) = (if - (2 ^ 31) - 1 < a \<and> a < 2 ^ 31 then trunc_rat a else oor_int fp (Fin a))"
| "INT_of fp x = oor_int fp x"

fun UINT8 :: "fp_env \<Rightarrow> float32 \<Rightarrow> u8" where
  "UINT8 fp (Fin a) = (if - 1 < a \<and> a < 2 ^ 8 then word_of_int (trunc_rat a) else oor_u8 fp (Fin a))"
| "UINT8 fp x = oor_u8 fp x"

definition FLOAT :: "u32 \<Rightarrow> float32" where
  "FLOAT w = rnd (of_int (uint w))"

definition FLOAT_int :: "int \<Rightarrow> float32" where
  "FLOAT_int n = rnd (of_int n)"

text \<open>The float of a whole number that needs no rounding.\<close>

definition fint :: "int \<Rightarrow> float32" where
  "fint n = Fin (of_int n)"

subsection \<open>The exponent\<close>

lemma powi_less_iff: "(2 :: rat) powi a < 2 powi b \<longleftrightarrow> a < b"
  using power_int_strict_increasing [of a b "2 :: rat"] power_int_increasing [of b a "2 :: rat"]
  by (meson leD leI one_le_numeral one_less_numeral_iff semiring_norm(76))

lemma powi_le_iff: "(2 :: rat) powi a \<le> 2 powi b \<longleftrightarrow> a \<le> b"
  using powi_less_iff [of b a] by (simp add: not_less [symmetric])

lemma bit_len_bounds:
  "0 < n \<Longrightarrow> 0 < bit_len n \<and> 2 powi (bit_len n - 1) \<le> (of_int n :: rat) \<and> (of_int n :: rat) < 2 powi bit_len n"
proof (induction n rule: bit_len.induct)
  case (1 n)
  show ?case
  proof (cases "n = 1")
    case True
    then show ?thesis by (simp add: bit_len.simps [of 1] bit_len.simps [of 0])
  next
    case False
    let ?m = "n div 2"
    have "0 < ?m" using 1(2) False by simp
    with 1 have IH: "0 < bit_len ?m" "2 powi (bit_len ?m - 1) \<le> (of_int ?m :: rat)"
        "(of_int ?m :: rat) < 2 powi bit_len ?m"
      by simp_all
    have b: "bit_len n = 1 + bit_len ?m"
      using 1(2) by (simp add: bit_len.simps [of n])
    have p: "(2 :: rat) powi (bit_len ?m) = 2 ^ nat (bit_len ?m)"
      using IH(1) by (simp add: power_int_def)
    have "of_int ?m < (of_int (2 ^ nat (bit_len ?m)) :: rat)"
      using IH(3) by (simp add: p)
    then have "?m < 2 ^ nat (bit_len ?m)"
      by (simp only: of_int_less_iff)
    then have "?m + 1 \<le> 2 ^ nat (bit_len ?m)" by simp
    then have "(of_int (?m + 1) :: rat) \<le> 2 powi bit_len ?m"
      unfolding p by (metis of_int_le_iff of_int_numeral of_int_power)
    moreover have "(of_int n :: rat) < of_int (2 * (?m + 1))" "of_int (2 * ?m) \<le> (of_int n :: rat)"
      unfolding of_int_less_iff of_int_le_iff by presburger+
    moreover have "(2 :: rat) powi (1 + bit_len ?m) = 2 * 2 powi bit_len ?m"
      "(2 :: rat) powi (bit_len ?m) = 2 * 2 powi (bit_len ?m - 1)"
      by (simp_all add: power_int_add power_int_diff)
    ultimately show ?thesis
      using IH(1,2) unfolding b by simp
  qed
qed

lemma ilog2_bounds:
  assumes "0 < x"
  shows "2 powi ilog2 x \<le> x \<and> x < 2 powi (ilog2 x + 1)"
proof -
  obtain p q where pq: "quotient_of x = (p, q)" by (cases "quotient_of x")
  then have q: "0 < q" by (rule quotient_of_denom_pos)
  have x: "x = of_int p / of_int q"
    using pq by (rule quotient_of_div)
  with assms q have p: "0 < p"
    by (simp add: zero_less_divide_iff)
  define a b where "a = bit_len p" and "b = bit_len q"
  have bp: "2 powi (a - 1) \<le> (of_int p :: rat)" "(of_int p :: rat) < 2 powi a"
    and bq: "2 powi (b - 1) \<le> (of_int q :: rat)" "(of_int q :: rat) < 2 powi b"
    using bit_len_bounds [OF p] bit_len_bounds [OF q] by (simp_all add: a_def b_def)
  have "x < 2 powi a / 2 powi (b - 1)"
    unfolding x using bp bq q p by (intro frac_less) simp_all
  moreover have "2 powi a / 2 powi (b - 1) = (2 :: rat) powi (a - b + 1)"
    by (simp add: algebra_simps flip: power_int_diff)
  moreover have "2 powi (a - 1) / 2 powi b \<le> x"
    unfolding x using bp bq q p by (intro frac_le) simp_all
  moreover have "2 powi (a - 1) / 2 powi b = (2 :: rat) powi (a - b - 1)"
    by (simp add: algebra_simps flip: power_int_diff)
  ultimately show ?thesis
    unfolding ilog2_def pq by (auto simp: Let_def a_def [symmetric] b_def [symmetric])
qed

subsection \<open>Rounding to nearest\<close>

lemma rne_of_int [simp]: "rne (of_int n) = n"
  by (simp add: rne_def Let_def)

lemma rne_error: "\<bar>of_int (rne x) - x\<bar> \<le> 1 / 2"
proof -
  define f where "f = \<lfloor>x\<rfloor>"
  have f: "of_int f \<le> x" "x < of_int f + 1"
    unfolding f_def by linarith+
  have "rne x = f \<and> x - of_int f \<le> 1 / 2 \<or> rne x = f + 1 \<and> 1 / 2 \<le> x - of_int f"
    unfolding rne_def Let_def f_def [symmetric] by auto
  then show ?thesis
    unfolding abs_le_iff using f by (elim disjE conjE) simp_all
qed

lemma ulp_exp_ge: "- 149 \<le> ulp_exp x"
  by (simp add: ulp_exp_def)

lemma rnd_rat_0 [simp]: "rnd_rat 0 = 0"
  by (simp add: rnd_rat_def)

lemma rnd_rat_multiple:
  assumes "x = of_int m * 2 powi ulp_exp x"
  shows "rnd_rat x = x"
proof -
  have "x / 2 powi ulp_exp x = of_int m"
    by (subst assms) simp
  then show ?thesis
    using assms by (simp add: rnd_rat_def)
qed

text \<open>A number of at most 24 significant bits is its own rounding.\<close>

lemma rnd_rat_exact:
  assumes n: "\<bar>n\<bar> \<le> 2 ^ 24" and k: "- 149 \<le> k" and x: "x = of_int n * 2 powi k"
  shows "rnd_rat x = x"
proof (cases "n = 0")
  case True
  then show ?thesis using x by simp
next
  case False
  define e where "e = ulp_exp x"
  have x0: "0 < \<bar>x\<bar>" using x False by simp
  have lb: "2 powi ilog2 \<bar>x\<bar> \<le> \<bar>x\<bar>" using ilog2_bounds [OF x0] by simp
  have "(of_int \<bar>n\<bar> :: rat) \<le> of_int (2 ^ 24)"
    using n unfolding of_int_le_iff .
  then have ax: "\<bar>x\<bar> \<le> 2 ^ 24 * 2 powi k"
    by (simp add: x abs_mult)
  also have "\<dots> = 2 powi (k + 24)"
    by (simp add: power_int_add)
  finally have "(2 :: rat) powi ilog2 \<bar>x\<bar> \<le> 2 powi (k + 24)"
    using lb by linarith
  then have il: "ilog2 \<bar>x\<bar> \<le> k + 24"
    by (simp add: powi_le_iff)
  show ?thesis
  proof (cases "e \<le> k")
    case True
    then have "(2 :: rat) powi k = 2 ^ nat (k - e) * 2 powi e"
      using power_int_add [of "2 :: rat" "k - e" e] by (simp add: power_int_def [of _ "k - e"])
    then have "x = of_int (n * 2 ^ nat (k - e)) * 2 powi e"
      by (simp add: x)
    then show ?thesis unfolding e_def by (rule rnd_rat_multiple)
  next
    case False
    then have e: "e = k + 1" "ilog2 \<bar>x\<bar> = k + 24"
      using il k by (simp_all add: e_def ulp_exp_def)
    then have "2 powi (k + 24) \<le> \<bar>x\<bar>" using lb by simp
    then have "\<bar>of_int n\<bar> = (2 :: rat) ^ 24"
      using ax by (simp add: power_int_add x abs_mult)
    then have "of_int \<bar>n\<bar> = (of_int (2 ^ 24) :: rat)" by simp
    then have "\<bar>n\<bar> = 2 * 2 ^ 23"
      unfolding of_int_eq_iff by simp
    then obtain m where "n = 2 * m"
      by (metis abs_if dvd_def dvd_minus_iff dvd_triv_left)
    then have "x = of_int m * 2 powi e"
      by (simp add: x e power_int_add)
    then show ?thesis unfolding e_def by (rule rnd_rat_multiple)
  qed
qed

lemma rnd_exact:
  assumes n: "\<bar>n\<bar> \<le> 2 ^ 24" and k: "- 149 \<le> k" "k \<le> 100" and x: "x = of_int n * 2 powi k"
  shows "rnd x = Fin x"
proof -
  have "(of_int \<bar>n\<bar> :: rat) \<le> of_int (2 ^ 24)"
    using n unfolding of_int_le_iff .
  then have "\<bar>x\<bar> \<le> 2 ^ 24 * 2 powi k"
    by (simp add: x abs_mult)
  also have "\<dots> = 2 powi (k + 24)"
    by (simp add: power_int_add)
  also have "\<dots> < 2 powi 128"
    using k by (intro power_int_strict_increasing) simp_all
  finally have "\<bar>x\<bar> < 2 powi 128" .
  then show ?thesis
    using rnd_rat_exact [OF n k(1) x] unfolding rnd_def Let_def by (simp add: abs_less_iff)
qed

lemma rnd_int: "\<bar>n\<bar> \<le> 2 ^ 24 \<Longrightarrow> rnd (of_int n) = Fin (of_int n)"
  by (rule rnd_exact [where k = 0 and n = n]) simp_all

lemma rnd_half: "\<bar>n\<bar> \<le> 2 ^ 24 \<Longrightarrow> rnd (of_int n / 2) = Fin (of_int n / 2)"
  by (rule rnd_exact [where k = "- 1" and n = n]) simp_all

lemma rnd_rat_ulp: "\<bar>rnd_rat x - x\<bar> \<le> 2 powi ulp_exp x / 2"
proof (cases "x = 0")
  case False
  let ?u = "(2 :: rat) powi ulp_exp x"
  have u0: "0 < ?u" by simp
  have "\<bar>of_int (rne (x / ?u)) - x / ?u\<bar> * ?u \<le> 1 / 2 * ?u"
    using rne_error u0 by (intro mult_right_mono) simp_all
  moreover have "\<bar>of_int (rne (x / ?u)) - x / ?u\<bar> * ?u = \<bar>(of_int (rne (x / ?u)) - x / ?u) * ?u\<bar>"
    using u0 by (simp add: abs_mult)
  moreover have "(of_int (rne (x / ?u)) - x / ?u) * ?u = rnd_rat x - x"
    using False by (simp add: rnd_rat_def left_diff_distrib)
  ultimately show ?thesis by simp
qed simp

text \<open>The relative error of a normal result.\<close>

lemma rnd_rat_error:
  assumes "2 powi - 126 \<le> \<bar>x\<bar>"
  shows "\<bar>rnd_rat x - x\<bar> \<le> \<bar>x\<bar> / 2 ^ 24"
proof -
  have "0 < (2 :: rat) powi - 126" by simp
  then have x0: "0 < \<bar>x\<bar>" using assms by linarith
  have lb: "2 powi ilog2 \<bar>x\<bar> \<le> \<bar>x\<bar>" "\<bar>x\<bar> < 2 powi (ilog2 \<bar>x\<bar> + 1)"
    using ilog2_bounds [OF x0] by simp_all
  have "(2 :: rat) powi - 126 < 2 powi (ilog2 \<bar>x\<bar> + 1)"
    using assms lb(2) by linarith
  then have "- 126 < ilog2 \<bar>x\<bar> + 1"
    unfolding powi_less_iff .
  then have e: "ulp_exp x = ilog2 \<bar>x\<bar> - 23" by (simp add: ulp_exp_def)
  have "2 powi ulp_exp x / 2 = (2 :: rat) powi ilog2 \<bar>x\<bar> / 2 ^ 24"
    by (simp add: e power_int_diff)
  then have "\<bar>rnd_rat x - x\<bar> \<le> 2 powi ilog2 \<bar>x\<bar> / 2 ^ 24"
    using rnd_rat_ulp [of x] by simp
  also have "\<dots> \<le> \<bar>x\<bar> / 2 ^ 24"
    using lb(1) by (simp add: divide_right_mono)
  finally show ?thesis .
qed

subsection \<open>Exact operations on whole numbers\<close>


lemma fadd_int: "\<bar>a + b\<bar> \<le> 2 ^ 24 \<Longrightarrow> fadd (fint a) (fint b) = fint (a + b)"
  using rnd_int [of "a + b"] by (simp add: fint_def)

lemma fsub_int: "\<bar>a - b\<bar> \<le> 2 ^ 24 \<Longrightarrow> fsub (fint a) (fint b) = fint (a - b)"
  using rnd_int [of "a - b"] by (simp add: fint_def fsub_def)

lemma fmul_int: "\<bar>a * b\<bar> \<le> 2 ^ 24 \<Longrightarrow> fmul (fint a) (fint b) = fint (a * b)"
  using rnd_int [of "a * b"] by (simp add: fint_def)

lemma fdiv_int: "b \<noteq> 0 \<Longrightarrow> \<bar>a\<bar> \<le> 2 ^ 24 \<Longrightarrow> fdiv (fint (a * b)) (fint b) = fint a"
  using rnd_int [of a] by (simp add: fint_def)

lemma fdiv_two: "\<bar>a\<bar> \<le> 2 ^ 24 \<Longrightarrow> fdiv (fint a) (Fin 2) = Fin (of_int a / 2)"
  using rnd_half [of a] by (simp add: fint_def)

lemma FLOAT_exact: "uint w \<le> 2 ^ 24 \<Longrightarrow> FLOAT w = fint (uint w)"
  unfolding FLOAT_def fint_def by (rule rnd_int) simp

lemma UINT32_int: "0 \<le> n \<Longrightarrow> n < 2 ^ 32 \<Longrightarrow> UINT32 fp (fint n) = word_of_int n"
proof -
  assume n: "0 \<le> n" "n < 2 ^ 32"
  then have "(of_int n :: rat) < of_int (2 ^ 32)" "(of_int 0 :: rat) \<le> of_int n"
    unfolding of_int_less_iff of_int_le_iff by simp_all
  then show ?thesis by (simp add: fint_def trunc_rat_def)
qed

lemma fint_eq_iff [simp]: "fint a = fint b \<longleftrightarrow> a = b"
  by (simp add: fint_def)

lemma feq_int [simp]: "feq (fint a) (fint b) \<longleftrightarrow> a = b"
  by (simp add: fint_def)

lemma flt_int [simp]: "flt (fint a) (fint b) \<longleftrightarrow> a < b"
  by (simp add: fint_def)

lemma fle_int [simp]: "fle (fint a) (fint b) \<longleftrightarrow> a \<le> b"
  by (auto simp: fint_def fle_def)

lemma fmin_int [simp]: "fmin (fint a) (fint b) = fint (min a b)"
  by (simp add: fint_def fmin_def min_def)

lemma fmax_int [simp]: "fmax (fint a) (fint b) = fint (max a b)"
  by (simp add: fint_def fmax_def max_def)

text \<open>Adding a half and dropping the fraction rounds half a whole number up.\<close>

lemma UINT32_round_half:
  assumes "0 \<le> n" and "n < 2 ^ 23"
  shows "UINT32 fp (fadd (Fin (of_int n / 2)) (Fin (1 / 2))) = word_of_int ((n + 1) div 2)"
proof -
  have "rnd (of_int (n + 1) / 2) = Fin (of_int (n + 1) / 2)"
    using assms by (intro rnd_half) simp
  then have a: "fadd (Fin (of_int n / 2)) (Fin (1 / 2)) = Fin (of_int (n + 1) / 2)"
    by (simp add: add_divide_distrib)
  have "(of_int (n + 1) :: rat) < of_int (2 ^ 32)" "(of_int 0 :: rat) < of_int (n + 1)"
    using assms unfolding of_int_less_iff by simp_all
  then have "UINT32 fp (Fin (of_int (n + 1) / 2)) = word_of_int \<lfloor>of_int (n + 1) / (2 :: rat)\<rfloor>"
    by (simp add: trunc_rat_def)
  also have "\<lfloor>of_int (n + 1) / (2 :: rat)\<rfloor> = (n + 1) div 2"
    using floor_divide_of_int_eq [of "n + 1" 2, where 'a = rat] by (simp add: fint_def)
  finally show ?thesis unfolding a .
qed

lemma UINT32_round_int:
  assumes "0 \<le> n" and "n < 2 ^ 22"
  shows "UINT32 fp (fadd (fint n) (Fin (1 / 2))) = word_of_int n"
  using UINT32_round_half [of "2 * n" fp] assms by (simp add: fint_def)

end
