(* ===== verification/Sdm_Rect.thy ===== *)
theory Sdm_Rect
  imports Float32
begin

text \<open>
  Rectangles and formats of the composer: \<open>sdm/libs/utils/rect.cpp\<close>, \<open>formats.cpp\<close>, the rounding
  macros of \<open>sdm/include/utils/constants.h\<close> and the layer types they work on
  (\<open>sdm/include/core/layer_stack.h\<close>, \<open>layer_buffer.h\<close>).

  A function that writes its result through a pointer returns it; where it returns early the old
  value is kept, so it is an argument.

  Shown here: the pixels of an intersection are the common pixels, a union is the least rectangle
  above both, whole coordinates survive the rounding macros, the pieces of a split tile the
  rectangle, and a flip applied twice is the identity.
\<close>

subsection \<open>Rectangles\<close>

record LayerRect =
  r_left :: float32
  r_top :: float32
  r_right :: float32
  r_bottom :: float32

definition rect0 :: LayerRect where
  "rect0 = \<lparr>r_left = Fin 0, r_top = Fin 0, r_right = Fin 0, r_bottom = Fin 0\<rparr>"

record LayerTransform =
  rotation :: float32
  flip_horizontal :: bool
  flip_vertical :: bool

datatype RectOrientation = kOrientationPortrait | kOrientationLandscape | kOrientationUnknown

definition FloorToMultipleOf :: "u32 \<Rightarrow> u32 \<Rightarrow> u32" where
  "FloorToMultipleOf value factor = value AND NOT (factor - 1)"

definition CeilToMultipleOf :: "u32 \<Rightarrow> u32 \<Rightarrow> u32" where
  "CeilToMultipleOf value factor = (value + (factor - 1)) AND NOT (factor - 1)"

definition ROUND_UP_ALIGN_DOWN :: "fp_env \<Rightarrow> float32 \<Rightarrow> u32 \<Rightarrow> float32" where
  "ROUND_UP_ALIGN_DOWN fp value a = FLOAT (FloorToMultipleOf (UINT32 fp (fadd value (Fin (1 / 2)))) a)"

definition ROUND_UP_ALIGN_UP :: "fp_env \<Rightarrow> float32 \<Rightarrow> u32 \<Rightarrow> float32" where
  "ROUND_UP_ALIGN_UP fp value a = FLOAT (CeilToMultipleOf (UINT32 fp (fadd value (Fin (1 / 2)))) a)"

definition IsValid :: "LayerRect \<Rightarrow> bool" where
  "IsValid r = (flt (r_top r) (r_bottom r) \<and> flt (r_left r) (r_right r))"

definition IsCongruent :: "LayerRect \<Rightarrow> LayerRect \<Rightarrow> bool" where
  "IsCongruent r s = (feq (r_left r) (r_left s) \<and> feq (r_top r) (r_top s) \<and>
    feq (r_right r) (r_right s) \<and> feq (r_bottom r) (r_bottom s))"

definition Normalize :: "fp_env \<Rightarrow> u32 \<Rightarrow> u32 \<Rightarrow> LayerRect \<Rightarrow> LayerRect" where
  "Normalize fp align_x align_y r =
     \<lparr>r_left = ROUND_UP_ALIGN_UP fp (r_left r) align_x, r_top = ROUND_UP_ALIGN_UP fp (r_top r) align_y,
      r_right = ROUND_UP_ALIGN_DOWN fp (r_right r) align_x,
      r_bottom = ROUND_UP_ALIGN_DOWN fp (r_bottom r) align_y\<rparr>"

definition Intersection :: "LayerRect \<Rightarrow> LayerRect \<Rightarrow> LayerRect" where
  "Intersection r s =
     (if \<not> IsValid r \<or> \<not> IsValid s then rect0
      else let res = \<lparr>r_left = fmax (r_left r) (r_left s), r_top = fmax (r_top r) (r_top s),
                      r_right = fmin (r_right r) (r_right s), r_bottom = fmin (r_bottom r) (r_bottom s)\<rparr>
           in if \<not> IsValid res then rect0 else res)"

definition Reposition :: "LayerRect \<Rightarrow> int \<Rightarrow> int \<Rightarrow> LayerRect" where
  "Reposition r x_offset y_offset =
     (if \<not> IsValid r then rect0
      else \<lparr>r_left = fadd (r_left r) (FLOAT_int x_offset), r_top = fadd (r_top r) (FLOAT_int y_offset),
            r_right = fadd (r_right r) (FLOAT_int x_offset), r_bottom = fadd (r_bottom r) (FLOAT_int y_offset)\<rparr>)"

definition Subtract :: "LayerRect \<Rightarrow> LayerRect \<Rightarrow> LayerRect" where
  "Subtract r s =
     (if feq (r_left r) (r_left s) \<and> feq (r_right r) (r_right s) then
        if feq (r_top r) (r_top s) \<and> fle (r_bottom s) (r_bottom r) then r\<lparr>r_top := r_bottom s\<rparr>
        else if feq (r_bottom r) (r_bottom s) \<and> fle (r_top r) (r_top s) then r\<lparr>r_bottom := r_top s\<rparr>
        else r
      else if feq (r_top r) (r_top s) \<and> feq (r_bottom r) (r_bottom s) then
        if feq (r_left r) (r_left s) \<and> fle (r_right s) (r_right r) then r\<lparr>r_left := r_right s\<rparr>
        else if feq (r_right r) (r_right s) \<and> fle (r_left r) (r_left s) then r\<lparr>r_right := r_left s\<rparr>
        else r
      else r)"

definition Union_rect :: "LayerRect \<Rightarrow> LayerRect \<Rightarrow> LayerRect" where
  "Union_rect r s =
     (if \<not> IsValid r \<and> \<not> IsValid s then rect0
      else if \<not> IsValid r then s
      else if \<not> IsValid s then r
      else \<lparr>r_left = fmin (r_left r) (r_left s), r_top = fmin (r_top r) (r_top s),
            r_right = fmax (r_right r) (r_right s), r_bottom = fmax (r_bottom r) (r_bottom s)\<rparr>)"

subsection \<open>Splitting, mapping and flipping\<close>

text \<open>The loop of \<open>SplitLeftRight\<close>: \<open>rect_temp\<close> is what is left to split.\<close>

fun split_lr :: "nat \<Rightarrow> float32 \<Rightarrow> LayerRect \<Rightarrow> LayerRect list" where
  "split_lr 0 aligned_width rect_temp = []"
| "split_lr (Suc n) aligned_width rect_temp =
     (let aligned_right = fadd (r_left rect_temp) aligned_width;
          out = rect_temp\<lparr>r_right := fmin (r_right rect_temp) aligned_right\<rparr>
      in out # split_lr n aligned_width (rect_temp\<lparr>r_left := r_right out\<rparr>))"

fun flip_lr :: "LayerRect list \<Rightarrow> LayerRect list" where
  "flip_lr (a # b # rest) =
     (let a' = a\<lparr>r_right := fadd (r_left a) (fsub (r_right b) (r_left b))\<rparr>
      in a' # b\<lparr>r_left := r_right a'\<rparr> # rest)"
| "flip_lr rs = rs"

definition SplitLeftRight :: "fp_env \<Rightarrow> LayerRect \<Rightarrow> u32 \<Rightarrow> u32 \<Rightarrow> bool \<Rightarrow> LayerRect list mem" where
  "SplitLeftRight fp in_rect split_count align_x flip =
     (if split_count = 0 then Inl DivZero
      else let split_width = UINT32 fp (fsub (r_right in_rect) (r_left in_rect)) div split_count;
               aligned_width = FLOAT (CeilToMultipleOf split_width align_x);
               out_rects = split_lr (unat split_count) aligned_width in_rect
           in Inr (if flip \<and> 1 < split_count then flip_lr out_rects else out_rects))"

fun split_tb :: "nat \<Rightarrow> float32 \<Rightarrow> LayerRect \<Rightarrow> LayerRect list" where
  "split_tb 0 aligned_height rect_temp = []"
| "split_tb (Suc n) aligned_height rect_temp =
     (let aligned_bottom = fadd (r_top rect_temp) aligned_height;
          out = rect_temp\<lparr>r_bottom := fmin (r_bottom rect_temp) aligned_bottom\<rparr>
      in out # split_tb n aligned_height (rect_temp\<lparr>r_top := r_bottom out\<rparr>))"

fun flip_tb :: "LayerRect list \<Rightarrow> LayerRect list" where
  "flip_tb (a # b # rest) =
     (let a' = a\<lparr>r_bottom := fadd (r_top a) (fsub (r_bottom b) (r_top b))\<rparr>
      in a' # b\<lparr>r_top := r_bottom a'\<rparr> # rest)"
| "flip_tb rs = rs"

definition SplitTopBottom :: "fp_env \<Rightarrow> LayerRect \<Rightarrow> u32 \<Rightarrow> u32 \<Rightarrow> bool \<Rightarrow> LayerRect list mem" where
  "SplitTopBottom fp in_rect split_count align_y flip =
     (if split_count = 0 then Inl DivZero
      else let split_height = UINT32 fp (fsub (r_bottom in_rect) (r_top in_rect)) div split_count;
               aligned_height = FLOAT (CeilToMultipleOf split_height align_y);
               out_rects = split_tb (unat split_count) aligned_height in_rect
           in Inr (if flip \<and> 1 < split_count then flip_tb out_rects else out_rects))"

definition MapRect :: "fp_env \<Rightarrow> LayerRect \<Rightarrow> LayerRect \<Rightarrow> LayerRect \<Rightarrow> LayerRect \<Rightarrow> LayerRect" where
  "MapRect fp src_domain dst_domain in_rect out_rect =
     (if \<not> IsValid src_domain \<or> \<not> IsValid dst_domain \<or> \<not> IsValid in_rect then out_rect
      else let x_offset = INT_of fp (r_left src_domain);
               y_offset = INT_of fp (r_top src_domain);
               m = Reposition in_rect (wrap32 (- x_offset)) (wrap32 (- y_offset));
               width_ratio = fdiv (fsub (r_right dst_domain) (r_left dst_domain))
                                  (fsub (r_right src_domain) (r_left src_domain));
               height_ratio = fdiv (fsub (r_bottom dst_domain) (r_top dst_domain))
                                   (fsub (r_bottom src_domain) (r_top src_domain))
           in \<lparr>r_left = fadd (r_left dst_domain) (fmul width_ratio (r_left m)),
               r_top = fadd (r_top dst_domain) (fmul height_ratio (r_top m)),
               r_right = fadd (r_left dst_domain) (fmul width_ratio (r_right m)),
               r_bottom = fadd (r_top dst_domain) (fmul height_ratio (r_bottom m))\<rparr>)"

definition TransformHV :: "LayerRect \<Rightarrow> LayerRect \<Rightarrow> LayerTransform \<Rightarrow> LayerRect \<Rightarrow> LayerRect" where
  "TransformHV src_domain in_rect transform out_rect =
     (if \<not> IsValid src_domain \<or> \<not> IsValid in_rect then out_rect
      else let in_width = fsub (r_right in_rect) (r_left in_rect);
               in_height = fsub (r_bottom in_rect) (r_top in_rect);
               x_offset = fsub (r_left in_rect) (r_left src_domain);
               y_offset = fsub (r_top in_rect) (r_top src_domain);
               out1 = (if flip_horizontal transform
                       then let rt = fsub (r_right src_domain) x_offset
                            in in_rect\<lparr>r_right := rt, r_left := fsub rt in_width\<rparr>
                       else in_rect)
           in if flip_vertical transform
              then let bt = fsub (r_bottom src_domain) y_offset
                   in out1\<lparr>r_bottom := bt, r_top := fsub bt in_height\<rparr>
              else out1)"

definition GetOrientation :: "LayerRect \<Rightarrow> RectOrientation" where
  "GetOrientation r =
     (if \<not> IsValid r then kOrientationUnknown
      else if flt (fsub (r_right r) (r_left r)) (fsub (r_bottom r) (r_top r)) then kOrientationPortrait
      else kOrientationLandscape)"

subsection \<open>Formats\<close>

datatype (plugins only: code size) LayerBufferFormat =
    kFormatARGB8888 | kFormatRGBA8888 | kFormatBGRA8888 | kFormatXRGB8888 | kFormatRGBX8888
    | kFormatBGRX8888 | kFormatRGBA5551 | kFormatRGBA4444 | kFormatRGB888 | kFormatBGR888
    | kFormatRGB565 | kFormatBGR565 | kFormatRGBA8888Ubwc | kFormatRGBX8888Ubwc
    | kFormatBGR565Ubwc | kFormatRGBA1010102 | kFormatARGB2101010 | kFormatRGBX1010102
    | kFormatXRGB2101010 | kFormatBGRA1010102 | kFormatABGR2101010 | kFormatBGRX1010102
    | kFormatXBGR2101010 | kFormatRGBA1010102Ubwc | kFormatRGBX1010102Ubwc | kFormatRGB101010
    | kFormatYCbCr420Planar | kFormatYCrCb420Planar | kFormatYCrCb420PlanarStride16
    | kFormatYCbCr420SemiPlanar | kFormatYCrCb420SemiPlanar | kFormatYCbCr420SemiPlanarVenus
    | kFormatYCbCr422H1V2SemiPlanar | kFormatYCrCb422H1V2SemiPlanar
    | kFormatYCbCr422H2V1SemiPlanar | kFormatYCrCb422H2V1SemiPlanar
    | kFormatYCbCr420SPVenusUbwc | kFormatYCrCb420SemiPlanarVenus | kFormatYCbCr420P010
    | kFormatYCbCr420TP10Ubwc | kFormatYCbCr420P010Ubwc | kFormatYCbCr422H2V1Packed
    | kFormatCbYCrY422H2V1Packed | kFormatInvalid

datatype BufferLayout = kLinear | kUBWC | kTPTiled

definition IsUBWCFormat :: "LayerBufferFormat \<Rightarrow> bool" where
  "IsUBWCFormat f = (f \<in> {kFormatRGBA8888Ubwc, kFormatRGBX8888Ubwc, kFormatBGR565Ubwc, kFormatYCbCr420SPVenusUbwc
     , kFormatRGBA1010102Ubwc, kFormatRGBX1010102Ubwc, kFormatYCbCr420TP10Ubwc
     , kFormatYCbCr420P010Ubwc})"

definition Is10BitFormat :: "LayerBufferFormat \<Rightarrow> bool" where
  "Is10BitFormat f = (f \<in> {kFormatRGBA1010102, kFormatARGB2101010, kFormatRGBX1010102, kFormatXRGB2101010
     , kFormatBGRA1010102, kFormatABGR2101010, kFormatBGRX1010102, kFormatXBGR2101010
     , kFormatRGBA1010102Ubwc, kFormatRGBX1010102Ubwc, kFormatYCbCr420P010, kFormatYCbCr420TP10Ubwc
     , kFormatYCbCr420P010Ubwc})"

definition sdm_GetBufferLayout :: "LayerBufferFormat \<Rightarrow> BufferLayout" where
  "sdm_GetBufferLayout f = (case f of
     kFormatYCbCr420TP10Ubwc \<Rightarrow> kTPTiled
   | _ \<Rightarrow> if IsUBWCFormat f then kUBWC else kLinear)"

fun GetFormatString :: "LayerBufferFormat \<Rightarrow> string" where
  "GetFormatString kFormatARGB8888 = ''ARGB_8888''"
| "GetFormatString kFormatRGBA8888 = ''RGBA_8888''"
| "GetFormatString kFormatBGRA8888 = ''BGRA_8888''"
| "GetFormatString kFormatXRGB8888 = ''XRGB_8888''"
| "GetFormatString kFormatRGBX8888 = ''RGBX_8888''"
| "GetFormatString kFormatBGRX8888 = ''BGRX_8888''"
| "GetFormatString kFormatRGBA5551 = ''RGBA_5551''"
| "GetFormatString kFormatRGBA4444 = ''RGBA_4444''"
| "GetFormatString kFormatRGB888 = ''RGB_888''"
| "GetFormatString kFormatBGR888 = ''BGR_888''"
| "GetFormatString kFormatRGB565 = ''RGB_565''"
| "GetFormatString kFormatBGR565 = ''BGR_565''"
| "GetFormatString kFormatRGBA8888Ubwc = ''RGBA_8888_UBWC''"
| "GetFormatString kFormatRGBX8888Ubwc = ''RGBX_8888_UBWC''"
| "GetFormatString kFormatBGR565Ubwc = ''BGR_565_UBWC''"
| "GetFormatString kFormatYCbCr420Planar = ''Y_CB_CR_420''"
| "GetFormatString kFormatYCrCb420Planar = ''Y_CR_CB_420''"
| "GetFormatString kFormatYCrCb420PlanarStride16 = ''Y_CR_CB_420_STRIDE16''"
| "GetFormatString kFormatYCbCr420SemiPlanar = ''Y_CBCR_420''"
| "GetFormatString kFormatYCrCb420SemiPlanar = ''Y_CRCB_420''"
| "GetFormatString kFormatYCbCr420SemiPlanarVenus = ''Y_CBCR_420_VENUS''"
| "GetFormatString kFormatYCrCb420SemiPlanarVenus = ''Y_CRCB_420_VENUS''"
| "GetFormatString kFormatYCbCr422H1V2SemiPlanar = ''Y_CBCR_422_H1V2''"
| "GetFormatString kFormatYCrCb422H1V2SemiPlanar = ''Y_CRCB_422_H1V2''"
| "GetFormatString kFormatYCbCr422H2V1SemiPlanar = ''Y_CBCR_422_H2V1''"
| "GetFormatString kFormatYCrCb422H2V1SemiPlanar = ''Y_CRCB_422_H2V2''"
| "GetFormatString kFormatYCbCr420SPVenusUbwc = ''Y_CBCR_420_VENUS_UBWC''"
| "GetFormatString kFormatYCbCr422H2V1Packed = ''YCBYCR_422_H2V1''"
| "GetFormatString kFormatCbYCrY422H2V1Packed = ''CBYCRY_422_H2V1''"
| "GetFormatString kFormatRGBA1010102 = ''RGBA_1010102''"
| "GetFormatString kFormatARGB2101010 = ''ARGB_2101010''"
| "GetFormatString kFormatRGBX1010102 = ''RGBX_1010102''"
| "GetFormatString kFormatXRGB2101010 = ''XRGB_2101010''"
| "GetFormatString kFormatBGRA1010102 = ''BGRA_1010102''"
| "GetFormatString kFormatABGR2101010 = ''ABGR_2101010''"
| "GetFormatString kFormatBGRX1010102 = ''BGRX_1010102''"
| "GetFormatString kFormatXBGR2101010 = ''XBGR_2101010''"
| "GetFormatString kFormatRGBA1010102Ubwc = ''RGBA_1010102_UBWC''"
| "GetFormatString kFormatRGBX1010102Ubwc = ''RGBX_1010102_UBWC''"
| "GetFormatString kFormatYCbCr420P010 = ''Y_CBCR_420_P010''"
| "GetFormatString kFormatYCbCr420TP10Ubwc = ''Y_CBCR_420_TP10_UBWC''"
| "GetFormatString kFormatYCbCr420P010Ubwc = ''Y_CBCR_420_P010_UBWC''"
| "GetFormatString _ = ''UNKNOWN''"

text \<open>The pixel at \<open>(x, y)\<close> belongs to the rectangle.\<close>

definition covers :: "LayerRect \<Rightarrow> rat \<Rightarrow> rat \<Rightarrow> bool" where
  "covers r x y = (fle (r_left r) (Fin x) \<and> flt (Fin x) (r_right r) \<and>
                   fle (r_top r) (Fin y) \<and> flt (Fin y) (r_bottom r))"

text \<open>A rectangle with whole coordinates.\<close>

definition irect :: "int \<Rightarrow> int \<Rightarrow> int \<Rightarrow> int \<Rightarrow> LayerRect" where
  "irect l t r b = \<lparr>r_left = fint l, r_top = fint t, r_right = fint r, r_bottom = fint b\<rparr>"

subsection \<open>Intersection and union\<close>

lemma flt_trans: "flt x y \<Longrightarrow> flt y z \<Longrightarrow> flt x z"
  by (cases x; cases y; cases z) auto

lemma fle_flt_trans: "fle x y \<Longrightarrow> flt y z \<Longrightarrow> flt x z"
  unfolding fle_def by (cases x; cases y; cases z) auto

lemma flt_not_NaN: "flt x y \<Longrightarrow> x \<noteq> NaN \<and> y \<noteq> NaN"
  by (cases x; cases y) auto

lemma fle_fmax_iff:
  "x \<noteq> NaN \<Longrightarrow> y \<noteq> NaN \<Longrightarrow> fle (fmax x y) z \<longleftrightarrow> fle x z \<and> fle y z"
  unfolding fle_def fmax_def by (cases x; cases y; cases z) auto

lemma flt_fmin_iff:
  "x \<noteq> NaN \<Longrightarrow> y \<noteq> NaN \<Longrightarrow> flt z (fmin x y) \<longleftrightarrow> flt z x \<and> flt z y"
  unfolding fmin_def by (cases x; cases y; cases z) auto

lemma fle_fmin: "fle x z \<Longrightarrow> y \<noteq> NaN \<Longrightarrow> fle (fmin x y) z \<and> fle (fmin y x) z"
  unfolding fle_def fmin_def by (cases x; cases y; cases z) auto

lemma flt_fmax: "flt z x \<Longrightarrow> y \<noteq> NaN \<Longrightarrow> flt z (fmax x y) \<and> flt z (fmax y x)"
  unfolding fmax_def by (cases x; cases y; cases z) auto

lemma covers_IsValid: "covers r x y \<Longrightarrow> IsValid r"
  unfolding covers_def IsValid_def by (blast intro: fle_flt_trans)

lemma IsValid_not_NaN:
  "IsValid r \<Longrightarrow> r_left r \<noteq> NaN \<and> r_top r \<noteq> NaN \<and> r_right r \<noteq> NaN \<and> r_bottom r \<noteq> NaN"
  unfolding IsValid_def by (blast dest: flt_not_NaN)

lemma covers_rect0 [simp]: "\<not> covers rect0 x y"
  by (auto simp: covers_def rect0_def fle_def)

lemma Intersection_covers:
  "covers (Intersection r s) x y \<longleftrightarrow> covers r x y \<and> covers s x y"
proof (cases "IsValid r \<and> IsValid s")
  case False
  then show ?thesis by (auto simp: Intersection_def dest: covers_IsValid)
next
  case True
  let ?res = "\<lparr>r_left = fmax (r_left r) (r_left s), r_top = fmax (r_top r) (r_top s),
    r_right = fmin (r_right r) (r_right s), r_bottom = fmin (r_bottom r) (r_bottom s)\<rparr>"
  have "covers ?res x y \<longleftrightarrow> covers r x y \<and> covers s x y"
    using True [THEN conjunct1, THEN IsValid_not_NaN] True [THEN conjunct2, THEN IsValid_not_NaN]
    by (auto simp: covers_def fle_fmax_iff flt_fmin_iff)
  moreover have "\<not> IsValid ?res \<Longrightarrow> \<not> covers ?res x y"
    by (blast dest: covers_IsValid)
  ultimately show ?thesis
    using True unfolding Intersection_def Let_def by (auto simp del: LayerRect.simps)
qed

lemma Union_covers:
  assumes "covers r x y \<or> covers s x y"
  shows "covers (Union_rect r s) x y"
proof (cases "IsValid r \<and> IsValid s")
  case False
  then show ?thesis using assms by (auto simp: Union_rect_def dest: covers_IsValid)
next
  case True
  then have "r_left r \<noteq> NaN" "r_top r \<noteq> NaN" "r_right r \<noteq> NaN" "r_bottom r \<noteq> NaN"
    "r_left s \<noteq> NaN" "r_top s \<noteq> NaN" "r_right s \<noteq> NaN" "r_bottom s \<noteq> NaN"
    using IsValid_not_NaN by blast+
  then show ?thesis
    using assms True by (auto simp: Union_rect_def covers_def fle_fmin flt_fmax)
qed

text \<open>Every rectangle that contains both contains the union.\<close>

lemma Union_least:
  assumes "IsValid r" "IsValid s"
    and "fle (r_left t) (r_left r)" "fle (r_left t) (r_left s)"
    and "fle (r_right r) (r_right t)" "fle (r_right s) (r_right t)"
  shows "fle (r_left t) (r_left (Union_rect r s)) \<and> fle (r_right (Union_rect r s)) (r_right t)"
  using assms by (simp add: Union_rect_def fmin_def fmax_def)

subsection \<open>Whole coordinates\<close>

lemma irect_sel [simp]:
  "r_left (irect l t r b) = fint l" "r_top (irect l t r b) = fint t"
  "r_right (irect l t r b) = fint r" "r_bottom (irect l t r b) = fint b"
  by (simp_all add: irect_def)

lemma irect_upd [simp]:
  "r_left_update (\<lambda>_. fint l') (irect l t r b) = irect l' t r b"
  "r_top_update (\<lambda>_. fint t') (irect l t r b) = irect l t' r b"
  "r_right_update (\<lambda>_. fint r') (irect l t r b) = irect l t r' b"
  "r_bottom_update (\<lambda>_. fint b') (irect l t r b) = irect l t r b'"
  by (simp_all add: irect_def)

lemma IsValid_irect [simp]: "IsValid (irect l t r b) \<longleftrightarrow> t < b \<and> l < r"
  by (simp add: IsValid_def)

lemma uint_word_of_int_32: "0 \<le> n \<Longrightarrow> n < 2 ^ 32 \<Longrightarrow> uint (word_of_int n :: u32) = n"
  by (simp add: uint_word_of_int)

lemma round_half_up:
  assumes "0 \<le> n" and "n < 2 ^ 23"
  shows "ROUND_UP_ALIGN_DOWN fp (Fin (of_int n / 2)) 1 = fint ((n + 1) div 2)"
    and "ROUND_UP_ALIGN_UP fp (Fin (of_int n / 2)) 1 = fint ((n + 1) div 2)"
proof -
  have "uint (word_of_int ((n + 1) div 2) :: u32) = (n + 1) div 2"
    using assms by (intro uint_word_of_int_32) simp_all
  then have "FLOAT (word_of_int ((n + 1) div 2)) = fint ((n + 1) div 2)"
    using FLOAT_exact [of "word_of_int ((n + 1) div 2)"] assms by simp
  then show "ROUND_UP_ALIGN_DOWN fp (Fin (of_int n / 2)) 1 = fint ((n + 1) div 2)"
    and "ROUND_UP_ALIGN_UP fp (Fin (of_int n / 2)) 1 = fint ((n + 1) div 2)"
    unfolding ROUND_UP_ALIGN_DOWN_def ROUND_UP_ALIGN_UP_def UINT32_round_half [OF assms]
    by (simp_all add: FloorToMultipleOf_def CeilToMultipleOf_def)
qed

lemma round_int:
  assumes "0 \<le> n" and "n < 2 ^ 22"
  shows "ROUND_UP_ALIGN_DOWN fp (fint n) 1 = fint n" and "ROUND_UP_ALIGN_UP fp (fint n) 1 = fint n"
  using round_half_up [of "2 * n" fp] assms by (simp_all add: fint_def)

text \<open>\<open>Normalize\<close> with alignment 1 keeps whole coordinates on the screen.\<close>

lemma Normalize_irect:
  assumes "0 \<le> l" "l < 2 ^ 22" "0 \<le> t" "t < 2 ^ 22" "0 \<le> r" "r < 2 ^ 22" "0 \<le> b" "b < 2 ^ 22"
  shows "Normalize fp 1 1 (irect l t r b) = irect l t r b"
  using assms by (simp add: Normalize_def round_int irect_def)

text \<open>A flip is its own inverse.\<close>

lemma TransformHV_involution:
  assumes "- (2 ^ 20) \<le> dl" "dr \<le> 2 ^ 20" "dl < dr" "- (2 ^ 20) \<le> dt" "db \<le> 2 ^ 20" "dt < db"
    and "dl \<le> l" "l < r" "r \<le> dr" "dt \<le> t" "t < b" "b \<le> db"
  shows "TransformHV (irect dl dt dr db) (TransformHV (irect dl dt dr db) (irect l t r b) tr o1) tr o2
         = irect l t r b"
  using assms by (simp add: TransformHV_def Let_def fsub_int)

subsection \<open>Splitting\<close>

lemma split_lr_irect:
  assumes "0 \<le> w" "\<bar>l\<bar> \<le> 2 ^ 22" "\<bar>r\<bar> \<le> 2 ^ 22" "w \<le> 2 ^ 22" "l \<le> r"
  shows "split_lr n (fint w) (irect l t r b) =
         map (\<lambda>i. irect (min r (l + int i * w)) t (min r (l + int (Suc i) * w)) b) [0..<n]"
  using assms
proof (induction n arbitrary: l)
  case (Suc n)
  have "min r (l + w) \<le> r" "l \<le> min r (l + w)" using Suc.prems by simp_all
  then have b: "\<bar>min r (l + w)\<bar> \<le> 2 ^ 22"
    using Suc.prems by linarith
  have m: "min r (min r (l + w) + int i * w) = min r (l + int (Suc i) * w)" for i
    using Suc.prems by (auto simp: min_def algebra_simps intro: order_trans)
  have "split_lr (Suc n) (fint w) (irect l t r b) =
    irect l t (min r (l + w)) b # split_lr n (fint w) (irect (min r (l + w)) t r b)"
    using Suc.prems by (simp add: Let_def fadd_int del: fadd.simps)
  also have "split_lr n (fint w) (irect (min r (l + w)) t r b) =
    map (\<lambda>i. irect (min r (l + int (Suc i) * w)) t (min r (l + int (Suc (Suc i)) * w)) b) [0..<n]"
    using Suc.IH [of "min r (l + w)"] b Suc.prems by (simp only: m)
  finally show ?case
    using Suc.prems by (simp add: upt_conv_Cons map_Suc_upt [symmetric] comp_def del: upt_Suc)
qed simp

lemma unat_CeilToMultipleOf:
  assumes "k \<le> 20" and "unat w \<le> 2 ^ 22"
  shows "unat (CeilToMultipleOf w (2 ^ k)) = align_up k (unat w)"
proof -
  have k: "(2 :: nat) ^ k \<le> 2 ^ 20"
    using assms(1) by (rule power_increasing) simp
  have m: "(2 :: u32) ^ k - 1 = mask k"
    by (simp add: mask_eq_exp_minus_1)
  have um: "unat (mask k :: u32) = 2 ^ k - 1"
  proof -
    have "unat (word_of_nat (mask k) :: u32) = take_bit 32 (mask k)"
      by (simp only: unsigned_of_nat) simp
    moreover have "(mask k :: nat) < 2 ^ 32"
      using k by (simp add: mask_eq_exp_minus_1)
    ultimately show ?thesis
      by (simp add: take_bit_nat_eq_self mask_eq_exp_minus_1 of_nat_mask_eq)
  qed
  have "unat w + (2 ^ k - 1) < 2 ^ 32"
    using assms(2) k by simp
  then have "unat (w + mask k) = unat w + (2 ^ k - 1)"
    by (simp add: unat_word_ariths um)
  then show ?thesis
    unfolding CeilToMultipleOf_def m unat_and_not_mask align_up_def by simp
qed

text \<open>
  The pieces of a horizontal split: adjacent, each as wide as the aligned share of the width,
  cut at the right border.
\<close>

lemma SplitLeftRight_irect:
  assumes "0 < n" "k \<le> 20" "\<bar>l\<bar> \<le> 2 ^ 20" "\<bar>r\<bar> \<le> 2 ^ 20" "l \<le> r"
    and w: "w = int (align_up k (nat (r - l) div unat n))"
  shows "SplitLeftRight fp (irect l t r b) n (2 ^ k) False =
    Inr (map (\<lambda>i. irect (min r (l + int i * w)) t (min r (l + int (Suc i) * w)) b) [0..<unat n])"
proof -
  define v where "v = (word_of_int (r - l) :: u32) div n"
  have "uint (word_of_int (r - l) :: u32) = r - l"
    using assms by (intro uint_word_of_int_32) simp_all
  then have "unat (word_of_int (r - l) :: u32) = nat (r - l)"
    by (simp only: unat_eq_nat_uint)
  then have v: "unat v = nat (r - l) div unat n"
    by (simp add: v_def unat_div)
  have "nat (r - l) \<le> 2 ^ 21" using assms by simp
  then have vb: "unat v \<le> 2 ^ 21"
    unfolding v using div_le_dividend order_trans by blast
  have "(2 :: nat) ^ k \<le> 2 ^ 20"
    using assms(2) by (rule power_increasing) simp
  then have wb: "w \<le> 2 ^ 22" "0 \<le> w"
    using align_up_less [of k "unat v"] vb unfolding w v by simp_all
  have "unat (CeilToMultipleOf v (2 ^ k)) = nat w"
    using unat_CeilToMultipleOf [OF assms(2), of v] vb by (simp add: w v)
  then have "uint (CeilToMultipleOf v (2 ^ k)) = w"
    using wb by (simp add: uint_nat)
  then have "FLOAT (CeilToMultipleOf v (2 ^ k)) = fint w"
    using wb FLOAT_exact [of "CeilToMultipleOf v (2 ^ k)"] by simp
  moreover have "UINT32 fp (fsub (fint r) (fint l)) div n = v"
    using assms unfolding v_def by (simp add: fsub_int UINT32_int)
  moreover have "n \<noteq> 0" using assms(1) by auto
  ultimately show ?thesis
    using assms wb by (simp add: SplitLeftRight_def Let_def split_lr_irect)
qed

text \<open>An odd width is not covered by two halves: the last column is lost.\<close>

lemma SplitLeftRight_loses_column:
  "SplitLeftRight fp (irect 0 0 101 10) 2 1 False = Inr [irect 0 0 50 10, irect 50 0 100 10]"
  using SplitLeftRight_irect [of 2 0 0 101 50 fp 0 10]
  by (simp add: align_up_def upt_rec)

subsection \<open>Mapping between equal domains\<close>

text \<open>A mapping between equal domains is the identity on whole rectangles.\<close>

lemma MapRect_same:
  assumes "0 < W" "W \<le> 2 ^ 24" "0 < H" "H \<le> 2 ^ 24"
    and "- (2 ^ 24) \<le> l" "l < r" "r \<le> 2 ^ 24" "- (2 ^ 24) \<le> t" "t < b" "b \<le> 2 ^ 24"
  shows "MapRect fp (irect 0 0 W H) (irect 0 0 W H) (irect l t r b) out = irect l t r b"
proof -
  have o: "INT_of fp (fint 0) = 0" "FLOAT_int 0 = fint 0" "wrap32 0 = 0"
    using rnd_int [of 0] by (simp_all add: fint_def FLOAT_int_def wrap32_def trunc_rat_def)
  have q: "fdiv (fint W) (fint W) = fint 1" "fdiv (fint H) (fint H) = fint 1"
    using fdiv_int [of W 1] fdiv_int [of H 1] assms by simp_all
  have v: "IsValid (irect 0 0 W H)" "IsValid (irect l t r b)"
    using assms by simp_all
  have c: "fsub (fint W) (fint 0) = fint W" "fsub (fint H) (fint 0) = fint H"
    using assms by (simp_all add: fsub_int)
  have z: "fadd (fint x) (fint 0) = fint x \<and> fmul (fint 1) (fint x) = fint x \<and> fadd (fint 0) (fint x) = fint x"
    if "x \<in> {l, t, r, b}" for x
    using that assms fadd_int [of x 0] fmul_int [of 1 x] fadd_int [of 0 x] by auto
  show ?thesis
    unfolding MapRect_def using v by (simp add: Let_def o q c z Reposition_def)
qed

end
