(* ===== verification/Sdm_Resource.thy ===== *)
theory Sdm_Resource
  imports Sdm_Rect
begin

text \<open>
  The default resource manager of the composer: \<open>sdm/libs/core/resource_default.cpp\<close>, which gives
  the hardware pipes to the displays and computes what each pipe reads and writes.

  \<open>ResourceDefault\<close> is a record of the members; a method takes it and returns it.  A display
  context is passed and returned as a value: the caller owns it.  Subscripts and \<open>at\<close> are checked,
  a miss is a fault.  \<open>SDM_VIRTUAL_DRIVER\<close> is not defined.  Structure members that no modelled
  code reads are left out; log output is left out.  The lock \<open>locker_\<close> makes each method one
  step.

  Shown here: no sequence of requests of live displays makes an access outside \<open>src_pipes\<close>; a
  pipe belongs to at most one display, and a successful \<open>Prepare\<close> programs two different pipes of
  its own display that can scale where scaling is needed; the pipes of the boot animation are
  never handed over; \<open>GetPipe\<close> fails only when no suitable pipe is free; the two halves of a wide
  layer meet, cover the layer and fit a pipe each.
\<close>

subsection \<open>Types\<close>

datatype DisplayError = kErrorNone | kErrorUndefined | kErrorNotSupported | kErrorPermission
  | kErrorVersion | kErrorDataAlignment | kErrorInstructionSet | kErrorParameters
  | kErrorFileDescriptor | kErrorMemory | kErrorResources | kErrorHardware | kErrorTimeOut
  | kErrorShutDown | kErrorPerfValidation | kErrorNoAppLayers | kErrorNotValidated

datatype DisplayType = kPrimary | kHDMI | kVirtual | kDisplayMax

datatype HWBlockType = kHWPrimary | kHWHDMI | kHWWriteback0 | kHWWriteback1 | kHWWriteback2
  | kHWBlockMax

datatype PipeType = kPipeTypeUnused | kPipeTypeVIG | kPipeTypeRGB | kPipeTypeDMA | kPipeTypeCursor

datatype PipeOwner = kPipeOwnerUserMode | kPipeOwnerKernelMode

datatype LayerComposition = kCompositionGPU | kCompositionGPUS3D | kCompositionSDE
  | kCompositionHWCursor | kCompositionHybrid | kCompositionBlit | kCompositionGPUTarget
  | kCompositionBlitTarget

record HWPipeCaps =
  cap_type :: PipeType
  cap_id :: u32

record HWResourceInfo =
  num_dma_pipe :: u32
  num_vig_pipe :: u32
  num_rgb_pipe :: u32
  max_scale_up :: u32
  max_scale_down :: u32
  max_pipe_width :: u32
  has_decimation :: bool
  has_non_scalar_rgb :: bool
  is_src_split :: bool
  has_dyn_bw_support :: bool
  separate_rotator :: bool
  num_blending_stages :: u32
  hw_pipes :: "HWPipeCaps list"

record HWMixerAttributes =
  mix_width :: u32
  mix_height :: u32
  split_left :: u32
  output_format :: LayerBufferFormat

record DisplayConfigVariableInfo =
  x_pixels :: u32
  y_pixels :: u32
  x_dpi :: float32
  y_dpi :: float32
  fps :: u32
  vsync_period_ns :: u32
  is_yuv :: bool

record HWDisplayAttributes = DisplayConfigVariableInfo +
  is_device_split :: bool
  v_front_porch :: u32
  v_back_porch :: u32
  v_pulse_width :: u32
  h_total :: u32
  v_total :: u32
  s3d_config :: u32

datatype LayerBufferS3DFormat = kS3dFormatNone | kS3dFormatLeftRight | kS3dFormatRightLeft | kS3dFormatTopBottom
  | kS3dFormatFramePacking

record Layer =
  l_format :: LayerBufferFormat
  l_secure :: bool
  composition :: LayerComposition
  src_rect :: LayerRect
  dst_rect :: LayerRect
  l_skip :: bool
  l_cursor :: bool
  request_flags :: u32
  l_transform :: LayerTransform
  l_s3d_format :: LayerBufferS3DFormat

record HWPipeInfo =
  pipe_id :: u32
  src_roi :: LayerRect
  dst_roi :: LayerRect
  horizontal_decimation :: u8
  vertical_decimation :: u8
  z_order :: u32
  valid :: bool

definition pipe_info0 :: HWPipeInfo where
  "pipe_info0 = \<lparr>pipe_id = 0, src_roi = rect0, dst_roi = rect0, horizontal_decimation = 0,
     vertical_decimation = 0, z_order = 0, valid = False\<rparr>"

record HWLayerConfig =
  left_pipe :: HWPipeInfo
  right_pipe :: HWPipeInfo

record SourcePipe =
  p_type :: PipeType
  p_owner :: PipeOwner
  p_id :: u32
  p_index :: u32
  p_block :: HWBlockType
  p_priority :: int

definition SourcePipe_new :: SourcePipe where
  "SourcePipe_new = \<lparr>p_type = kPipeTypeUnused, p_owner = kPipeOwnerUserMode, p_id = 0, p_index = 0,
     p_block = kHWBlockMax, p_priority = 0\<rparr>"

definition ResetState :: "SourcePipe \<Rightarrow> SourcePipe" where
  "ResetState p = p\<lparr>p_block := kHWBlockMax\<rparr>"

record DisplayResourceContext =
  ctx_attributes :: HWDisplayAttributes
  ctx_block :: HWBlockType
  frame_count :: u64
  ctx_mixer :: HWMixerAttributes

record ResourceDefault =
  hw_res_info :: HWResourceInfo
  hw_block_ctx :: "HWBlockType \<Rightarrow> bool"
  src_pipes :: "SourcePipe list"
  num_pipe :: u32

subsection \<open>Initialisation\<close>

definition ResourceDefault_new :: "HWResourceInfo \<Rightarrow> ResourceDefault" where
  "ResourceDefault_new hw =
     \<lparr>hw_res_info = hw, hw_block_ctx = (\<lambda>_. False), src_pipes = [], num_pipe = 0\<rparr>"

definition set_pipe :: "SourcePipe list \<Rightarrow> u32 \<Rightarrow> (SourcePipe \<Rightarrow> SourcePipe) \<Rightarrow> SourcePipe list mem" where
  "set_pipe ps i f = (if unat i < length ps then Inr (ps[unat i := f (ps ! unat i)]) else Inl OobWrite)"

text \<open>The loop that sorts the pipes by type: \<open>n\<close> iterations from \<open>i\<close> on.\<close>

fun place_pipes :: "HWPipeCaps list \<Rightarrow> nat \<Rightarrow> nat \<Rightarrow> u32 \<times> u32 \<times> u32 \<Rightarrow> SourcePipe list
    \<Rightarrow> SourcePipe list mem" where
  "place_pipes caps i 0 idx ps = Inr ps"
| "place_pipes caps i (Suc n) (vig_index, rgb_index, dma_index) ps =
     (if length caps \<le> i then Inl Abort
      else let cap = caps ! i;
               put = (\<lambda>p. p\<lparr>p_type := cap_type cap, p_index := of_nat i, p_id := cap_id cap\<rparr>)
           in case cap_type cap of
                kPipeTypeVIG \<Rightarrow> mbind (set_pipe ps vig_index put)
                  (place_pipes caps (Suc i) n (vig_index + 1, rgb_index, dma_index))
              | kPipeTypeRGB \<Rightarrow> mbind (set_pipe ps rgb_index put)
                  (place_pipes caps (Suc i) n (vig_index, rgb_index + 1, dma_index))
              | kPipeTypeDMA \<Rightarrow> mbind (set_pipe ps dma_index put)
                  (place_pipes caps (Suc i) n (vig_index, rgb_index, dma_index + 1))
              | _ \<Rightarrow> place_pipes caps (Suc i) n (vig_index, rgb_index, dma_index) ps)"

definition set_priorities :: "SourcePipe list \<Rightarrow> SourcePipe list" where
  "set_priorities ps = map (\<lambda>(i, p). p\<lparr>p_priority := int i\<rparr>) (enumerate 0 ps)"

definition fix_scaling :: "HWResourceInfo \<Rightarrow> HWResourceInfo" where
  "fix_scaling hw = (if max_scale_down hw < 1 \<or> max_scale_up hw < 1
                     then hw\<lparr>max_scale_down := 1, max_scale_up := 1\<rparr> else hw)"

definition total_pipes :: "HWResourceInfo \<Rightarrow> u32" where
  "total_pipes hw = num_vig_pipe hw + num_rgb_pipe hw + num_dma_pipe hw"

definition Resource_Init :: "ResourceDefault \<Rightarrow> (DisplayError \<times> ResourceDefault) mem" where
  "Resource_Init rd =
     (let hw = hw_res_info rd; num = total_pipes hw; rgb = num_vig_pipe hw;
          own = (\<lambda>p. p\<lparr>p_owner := kPipeOwnerKernelMode\<rparr>)
      in if num = 0 then Inr (kErrorParameters, rd\<lparr>num_pipe := num\<rparr>)
         else mbind (place_pipes (hw_pipes hw) 0 (unat num) (0, rgb, rgb + num_rgb_pipe hw)
                       (replicate (unat num) SourcePipe_new))
           (\<lambda>ps. mbind (set_pipe (set_priorities ps) rgb own)
           (\<lambda>ps. mbind (set_pipe ps (rgb + 1) own)
           (\<lambda>ps. Inr (kErrorNone, rd\<lparr>num_pipe := num, src_pipes := ps, hw_res_info := fix_scaling hw\<rparr>)))))"

text \<open>A pointer handed to the caller: to a live object, or to one already deleted.\<close>

datatype 'a ptr = Live 'a | Deleted

definition CreateResourceDefault :: "HWResourceInfo \<Rightarrow> (DisplayError \<times> ResourceDefault ptr) mem" where
  "CreateResourceDefault hw =
     mbind (Resource_Init (ResourceDefault_new hw))
       (\<lambda>(error, rd). Inr (kErrorNone, if error \<noteq> kErrorNone then Deleted else Live rd))"

subsection \<open>Displays\<close>

definition block_of :: "DisplayType \<Rightarrow> HWBlockType option" where
  "block_of type = (case type of kPrimary \<Rightarrow> Some kHWPrimary | kHDMI \<Rightarrow> Some kHWHDMI | _ \<Rightarrow> None)"

definition Resource_RegisterDisplay :: "DisplayType \<Rightarrow> HWDisplayAttributes \<Rightarrow> HWMixerAttributes
    \<Rightarrow> ResourceDefault \<Rightarrow> DisplayError \<times> DisplayResourceContext option \<times> ResourceDefault" where
  "Resource_RegisterDisplay type attributes mixer rd =
     (case block_of type of
        None \<Rightarrow> (kErrorParameters, None, rd)
      | Some b \<Rightarrow>
          if hw_block_ctx rd b then (kErrorResources, None, rd)
          else (kErrorNone,
                Some \<lparr>ctx_attributes = attributes, ctx_block = b, frame_count = 0, ctx_mixer = mixer\<rparr>,
                rd\<lparr>hw_block_ctx := (hw_block_ctx rd)(b := True)\<rparr>))"

text \<open>The loop that gives up the pipes of a block, in \<open>Purge\<close> and in \<open>Prepare\<close>.\<close>

definition reset_pipes :: "HWBlockType \<Rightarrow> SourcePipe list \<Rightarrow> SourcePipe list" where
  "reset_pipes b ps = map (\<lambda>p. if p_block p = b \<and> p_owner p = kPipeOwnerUserMode then ResetState p else p) ps"

definition Resource_Purge :: "DisplayResourceContext \<Rightarrow> ResourceDefault \<Rightarrow> ResourceDefault" where
  "Resource_Purge ctx rd = rd\<lparr>src_pipes := reset_pipes (ctx_block ctx) (src_pipes rd)\<rparr>"

definition Resource_UnregisterDisplay :: "DisplayResourceContext \<Rightarrow> ResourceDefault
    \<Rightarrow> DisplayError \<times> ResourceDefault" where
  "Resource_UnregisterDisplay ctx rd =
     (let rd = Resource_Purge ctx rd
      in (kErrorNone, rd\<lparr>hw_block_ctx := (hw_block_ctx rd)(ctx_block ctx := False)\<rparr>))"

definition Resource_ReconfigureDisplay :: "DisplayResourceContext \<Rightarrow> HWDisplayAttributes
    \<Rightarrow> HWMixerAttributes \<Rightarrow> DisplayError \<times> DisplayResourceContext" where
  "Resource_ReconfigureDisplay ctx attributes mixer =
     (kErrorNone, ctx\<lparr>ctx_attributes := attributes, ctx_mixer := mixer\<rparr>)"

text \<open>The second component is the fence that is closed, if there is one.\<close>

definition Resource_PostCommit :: "DisplayResourceContext \<Rightarrow> int \<Rightarrow> ResourceDefault
    \<Rightarrow> DisplayError \<times> int option \<times> DisplayResourceContext \<times> ResourceDefault" where
  "Resource_PostCommit ctx sync_handle rd =
     (let b = ctx_block ctx;
          rd = (if frame_count ctx = 0 \<and> b = kHWPrimary
                then rd\<lparr>src_pipes := map (\<lambda>p. if p_block p = b \<and> p_owner p = kPipeOwnerKernelMode
                                               then p\<lparr>p_owner := kPipeOwnerUserMode\<rparr> else p) (src_pipes rd)\<rparr>
                else rd)
      in (kErrorNone, if 0 \<le> sync_handle then Some sync_handle else None,
          ctx\<lparr>frame_count := frame_count ctx + 1\<rparr>, rd))"

subsection \<open>Choosing a pipe\<close>

definition available :: "SourcePipe \<Rightarrow> bool" where
  "available p = (p_owner p = kPipeOwnerUserMode \<and> p_block p = kHWBlockMax)"

text \<open>The first available pipe among the \<open>n\<close> pipes from \<open>off\<close> on.\<close>

fun search_from :: "SourcePipe list \<Rightarrow> nat \<Rightarrow> nat \<Rightarrow> nat option mem" where
  "search_from ps off 0 = Inr None"
| "search_from ps off (Suc n) =
     (if length ps \<le> off then Inl OobRead
      else if available (ps ! off) then Inr (Some off)
      else search_from ps (Suc off) n)"

definition SearchPipe :: "HWBlockType \<Rightarrow> u32 \<Rightarrow> u32 \<Rightarrow> ResourceDefault \<Rightarrow> (u32 \<times> ResourceDefault) mem" where
  "SearchPipe b off n rd =
     mbind (search_from (src_pipes rd) (unat off) (unat n))
       (\<lambda>found. Inr (case found of
          None \<Rightarrow> (num_pipe rd, rd)
        | Some i \<Rightarrow> let p = src_pipes rd ! i
                    in (p_index p, rd\<lparr>src_pipes := (src_pipes rd)[i := p\<lparr>p_block := b\<rparr>]\<rparr>)))"

definition NextPipe :: "PipeType \<Rightarrow> HWBlockType \<Rightarrow> ResourceDefault \<Rightarrow> (u32 \<times> ResourceDefault) mem" where
  "NextPipe type b rd =
     (let hw = hw_res_info rd
      in case type of
           kPipeTypeVIG \<Rightarrow> SearchPipe b 0 (num_vig_pipe hw) rd
         | kPipeTypeRGB \<Rightarrow> SearchPipe b (num_vig_pipe hw) (num_rgb_pipe hw) rd
         | _ \<Rightarrow> SearchPipe b (num_vig_pipe hw + num_rgb_pipe hw) (num_dma_pipe hw) rd)"

definition GetPipe :: "HWBlockType \<Rightarrow> bool \<Rightarrow> ResourceDefault \<Rightarrow> (u32 \<times> ResourceDefault) mem" where
  "GetPipe b need_scale rd =
     mbind (if \<not> need_scale then NextPipe kPipeTypeDMA b rd else Inr (num_pipe rd, rd))
       (\<lambda>(index, rd).
     mbind (if num_pipe rd \<le> index \<and> (\<not> need_scale \<or> \<not> has_non_scalar_rgb (hw_res_info rd))
            then NextPipe kPipeTypeRGB b rd else Inr (index, rd))
       (\<lambda>(index, rd).
     if num_pipe rd \<le> index then NextPipe kPipeTypeVIG b rd else Inr (index, rd)))"

definition IsScalingNeeded :: "HWPipeInfo \<Rightarrow> bool" where
  "IsScalingNeeded p =
     (\<not> feq (fsub (r_right (dst_roi p)) (r_left (dst_roi p))) (fsub (r_right (src_roi p)) (r_left (src_roi p)))
      \<or> \<not> feq (fsub (r_bottom (dst_roi p)) (r_top (dst_roi p))) (fsub (r_bottom (src_roi p)) (r_top (src_roi p))))"

subsection \<open>Validation\<close>

definition rect_width :: "LayerRect \<Rightarrow> float32" where
  "rect_width r = fsub (r_right r) (r_left r)"

definition rect_height :: "LayerRect \<Rightarrow> float32" where
  "rect_height r = fsub (r_bottom r) (r_top r)"

definition whole :: "float32 \<Rightarrow> bool" where
  "whole x = feq (fsub x (roundf x)) (Fin 0)"

definition ValidateLayerParams :: "Layer \<Rightarrow> DisplayError" where
  "ValidateLayerParams layer =
     (let src = src_rect layer
      in if l_format layer = kFormatInvalid then kErrorNotSupported
         else if \<not> IsValid src \<or> \<not> IsValid (dst_rect layer) then kErrorNotSupported
         else if \<not> l_secure layer \<and> (\<not> whole (r_left src) \<or> \<not> whole (r_top src) \<or>
                   \<not> whole (r_right src) \<or> \<not> whole (r_bottom src)) then kErrorNotSupported
         else kErrorNone)"

definition ValidateDimensions :: "fp_env \<Rightarrow> LayerRect \<Rightarrow> LayerRect \<Rightarrow> DisplayError" where
  "ValidateDimensions fp crop dst =
     (if \<not> IsValid crop then kErrorNotSupported
      else if \<not> IsValid dst then kErrorNotSupported
      else if UINT32 fp (fsub (rect_width crop) (rect_width dst)) = 1 \<or>
              UINT32 fp (fsub (rect_height crop) (rect_height dst)) = 1 then kErrorNotSupported
      else kErrorNone)"

definition GetScaleFactor :: "LayerRect \<Rightarrow> LayerRect \<Rightarrow> float32 \<times> float32" where
  "GetScaleFactor crop dst =
     (fdiv (rect_width crop) (rect_width dst), fdiv (rect_height crop) (rect_height dst))"

definition kMaxDecimationDownScaleRatio :: u32 where
  "kMaxDecimationDownScaleRatio = 16"

definition ValidateDownScaling :: "fp_env \<Rightarrow> HWResourceInfo \<Rightarrow> float32 \<Rightarrow> float32 \<Rightarrow> bool \<Rightarrow> DisplayError" where
  "ValidateDownScaling fp hw scale_x scale_y ubwc_tiled =
     (if 1 < UINT32 fp scale_x \<or> 1 < UINT32 fp scale_y then
        let limit = FLOAT (max_scale_down hw);
            limit = (if \<not> ubwc_tiled \<and> has_decimation hw
                     then fmul limit (FLOAT kMaxDecimationDownScaleRatio) else limit)
        in if flt limit scale_x \<or> flt limit scale_y then kErrorNotSupported else kErrorNone
      else kErrorNone)"

definition over_up :: "fp_env \<Rightarrow> HWResourceInfo \<Rightarrow> float32 \<Rightarrow> bool" where
  "over_up fp hw scale = (UINT32 fp scale < 1 \<and> flt (Fin 0) scale \<and>
                          flt (FLOAT (max_scale_up hw)) (fdiv (Fin 1) scale))"

definition ValidateUpScaling :: "fp_env \<Rightarrow> HWResourceInfo \<Rightarrow> float32 \<Rightarrow> float32 \<Rightarrow> DisplayError" where
  "ValidateUpScaling fp hw scale_x scale_y =
     (if over_up fp hw scale_x then kErrorNotSupported
      else if over_up fp hw scale_y then kErrorNotSupported
      else kErrorNone)"

definition ValidateScaling :: "fp_env \<Rightarrow> HWResourceInfo \<Rightarrow> LayerRect \<Rightarrow> LayerRect \<Rightarrow> BufferLayout
    \<Rightarrow> DisplayError" where
  "ValidateScaling fp hw crop dst layout =
     (let (scale_x, scale_y) = GetScaleFactor crop dst;
          error = ValidateDownScaling fp hw scale_x scale_y (layout \<noteq> kLinear)
      in if error \<noteq> kErrorNone then error else ValidateUpScaling fp hw scale_x scale_y)"

definition ValidatePipeParams :: "fp_env \<Rightarrow> HWResourceInfo \<Rightarrow> HWPipeInfo \<Rightarrow> LayerBufferFormat
    \<Rightarrow> DisplayError" where
  "ValidatePipeParams fp hw p format =
     (let error = ValidateDimensions fp (src_roi p) (dst_roi p)
      in if error \<noteq> kErrorNone then error
         else ValidateScaling fp hw (src_roi p) (dst_roi p) (sdm_GetBufferLayout format))"

definition CalculateDecimation :: "fp_env \<Rightarrow> HWResourceInfo \<Rightarrow> float32 \<Rightarrow> u8 \<Rightarrow> DisplayError \<times> u8" where
  "CalculateDecimation fp hw downscale decimation =
     (let limit = FLOAT (max_scale_down hw)
      in if fle downscale limit then (kErrorNone, 0)
         else if \<not> has_decimation hw then (kErrorNotSupported, decimation)
         else (kErrorNone, UINT8 fp (ceilf (log2f fp (fdiv downscale limit)))))"

definition SetDecimationFactor :: "fp_env \<Rightarrow> HWResourceInfo \<Rightarrow> HWPipeInfo \<Rightarrow> DisplayError \<times> HWPipeInfo" where
  "SetDecimationFactor fp hw p =
     (let down_scale_h = fdiv (rect_height (src_roi p)) (rect_height (dst_roi p));
          down_scale_w = fdiv (rect_width (src_roi p)) (rect_width (dst_roi p));
          (error, h) = CalculateDecimation fp hw down_scale_w 0;
          p = p\<lparr>horizontal_decimation := h, vertical_decimation := 0\<rparr>
      in if error \<noteq> kErrorNone then (kErrorNotSupported, p)
         else let (error, v) = CalculateDecimation fp hw down_scale_h 0;
                  p = p\<lparr>vertical_decimation := v\<rparr>
              in if error \<noteq> kErrorNone then (kErrorNotSupported, p) else (kErrorNone, p))"

subsection \<open>Splitting a layer over two pipes\<close>

definition SplitRect :: "fp_env \<Rightarrow> LayerRect \<Rightarrow> LayerRect \<Rightarrow> LayerRect \<times> LayerRect \<times> LayerRect \<times> LayerRect" where
  "SplitRect fp src dst =
     (let src_width_ori = rect_width src;
          src_width = ROUND_UP_ALIGN_DOWN fp (fdiv src_width_ori (Fin 2)) 1;
          dst_width = ROUND_UP_ALIGN_DOWN fp (fdiv (fmul (rect_width dst) src_width) src_width_ori) 1;
          src_mid = fadd (r_left src) src_width;
          dst_mid = fadd (r_left dst) dst_width
      in (src\<lparr>r_right := src_mid\<rparr>, dst\<lparr>r_right := dst_mid\<rparr>,
          src\<lparr>r_left := src_mid\<rparr>, dst\<lparr>r_left := dst_mid\<rparr>))"

definition SrcSplitConfig :: "fp_env \<Rightarrow> HWResourceInfo \<Rightarrow> LayerRect \<Rightarrow> LayerRect \<Rightarrow> HWLayerConfig
    \<Rightarrow> HWLayerConfig" where
  "SrcSplitConfig fp hw src dst c =
     (if flt (FLOAT (max_pipe_width hw)) (rect_width src) \<or> flt (FLOAT (max_pipe_width hw)) (rect_width dst)
      then let (sl, dl, sr, dr) = SplitRect fp src dst
           in \<lparr>left_pipe = (left_pipe c)\<lparr>src_roi := sl, dst_roi := dl, valid := True\<rparr>,
               right_pipe = (right_pipe c)\<lparr>src_roi := sr, dst_roi := dr, valid := True\<rparr>\<rparr>
      else \<lparr>left_pipe = (left_pipe c)\<lparr>src_roi := src, dst_roi := dst, valid := True\<rparr>,
            right_pipe = pipe_info0\<rparr>)"

definition CalculateCropRects :: "fp_env \<Rightarrow> LayerRect \<Rightarrow> LayerRect \<Rightarrow> LayerRect
    \<Rightarrow> bool \<times> LayerRect \<times> LayerRect" where
  "CalculateCropRects fp sci crop dst =
     (let crop_width = rect_width crop; crop_height = rect_height crop;
          dst_width = rect_width dst; dst_height = rect_height dst;
          cut_l = flt (r_left dst) (r_left sci); cut_r = flt (r_right sci) (r_right dst);
          cut_t = flt (r_top dst) (r_top sci); cut_b = flt (r_bottom sci) (r_bottom dst);
          left_cut_ratio = (if cut_l then fdiv (fsub (r_left sci) (r_left dst)) dst_width else Fin 0);
          right_cut_ratio = (if cut_r then fdiv (fsub (r_right dst) (r_right sci)) dst_width else Fin 0);
          top_cut_ratio = (if cut_t then fdiv (fsub (r_top sci) (r_top dst)) dst_height else Fin 0);
          bottom_cut_ratio = (if cut_b then fdiv (fsub (r_bottom dst) (r_bottom sci)) dst_height else Fin 0);
          dst' = \<lparr>r_left = (if cut_l then r_left sci else r_left dst),
                  r_top = (if cut_t then r_top sci else r_top dst),
                  r_right = (if cut_r then r_right sci else r_right dst),
                  r_bottom = (if cut_b then r_bottom sci else r_bottom dst)\<rparr>
      in if \<not> (cut_l \<or> cut_r \<or> cut_t \<or> cut_b) then (True, crop, dst)
         else let crop' = \<lparr>r_left = fadd (r_left crop) (fmul crop_width left_cut_ratio),
                           r_top = fadd (r_top crop) (fmul crop_height top_cut_ratio),
                           r_right = fsub (r_right crop) (fmul crop_width right_cut_ratio),
                           r_bottom = fsub (r_bottom crop) (fmul crop_height bottom_cut_ratio)\<rparr>;
                  crop' = Normalize fp 1 1 crop';
                  dst' = Normalize fp 1 1 dst'
              in (IsValid crop' \<and> IsValid dst', crop', dst'))"

definition DisplaySplitConfig :: "fp_env \<Rightarrow> HWMixerAttributes \<Rightarrow> LayerRect \<Rightarrow> LayerRect \<Rightarrow> HWLayerConfig" where
  "DisplaySplitConfig fp mixer src dst =
     (let scissor_left = \<lparr>r_left = Fin 0, r_top = Fin 0, r_right = FLOAT (split_left mixer),
                           r_bottom = FLOAT (mix_height mixer)\<rparr>;
          scissor_right = \<lparr>r_left = FLOAT (split_left mixer), r_top = Fin 0,
                            r_right = FLOAT (mix_width mixer), r_bottom = FLOAT (mix_height mixer)\<rparr>;
          (crop_left_valid, crop_left, dst_left) = CalculateCropRects fp scissor_left src dst;
          (crop_right_valid, crop_right, dst_right) =
            (if IsValid scissor_right then CalculateCropRects fp scissor_right src dst
             else (False, src, dst))
      in \<lparr>left_pipe = (if crop_left_valid
                       then pipe_info0\<lparr>src_roi := crop_left, dst_roi := dst_left, valid := True\<rparr>
                       else pipe_info0),
          right_pipe = (if crop_right_valid
                        then pipe_info0\<lparr>src_roi := crop_right, dst_roi := dst_right, valid := True\<rparr>
                        else pipe_info0)\<rparr>)"

definition AlignPipeConfig :: "fp_env \<Rightarrow> HWResourceInfo \<Rightarrow> Layer \<Rightarrow> HWLayerConfig
    \<Rightarrow> DisplayError \<times> HWLayerConfig" where
  "AlignPipeConfig fp hw layer c =
     (if \<not> valid (left_pipe c) then (kErrorNotSupported, c)
      else let error = ValidatePipeParams fp hw (left_pipe c) (l_format layer)
           in if error \<noteq> kErrorNone then (error, c)
              else if valid (right_pipe c)
              then let rp = right_pipe c;
                       rp = rp\<lparr>src_roi := (src_roi rp)\<lparr>r_left := r_right (src_roi (left_pipe c))\<rparr>,
                               dst_roi := (dst_roi rp)\<lparr>r_left := r_right (dst_roi (left_pipe c))\<rparr>\<rparr>
                   in (ValidatePipeParams fp hw rp (l_format layer), c\<lparr>right_pipe := rp\<rparr>)
              else (kErrorNone, c))"

definition Config :: "fp_env \<Rightarrow> HWResourceInfo \<Rightarrow> HWMixerAttributes \<Rightarrow> Layer \<Rightarrow> HWLayerConfig
    \<Rightarrow> DisplayError \<times> HWLayerConfig" where
  "Config fp hw mixer layer c =
     (let error = ValidateLayerParams layer
      in if error \<noteq> kErrorNone then (error, c)
         else let error = ValidateDimensions fp (src_rect layer) (dst_rect layer)
      in if error \<noteq> kErrorNone then (error, c)
         else let error = ValidateScaling fp hw (src_rect layer) (dst_rect layer)
                            (sdm_GetBufferLayout (l_format layer))
      in if error \<noteq> kErrorNone then (error, c)
         else let c = (if is_src_split hw then SrcSplitConfig fp hw (src_rect layer) (dst_rect layer) c
                       else DisplaySplitConfig fp mixer (src_rect layer) (dst_rect layer));
                  (error, c) = AlignPipeConfig fp hw layer c
      in if error \<noteq> kErrorNone then (error, c)
         else let c = c\<lparr>left_pipe := (left_pipe c)\<lparr>z_order := 0\<rparr>\<rparr>
      in (kErrorNone, if valid (right_pipe c) then c\<lparr>right_pipe := (right_pipe c)\<lparr>z_order := 0\<rparr>\<rparr> else c))"

subsection \<open>Reserving the pipes of a frame\<close>

definition get_src_pipe :: "ResourceDefault \<Rightarrow> u32 \<Rightarrow> SourcePipe mem" where
  "get_src_pipe rd i = (if unat i < length (src_pipes rd) then Inr (src_pipes rd ! unat i) else Inl OobRead)"

text \<open>The part of \<open>Prepare\<close> after the left pipe: the right pipe, and the order of the two.\<close>

definition prepare_right :: "fp_env \<Rightarrow> HWBlockType \<Rightarrow> u32 \<Rightarrow> HWLayerConfig \<Rightarrow> ResourceDefault
    \<Rightarrow> (DisplayError \<times> HWLayerConfig \<times> ResourceDefault) mem" where
  "prepare_right fp b left_index c rd =
     mbind (GetPipe b (IsScalingNeeded (right_pipe c)) rd) (\<lambda>(right_index, rd).
     if num_pipe rd \<le> right_index then Inr (kErrorResources, c, rd)
     else mbind (get_src_pipe rd left_index) (\<lambda>lp. mbind (get_src_pipe rd right_index) (\<lambda>rp.
       let (lp, rp) = (if p_priority rp < p_priority lp then (rp, lp) else (lp, rp));
           (error, right) = SetDecimationFactor fp (hw_res_info rd) ((right_pipe c)\<lparr>pipe_id := p_id rp\<rparr>);
           c = \<lparr>left_pipe = (left_pipe c)\<lparr>pipe_id := p_id lp\<rparr>, right_pipe = right\<rparr>
       in Inr (if error \<noteq> kErrorNone then kErrorResources else kErrorNone, c, rd))))"

definition prepare_pipes :: "fp_env \<Rightarrow> HWBlockType \<Rightarrow> HWLayerConfig \<Rightarrow> ResourceDefault
    \<Rightarrow> (DisplayError \<times> HWLayerConfig \<times> ResourceDefault) mem" where
  "prepare_pipes fp b c rd =
     mbind (if valid (left_pipe c) then GetPipe b (IsScalingNeeded (left_pipe c)) rd
            else Inr (num_pipe rd, rd)) (\<lambda>(left_index, rd).
     if valid (left_pipe c) \<and> num_pipe rd \<le> left_index then Inr (kErrorResources, c, rd)
     else let (error, left) = SetDecimationFactor fp (hw_res_info rd) (left_pipe c);
              c = c\<lparr>left_pipe := left\<rparr>
       in if error \<noteq> kErrorNone then Inr (kErrorResources, c, rd)
          else if \<not> valid (right_pipe c) then
            (if left_index < num_pipe rd
             then mbind (get_src_pipe rd left_index)
                    (\<lambda>lp. Inr (kErrorNone, c\<lparr>left_pipe := left\<lparr>pipe_id := p_id lp\<rparr>\<rparr>, rd))
             else Inr (kErrorNone, c, rd))
          else prepare_right fp b left_index c rd)"

definition Resource_Prepare :: "fp_env \<Rightarrow> DisplayResourceContext \<Rightarrow> Layer list \<Rightarrow> HWLayerConfig
    \<Rightarrow> ResourceDefault \<Rightarrow> (DisplayError \<times> HWLayerConfig \<times> ResourceDefault) mem" where
  "Resource_Prepare fp ctx hw_layers c rd =
     (if 1 < length hw_layers then Inr (kErrorResources, c, rd)
      else case hw_layers of
        [] \<Rightarrow> Inl Abort
      | layer # _ \<Rightarrow>
          if composition layer \<noteq> kCompositionGPUTarget then Inr (kErrorParameters, c, rd)
          else let (error, c) = Config fp (hw_res_info rd) (ctx_mixer ctx) layer c
               in if error \<noteq> kErrorNone then Inr (error, c, rd)
                  else prepare_pipes fp (ctx_block ctx) c
                         (rd\<lparr>src_pipes := reset_pipes (ctx_block ctx) (src_pipes rd)\<rparr>))"

subsection \<open>Sequences of requests\<close>

text \<open>
  The manager together with the contexts its clients hold.  A request for a display without a
  context passes a null handle.
\<close>

record res_system =
  sys_rd :: ResourceDefault
  sys_ctx :: "DisplayType \<Rightarrow> DisplayResourceContext option"

datatype display_op =
    Unregister
  | Reconfigure HWDisplayAttributes HWMixerAttributes
  | PrepareFrame "Layer list" HWLayerConfig
  | PostCommitFrame int
  | PurgeDisplay

datatype res_op = Register DisplayType HWDisplayAttributes HWMixerAttributes | On DisplayType display_op

fun res_on :: "fp_env \<Rightarrow> display_op \<Rightarrow> DisplayResourceContext \<Rightarrow> ResourceDefault
    \<Rightarrow> (DisplayError \<times> DisplayResourceContext option \<times> ResourceDefault) mem" where
  "res_on fp Unregister ctx rd = (let (e, rd) = Resource_UnregisterDisplay ctx rd in Inr (e, None, rd))"
| "res_on fp (Reconfigure a m) ctx rd = (let (e, ctx) = Resource_ReconfigureDisplay ctx a m in Inr (e, Some ctx, rd))"
| "res_on fp (PrepareFrame ls c) ctx rd =
     mbind (Resource_Prepare fp ctx ls c rd) (\<lambda>(e, c, rd). Inr (e, Some ctx, rd))"
| "res_on fp (PostCommitFrame fence) ctx rd =
     (let (e, closed, ctx, rd) = Resource_PostCommit ctx fence rd in Inr (e, Some ctx, rd))"
| "res_on fp PurgeDisplay ctx rd = Inr (kErrorNone, Some ctx, Resource_Purge ctx rd)"

fun res_exec :: "fp_env \<Rightarrow> res_op \<Rightarrow> res_system \<Rightarrow> (DisplayError \<times> res_system) mem" where
  "res_exec fp (Register t a m) s =
     (let (e, ctx, rd) = Resource_RegisterDisplay t a m (sys_rd s)
      in Inr (e, \<lparr>sys_rd = rd, sys_ctx = (if ctx = None then sys_ctx s else (sys_ctx s)(t := ctx))\<rparr>))"
| "res_exec fp (On t op) s =
     (case sys_ctx s t of
        None \<Rightarrow> Inl NullDeref
      | Some ctx \<Rightarrow> mbind (res_on fp op ctx (sys_rd s))
          (\<lambda>(e, ctx, rd). Inr (e, \<lparr>sys_rd = rd, sys_ctx = (sys_ctx s)(t := ctx)\<rparr>)))"

text \<open>What a client owes: a live handle, and a frame with at least one layer.\<close>

fun client_ok :: "res_op \<Rightarrow> res_system \<Rightarrow> bool" where
  "client_ok (Register t a m) s = True"
| "client_ok (On t (PrepareFrame ls c)) s = (sys_ctx s t \<noteq> None \<and> ls \<noteq> [])"
| "client_ok (On t op) s = (sys_ctx s t \<noteq> None)"

definition res_step :: "fp_env \<Rightarrow> res_op \<Rightarrow> res_system \<Rightarrow> res_system \<Rightarrow> bool" where
  "res_step fp op s t = (client_ok op s \<and> (\<exists>e. res_exec fp op s = Inr (e, t)))"

definition res_start :: "ResourceDefault \<Rightarrow> res_system" where
  "res_start rd = \<lparr>sys_rd = rd, sys_ctx = (\<lambda>_. None)\<rparr>"

text \<open>
  Hardware whose pipes are listed in the order the manager keeps them: video, RGB, DMA; with
  two pipes behind the video pipes, which \<open>Init\<close> leaves to the boot animation.
\<close>

definition type_at :: "HWResourceInfo \<Rightarrow> nat \<Rightarrow> PipeType" where
  "type_at hw i = (if i < unat (num_vig_pipe hw) then kPipeTypeVIG
                   else if i < unat (num_vig_pipe hw) + unat (num_rgb_pipe hw) then kPipeTypeRGB
                   else kPipeTypeDMA)"

definition hw_total :: "HWResourceInfo \<Rightarrow> nat" where
  "hw_total hw = unat (num_vig_pipe hw) + unat (num_rgb_pipe hw) + unat (num_dma_pipe hw)"

definition ordered_hw :: "HWResourceInfo \<Rightarrow> bool" where
  "ordered_hw hw = (hw_total hw < 2 ^ 32 \<and> hw_total hw \<le> length (hw_pipes hw) \<and>
     list_all (\<lambda>i. cap_type (hw_pipes hw ! i) = type_at hw i) [0..<hw_total hw] \<and>
     unat (num_vig_pipe hw) + 2 \<le> hw_total hw)"

definition boot_pipe :: "HWResourceInfo \<Rightarrow> nat \<Rightarrow> bool" where
  "boot_pipe hw i = (i = unat (num_vig_pipe hw) \<or> i = unat (num_vig_pipe hw) + 1)"

text \<open>The order in which \<open>GetPipe\<close> considers the pipes.\<close>

definition pipe_order :: "HWResourceInfo \<Rightarrow> bool \<Rightarrow> nat list" where
  "pipe_order hw need_scale =
     (let v = unat (num_vig_pipe hw); r = unat (num_rgb_pipe hw)
      in (if need_scale then [] else [v + r..<hw_total hw]) @
         (if need_scale \<and> has_non_scalar_rgb hw then [] else [v..<v + r]) @ [0..<v])"

text \<open>The pipes after initialisation.\<close>

definition placed :: "HWResourceInfo \<Rightarrow> nat \<Rightarrow> SourcePipe" where
  "placed hw i = \<lparr>p_type = type_at hw i, p_owner = kPipeOwnerUserMode, p_id = cap_id (hw_pipes hw ! i),
     p_index = of_nat i, p_block = kHWBlockMax, p_priority = 0\<rparr>"

definition init_pipe :: "HWResourceInfo \<Rightarrow> nat \<Rightarrow> SourcePipe" where
  "init_pipe hw i = (placed hw i)\<lparr>p_owner := (if boot_pipe hw i then kPipeOwnerKernelMode else kPipeOwnerUserMode),
     p_priority := int i\<rparr>"

definition take_pipe :: "HWBlockType \<Rightarrow> nat \<Rightarrow> ResourceDefault \<Rightarrow> ResourceDefault" where
  "take_pipe b i rd = rd\<lparr>src_pipes := (src_pipes rd)[i := (src_pipes rd ! i)\<lparr>p_block := b\<rparr>]\<rparr>"

text \<open>The invariant of the pipes, and that of the manager with its clients.\<close>

definition pipe_inv :: "HWResourceInfo \<Rightarrow> (HWBlockType \<Rightarrow> bool) \<Rightarrow> nat \<Rightarrow> SourcePipe \<Rightarrow> bool" where
  "pipe_inv hw used i p =
     (p_index p = of_nat i \<and> p_type p = type_at hw i \<and> p_id p = cap_id (hw_pipes hw ! i) \<and>
      (p_owner p = kPipeOwnerKernelMode \<longleftrightarrow> boot_pipe hw i) \<and>
      (boot_pipe hw i \<longrightarrow> p_block p = kHWBlockMax) \<and>
      (p_block p \<noteq> kHWBlockMax \<longrightarrow> used (p_block p)))"

definition pipes_inv :: "HWResourceInfo \<Rightarrow> ResourceDefault \<Rightarrow> bool" where
  "pipes_inv hw rd =
     (hw_total hw < 2 ^ 32 \<and> hw_res_info rd = fix_scaling hw \<and> unat (num_pipe rd) = hw_total hw \<and>
      length (src_pipes rd) = hw_total hw \<and>
      (\<forall>i < hw_total hw. pipe_inv hw (hw_block_ctx rd) i (src_pipes rd ! i)))"

definition res_inv :: "HWResourceInfo \<Rightarrow> res_system \<Rightarrow> bool" where
  "res_inv hw s =
     (pipes_inv hw (sys_rd s) \<and>
      (\<forall>t ctx. sys_ctx s t = Some ctx \<longrightarrow> block_of t = Some (ctx_block ctx)) \<and>
      (\<forall>b. hw_block_ctx (sys_rd s) b \<longleftrightarrow> (\<exists>t ctx. sys_ctx s t = Some ctx \<and> ctx_block ctx = b)))"

definition pick :: "HWBlockType \<Rightarrow> ResourceDefault \<Rightarrow> nat option \<Rightarrow> u32 \<times> ResourceDefault" where
  "pick b rd found = (case found of None \<Rightarrow> (num_pipe rd, rd) | Some i \<Rightarrow> (of_nat i, take_pipe b i rd))"

text \<open>
  A pipe programmed for a display: the one with that identifier, in user mode, reserved for the
  block of the display.
\<close>

definition own_pipe :: "HWBlockType \<Rightarrow> ResourceDefault \<Rightarrow> HWPipeInfo \<Rightarrow> nat \<Rightarrow> bool" where
  "own_pipe b rd info i =
     (i < length (src_pipes rd) \<and> p_id (src_pipes rd ! i) = pipe_id info \<and>
      p_owner (src_pipes rd ! i) = kPipeOwnerUserMode \<and> p_block (src_pipes rd ! i) = b)"

definition can_scale :: "ResourceDefault \<Rightarrow> nat \<Rightarrow> bool" where
  "can_scale rd i = (p_type (src_pipes rd ! i) = kPipeTypeVIG \<or>
     p_type (src_pipes rd ! i) = kPipeTypeRGB \<and> \<not> has_non_scalar_rgb (hw_res_info rd))"

definition programmed :: "HWBlockType \<Rightarrow> ResourceDefault \<Rightarrow> HWLayerConfig \<Rightarrow> nat \<Rightarrow> nat \<Rightarrow> bool" where
  "programmed b rd c i j =
     (own_pipe b rd (left_pipe c) i \<and>
      (if valid (right_pipe c)
       then own_pipe b rd (right_pipe c) j \<and> i \<noteq> j \<and>
            (IsScalingNeeded (left_pipe c) \<and> IsScalingNeeded (right_pipe c) \<longrightarrow> can_scale rd i \<and> can_scale rd j)
       else IsScalingNeeded (left_pipe c) \<longrightarrow> can_scale rd i))"

text \<open>What a frame of block \<open>b\<close> may change.\<close>

definition frame_ok :: "HWResourceInfo \<Rightarrow> HWBlockType \<Rightarrow> ResourceDefault \<Rightarrow> ResourceDefault \<Rightarrow> bool" where
  "frame_ok hw b rd rd' =
     (pipes_inv hw rd' \<and> hw_block_ctx rd' = hw_block_ctx rd \<and>
      (\<forall>i < hw_total hw. p_block (src_pipes rd ! i) \<notin> {b, kHWBlockMax} \<longrightarrow> src_pipes rd' ! i = src_pipes rd ! i))"

text \<open>A pipe of the block that is already chosen.\<close>

definition chosen :: "HWBlockType \<Rightarrow> ResourceDefault \<Rightarrow> nat \<Rightarrow> bool" where
  "chosen b rd i = (i < length (src_pipes rd) \<and> p_owner (src_pipes rd ! i) = kPipeOwnerUserMode \<and>
                    p_block (src_pipes rd ! i) = b)"

definition whole_rect :: "int \<Rightarrow> int \<Rightarrow> LayerRect \<Rightarrow> bool" where
  "whole_rect w h r = (0 < w \<and> w \<le> 2 ^ 12 \<and> 0 < h \<and> h \<le> 2 ^ 12 \<and>
     (\<exists>l t. r = irect l t (l + w) (t + h) \<and> - (2 ^ 24) \<le> l \<and> l + w \<le> 2 ^ 24 \<and>
        - (2 ^ 24) \<le> t \<and> t + h \<le> 2 ^ 24))"

definition full_frame :: "int \<Rightarrow> int \<Rightarrow> Layer \<Rightarrow> bool" where
  "full_frame w h layer = (l_format layer \<noteq> kFormatInvalid \<and> composition layer = kCompositionGPUTarget \<and>
     whole_rect w h (src_rect layer) \<and> whole_rect w h (dst_rect layer))"

text \<open>The region needs no scaling and fits a pipe.\<close>

definition fits :: "HWResourceInfo \<Rightarrow> int \<Rightarrow> HWPipeInfo \<Rightarrow> bool" where
  "fits hw h p = (\<exists>w. whole_rect w h (src_roi p) \<and> whole_rect w h (dst_roi p) \<and> w \<le> uint (max_pipe_width hw))"

text \<open>The pipes a block can get: its own, and those nobody holds.\<close>

definition spare :: "HWBlockType \<Rightarrow> ResourceDefault \<Rightarrow> nat" where
  "spare b rd = length (filter (\<lambda>p. p_owner p = kPipeOwnerUserMode \<and> p_block p \<in> {b, kHWBlockMax}) (src_pipes rd))"

text \<open>An example: one video pipe, two RGB pipes, two DMA pipes, and a frame wider than a pipe.\<close>

definition fp0 :: fp_env where
  "fp0 = \<lparr>oor_u32 = (\<lambda>_. 0), oor_int = (\<lambda>_. 0), oor_u8 = (\<lambda>_. 0), log2f = (\<lambda>x. x)\<rparr>"

definition hw0 :: HWResourceInfo where
  "hw0 = \<lparr>num_dma_pipe = 2, num_vig_pipe = 1, num_rgb_pipe = 2, max_scale_up = 20, max_scale_down = 4,
     max_pipe_width = 1024, has_decimation = False, has_non_scalar_rgb = False, is_src_split = True,
     has_dyn_bw_support = False, separate_rotator = False, num_blending_stages = 8,
     hw_pipes = [\<lparr>cap_type = kPipeTypeVIG, cap_id = 1\<rparr>, \<lparr>cap_type = kPipeTypeRGB, cap_id = 8\<rparr>,
       \<lparr>cap_type = kPipeTypeRGB, cap_id = 16\<rparr>, \<lparr>cap_type = kPipeTypeDMA, cap_id = 64\<rparr>,
       \<lparr>cap_type = kPipeTypeDMA, cap_id = 128\<rparr>]\<rparr>"

definition layer0 :: Layer where
  "layer0 = \<lparr>l_format = kFormatRGBA8888, l_secure = False, composition = kCompositionGPUTarget,
     src_rect = irect 0 0 1080 1920, dst_rect = irect 0 0 1080 1920, l_skip = False, l_cursor = False,
     request_flags = 0, l_transform = \<lparr>rotation = Fin 0, flip_horizontal = False, flip_vertical = False\<rparr>,
     l_s3d_format = kS3dFormatNone\<rparr>"

definition mixer0 :: HWMixerAttributes where
  "mixer0 = \<lparr>mix_width = 1080, mix_height = 1920, split_left = 1080,
     output_format = kFormatRGB101010\<rparr>"

definition config0 :: HWLayerConfig where
  "config0 = \<lparr>left_pipe = pipe_info0, right_pipe = pipe_info0\<rparr>"

definition attr0 :: HWDisplayAttributes where
  "attr0 = \<lparr>x_pixels = 1080, y_pixels = 1920, x_dpi = Fin 424, y_dpi = Fin 424, fps = 60,
     vsync_period_ns = 16666666, is_yuv = False, is_device_split = False, v_front_porch = 4, v_back_porch = 6,
     v_pulse_width = 2, h_total = 1200, v_total = 1932, s3d_config = 1\<rparr>"

definition ctx0 :: DisplayResourceContext where
  "ctx0 = \<lparr>ctx_attributes = attr0, ctx_block = kHWPrimary, frame_count = 0, ctx_mixer = mixer0\<rparr>"

definition unordered_hw :: HWResourceInfo where
  "unordered_hw = hw0\<lparr>hw_pipes := drop 3 (hw_pipes hw0) @ take 3 (hw_pipes hw0)\<rparr>"

definition rd0 :: ResourceDefault where
  "rd0 = \<lparr>hw_res_info = fix_scaling hw0, hw_block_ctx = (\<lambda>_. False),
     src_pipes = map (init_pipe hw0) [0..<hw_total hw0], num_pipe = total_pipes hw0\<rparr>"

definition sys0 :: res_system where
  "sys0 = \<lparr>sys_rd = rd0\<lparr>hw_block_ctx := (\<lambda>b. b = kHWPrimary)\<rparr>, sys_ctx = (\<lambda>t. if t = kPrimary then Some ctx0 else None)\<rparr>"

definition swap_config :: HWLayerConfig where
  "swap_config = \<lparr>left_pipe = pipe_info0\<lparr>src_roi := irect 0 0 10 10, dst_roi := irect 0 0 10 10, valid := True\<rparr>,
     right_pipe = pipe_info0\<lparr>src_roi := irect 10 0 20 10, dst_roi := irect 10 0 30 10, valid := True\<rparr>\<rparr>"

subsection \<open>Initialisation\<close>

lemma ordered_hw_type:
  "ordered_hw hw \<Longrightarrow> i < hw_total hw \<Longrightarrow> i < length (hw_pipes hw) \<and> cap_type (hw_pipes hw ! i) = type_at hw i"
  by (auto simp: ordered_hw_def list_all_iff)

lemma unat_of_nat_32: "i < 2 ^ 32 \<Longrightarrow> unat (of_nat i :: u32) = i"
  by (simp add: unsigned_of_nat take_bit_nat_eq_self)

lemma set_pipe_append:
  "length xs = i \<Longrightarrow> i < 2 ^ 32 \<Longrightarrow> set_pipe (xs @ p # ys) (of_nat i) f = Inr (xs @ f p # ys)"
  by (auto simp: set_pipe_def unat_of_nat_32 list_update_append nth_append)

lemma place_pipes_ordered:
  assumes hw: "ordered_hw hw" and "i + n = hw_total hw"
    and "v = unat (num_vig_pipe hw)" "r = unat (num_rgb_pipe hw)"
  shows "place_pipes (hw_pipes hw) i n
           (of_nat (min i v), of_nat (v + (min i (v + r) - v)), of_nat (v + r + (i - (v + r))))
           (map (placed hw) [0..<i] @ replicate n SourcePipe_new)
         = Inr (map (placed hw) [0..<hw_total hw])"
  using assms(2)
proof (induction n arbitrary: i)
  case (Suc n)
  have i: "i < hw_total hw" "i < 2 ^ 32"
    using Suc.prems hw by (auto simp: ordered_hw_def)
  have put: "SourcePipe_new\<lparr>p_type := type_at hw i, p_index := of_nat i, p_id := cap_id (hw_pipes hw ! i)\<rparr> = placed hw i"
    by (simp add: SourcePipe_new_def placed_def)
  have cap: "i < length (hw_pipes hw)" "cap_type (hw_pipes hw ! i) = type_at hw i"
    using ordered_hw_type [OF hw i(1)] by simp_all
  let ?put = "\<lambda>p. p\<lparr>p_type := cap_type (hw_pipes hw ! i), p_index := of_nat i, p_id := cap_id (hw_pipes hw ! i)\<rparr>"
  have set: "set_pipe (map (placed hw) [0..<i] @ replicate (Suc n) SourcePipe_new) (of_nat i) ?put
      = Inr (map (placed hw) [0..<Suc i] @ replicate n SourcePipe_new)"
    using set_pipe_append [of "map (placed hw) [0..<i]" i SourcePipe_new "replicate n SourcePipe_new" ?put]
      i put cap(2) by simp
  have IH: "place_pipes (hw_pipes hw) (Suc i) n
           (of_nat (min (Suc i) v), of_nat (v + (min (Suc i) (v + r) - v)), of_nat (v + r + (Suc i - (v + r))))
           (map (placed hw) [0..<Suc i] @ replicate n SourcePipe_new)
         = Inr (map (placed hw) [0..<hw_total hw])"
    using Suc.prems by (intro Suc.IH) simp
  consider (vig) "i < v" | (rgb) "v \<le> i" "i < v + r" | (dma) "v + r \<le> i" by linarith
  then show ?case
  proof cases
    case vig
    then have "type_at hw i = kPipeTypeVIG" "min i v = i" "min (Suc i) v = Suc i"
      "min i (v + r) - v = 0" "min (Suc i) (v + r) - v = 0" "i - (v + r) = 0" "Suc i - (v + r) = 0"
      by (simp_all add: type_at_def assms(3))
    then show ?thesis
      using IH set cap by (simp add: Let_def add.commute del: replicate.simps upt_Suc)
  next
    case rgb
    then have "type_at hw i = kPipeTypeRGB" "min i v = v" "min (Suc i) v = v"
      "v + (min i (v + r) - v) = i" "v + (min (Suc i) (v + r) - v) = Suc i"
      "i - (v + r) = 0" "Suc i - (v + r) = 0"
      by (simp_all add: type_at_def assms(3,4))
    then show ?thesis
      using IH set cap by (simp add: Let_def add.commute del: replicate.simps upt_Suc of_nat_add)
  next
    case dma
    then have "type_at hw i = kPipeTypeDMA" "min i v = v" "min (Suc i) v = v"
      "min i (v + r) = v + r" "min (Suc i) (v + r) = v + r"
      "v + r + (i - (v + r)) = i" "v + r + (Suc i - (v + r)) = Suc i"
      by (simp_all add: type_at_def assms(3,4))
    then show ?thesis
      using IH set cap by (simp add: Let_def add.commute del: replicate.simps upt_Suc of_nat_add)
  qed
qed simp

lemma unat_total_pipes: "hw_total hw < 2 ^ 32 \<Longrightarrow> unat (total_pipes hw) = hw_total hw"
  by (simp add: total_pipes_def hw_total_def unat_word_ariths)

lemma set_priorities_map:
  "set_priorities (map f [0..<n]) = map (\<lambda>i. (f i)\<lparr>p_priority := int i\<rparr>) [0..<n]"
  by (rule nth_equalityI) (simp_all add: set_priorities_def nth_enumerate_eq)

lemma set_pipe_map:
  "unat k < n \<Longrightarrow> set_pipe (map g [0..<n]) k f
     = Inr (map (\<lambda>i. if i = unat k then f (g i) else g i) [0..<n])"
  unfolding set_pipe_def by (auto intro!: nth_equalityI simp: nth_list_update)

lemma Resource_Init_ordered:
  assumes hw: "ordered_hw hw"
  shows "Resource_Init (ResourceDefault_new hw) = Inr (kErrorNone,
    \<lparr>hw_res_info = fix_scaling hw, hw_block_ctx = (\<lambda>_. False),
     src_pipes = map (init_pipe hw) [0..<hw_total hw], num_pipe = total_pipes hw\<rparr>)"
proof -
  define v r where "v = unat (num_vig_pipe hw)" and "r = unat (num_rgb_pipe hw)"
  have t: "hw_total hw < 2 ^ 32" and v2: "v + 2 \<le> hw_total hw"
    using hw by (simp_all add: ordered_hw_def v_def)
  have n: "unat (total_pipes hw) = hw_total hw" by (rule unat_total_pipes [OF t])
  with v2 have nz: "total_pipes hw \<noteq> 0" by auto
  have v1: "unat (num_vig_pipe hw + 1) = v + 1"
    using t v2 by (simp add: unat_word_ariths v_def)
  have "place_pipes (hw_pipes hw) 0 (hw_total hw) (0, of_nat v, of_nat v + of_nat r)
      (replicate (hw_total hw) SourcePipe_new) = Inr (map (placed hw) [0..<hw_total hw])"
    using place_pipes_ordered [OF hw, of 0 "hw_total hw", OF _ v_def r_def] by simp
  then have p: "place_pipes (hw_pipes hw) 0 (hw_total hw) (0, num_vig_pipe hw, num_vig_pipe hw + num_rgb_pipe hw)
      (replicate (hw_total hw) SourcePipe_new) = Inr (map (placed hw) [0..<hw_total hw])"
    by (simp add: v_def r_def)
  have k: "unat (num_vig_pipe hw) < hw_total hw" "unat (num_vig_pipe hw + 1) < hw_total hw"
    using v2 by (simp_all add: v1) (simp add: v_def)
  show ?thesis
    unfolding Resource_Init_def Let_def ResourceDefault_new_def
    using nz p n k
    by (simp add: set_priorities_map set_pipe_map v1)
      (auto simp: init_pipe_def boot_pipe_def placed_def v_def)
qed

lemma res_inv_start:
  assumes hw: "ordered_hw hw" and init: "Resource_Init (ResourceDefault_new hw) = Inr (e, rd)"
  shows "res_inv hw (res_start rd)"
  using init unat_total_pipes [of hw] hw
  by (auto simp: Resource_Init_ordered [OF hw] res_inv_def pipes_inv_def pipe_inv_def res_start_def
      init_pipe_def placed_def ordered_hw_def split: if_splits)

subsection \<open>Choosing a pipe\<close>

lemma fix_scaling_sel [simp]:
  "num_vig_pipe (fix_scaling hw) = num_vig_pipe hw" "num_rgb_pipe (fix_scaling hw) = num_rgb_pipe hw"
  "num_dma_pipe (fix_scaling hw) = num_dma_pipe hw"
  "has_non_scalar_rgb (fix_scaling hw) = has_non_scalar_rgb hw"
  by (simp_all add: fix_scaling_def)

lemma find_append: "find P (xs @ ys) = (case find P xs of None \<Rightarrow> find P ys | Some x \<Rightarrow> Some x)"
  by (induction xs) auto

lemma search_from_find:
  "off + n \<le> length ps \<Longrightarrow>
   search_from ps off n = Inr (find (\<lambda>i. available (ps ! i)) [off..<off + n])"
  by (induction n arbitrary: off) (simp_all add: upt_conv_Cons del: upt_Suc)

lemma find_upt_bounds: "find P [a..<b] = Some i \<Longrightarrow> a \<le> i \<and> i < b \<and> P i"
  by (auto simp: find_Some_iff)

lemma SearchPipe_find:
  assumes "pipes_inv hw rd" "unat off + unat n \<le> hw_total hw"
  shows "SearchPipe b off n rd =
    Inr (pick b rd (find (\<lambda>i. available (src_pipes rd ! i)) [unat off..<unat off + unat n]))"
  using assms
  by (auto simp: SearchPipe_def search_from_find pipes_inv_def pipe_inv_def pick_def take_pipe_def Let_def
      split: option.splits dest!: find_upt_bounds)

lemma NextPipe_find:
  assumes "pipes_inv hw rd"
  shows "NextPipe kPipeTypeVIG b rd = Inr (pick b rd (find (\<lambda>i. available (src_pipes rd ! i)) [0..<unat (num_vig_pipe hw)]))"
    and "NextPipe kPipeTypeRGB b rd = Inr (pick b rd (find (\<lambda>i. available (src_pipes rd ! i))
      [unat (num_vig_pipe hw)..<unat (num_vig_pipe hw) + unat (num_rgb_pipe hw)]))"
    and "NextPipe kPipeTypeDMA b rd = Inr (pick b rd (find (\<lambda>i. available (src_pipes rd ! i))
      [unat (num_vig_pipe hw) + unat (num_rgb_pipe hw)..<hw_total hw]))"
proof -
  have hw: "hw_res_info rd = fix_scaling hw" and t: "hw_total hw < 2 ^ 32"
    using assms by (simp_all add: pipes_inv_def)
  have u: "unat (num_vig_pipe hw + num_rgb_pipe hw) = unat (num_vig_pipe hw) + unat (num_rgb_pipe hw)"
    using t by (simp add: unat_word_ariths hw_total_def)
  show "NextPipe kPipeTypeVIG b rd = Inr (pick b rd (find (\<lambda>i. available (src_pipes rd ! i)) [0..<unat (num_vig_pipe hw)]))"
    using SearchPipe_find [OF assms, of 0] by (simp add: NextPipe_def hw hw_total_def)
  show "NextPipe kPipeTypeRGB b rd = Inr (pick b rd (find (\<lambda>i. available (src_pipes rd ! i))
      [unat (num_vig_pipe hw)..<unat (num_vig_pipe hw) + unat (num_rgb_pipe hw)]))"
    using SearchPipe_find [OF assms, of "num_vig_pipe hw"] by (simp add: NextPipe_def hw hw_total_def)
  show "NextPipe kPipeTypeDMA b rd = Inr (pick b rd (find (\<lambda>i. available (src_pipes rd ! i))
      [unat (num_vig_pipe hw) + unat (num_rgb_pipe hw)..<hw_total hw]))"
    using SearchPipe_find [OF assms, of "num_vig_pipe hw + num_rgb_pipe hw"]
    by (simp add: NextPipe_def hw hw_total_def u)
qed

lemma pick_simps [simp]:
  "pick b rd None = (num_pipe rd, rd)" "pick b rd (Some i) = (of_nat i, take_pipe b i rd)"
  by (simp_all add: pick_def)

lemma take_pipe_sel [simp]:
  "num_pipe (take_pipe b i rd) = num_pipe rd" "hw_res_info (take_pipe b i rd) = hw_res_info rd"
  "hw_block_ctx (take_pipe b i rd) = hw_block_ctx rd"
  by (simp_all add: take_pipe_def)

lemma index_below: "pipes_inv hw rd \<Longrightarrow> i < hw_total hw \<Longrightarrow> of_nat i < num_pipe rd"
  by (simp add: pipes_inv_def word_less_nat_alt unat_of_nat_32)

lemma GetPipe_find:
  assumes "pipes_inv hw rd"
  shows "GetPipe b need_scale rd =
    Inr (pick b rd (find (\<lambda>i. available (src_pipes rd ! i)) (pipe_order hw need_scale)))"
proof -
  let ?v = "unat (num_vig_pipe hw)" and ?r = "unat (num_rgb_pipe hw)"
  let ?find = "find (\<lambda>i. available (src_pipes rd ! i))"
  have hw: "hw_res_info rd = fix_scaling hw" using assms by (simp add: pipes_inv_def)
  have b1: "?find [?v + ?r..<hw_total hw] = Some i \<Longrightarrow> \<not> num_pipe rd \<le> of_nat i" for i
    by (drule find_upt_bounds) (simp add: index_below [OF assms] not_le)
  have b2: "?find [?v..<?v + ?r] = Some i \<Longrightarrow> \<not> num_pipe rd \<le> of_nat i" for i
    by (drule find_upt_bounds) (simp add: index_below [OF assms] hw_total_def not_le)
  show ?thesis
    unfolding GetPipe_def pipe_order_def Let_def
    by (cases need_scale; cases "has_non_scalar_rgb hw"; cases "?find [?v + ?r..<hw_total hw]";
        cases "?find [?v..<?v + ?r]")
      (simp_all add: NextPipe_find [OF assms] hw find_append b1 b2)
qed

lemma frame_ok_trans: "frame_ok hw b rd rd1 \<Longrightarrow> frame_ok hw b rd1 rd2 \<Longrightarrow> frame_ok hw b rd rd2"
  unfolding frame_ok_def by metis

lemma frame_ok_refl: "pipes_inv hw rd \<Longrightarrow> frame_ok hw b rd rd"
  by (simp add: frame_ok_def)

lemma reset_pipes_ok:
  assumes "pipes_inv hw rd"
  shows "frame_ok hw b rd (rd\<lparr>src_pipes := reset_pipes b (src_pipes rd)\<rparr>)"
  using assms by (auto simp: frame_ok_def pipes_inv_def pipe_inv_def reset_pipes_def ResetState_def)

lemma take_pipe_ok:
  assumes "pipes_inv hw rd" "i < hw_total hw" "available (src_pipes rd ! i)" "hw_block_ctx rd b"
  shows "frame_ok hw b rd (take_pipe b i rd)"
proof -
  have "pipe_inv hw (hw_block_ctx rd) i (src_pipes rd ! i)"
    using assms(1,2) by (simp add: pipes_inv_def)
  with assms show ?thesis
    by (auto simp: frame_ok_def pipes_inv_def pipe_inv_def take_pipe_def available_def nth_list_update)
qed

lemma find_pipe_order:
  assumes "find P (pipe_order hw need_scale) = Some i"
  shows "i < hw_total hw \<and> P i \<and>
    (need_scale \<longrightarrow> type_at hw i = kPipeTypeVIG \<or> type_at hw i = kPipeTypeRGB \<and> \<not> has_non_scalar_rgb hw)"
proof -
  have "P i" "i \<in> set (pipe_order hw need_scale)"
    using assms by (auto simp: find_Some_iff)
  then show ?thesis
    by (auto simp: pipe_order_def Let_def hw_total_def type_at_def split: if_splits)
qed

text \<open>What \<open>GetPipe\<close> gives: nothing, or an available pipe, now reserved.\<close>

lemma GetPipe_cases:
  assumes inv: "pipes_inv hw rd" and b: "hw_block_ctx rd b" "b \<noteq> kHWBlockMax"
  obtains (none) "GetPipe b need rd = Inr (num_pipe rd, rd)"
  | (pipe) i where "GetPipe b need rd = Inr (of_nat i, take_pipe b i rd)" "of_nat i < num_pipe rd"
      "i < hw_total hw" "available (src_pipes rd ! i)" "frame_ok hw b rd (take_pipe b i rd)"
      "own_pipe b (take_pipe b i rd) (p\<lparr>pipe_id := p_id (src_pipes rd ! i)\<rparr>) i"
      "need \<longrightarrow> can_scale (take_pipe b i rd) i"
proof (cases "find (\<lambda>i. available (src_pipes rd ! i)) (pipe_order hw need)")
  case None
  then show ?thesis
    using none GetPipe_find [OF inv, of b need] by (simp add: pick_def)
next
  case (Some i)
  note f = find_pipe_order [OF Some]
  have l: "length (src_pipes rd) = hw_total hw" "hw_res_info rd = fix_scaling hw" "hw_total hw < 2 ^ 32"
      "unat (num_pipe rd) = hw_total hw" and pi: "pipe_inv hw (hw_block_ctx rd) i (src_pipes rd ! i)"
    using inv f by (simp_all add: pipes_inv_def)
  have "of_nat i < num_pipe rd"
    using f l by (simp add: word_less_nat_alt unat_of_nat_32)
  moreover have "GetPipe b need rd = Inr (of_nat i, take_pipe b i rd)"
    using GetPipe_find [OF inv, of b need] Some by (simp add: pick_def)
  ultimately show ?thesis
    using f l pi take_pipe_ok [OF inv _ _ b(1), of i]
    by (intro pipe) (auto simp: take_pipe_def own_pipe_def can_scale_def available_def pipe_inv_def)
qed

lemma get_src_pipe_of_nat:
  "pipes_inv hw rd \<Longrightarrow> i < hw_total hw \<Longrightarrow> get_src_pipe rd (of_nat i) = Inr (src_pipes rd ! i)"
  by (simp add: get_src_pipe_def pipes_inv_def unat_of_nat_32)

subsection \<open>Programming the pipes\<close>

lemma SetDecimationFactor_frame:
  "SetDecimationFactor fp hw p = (e, p') \<Longrightarrow>
   src_roi p' = src_roi p \<and> dst_roi p' = dst_roi p \<and> valid p' = valid p \<and> pipe_id p' = pipe_id p"
  by (auto simp: SetDecimationFactor_def Let_def split: prod.splits if_splits)

lemma IsScalingNeeded_cong:
  "src_roi p = src_roi q \<Longrightarrow> dst_roi p = dst_roi q \<Longrightarrow> IsScalingNeeded p = IsScalingNeeded q"
  by (simp add: IsScalingNeeded_def)

lemma prepare_right_ok:
  assumes inv: "pipes_inv hw rd" and b: "hw_block_ctx rd b" "b \<noteq> kHWBlockMax"
    and i: "chosen b rd i" "IsScalingNeeded (left_pipe c) \<longrightarrow> can_scale rd i"
    and v: "valid (right_pipe c)"
  shows "ensures (prepare_right fp b (of_nat i) c rd)
    (\<lambda>(e, c', rd'). frame_ok hw b rd rd' \<and> (e = kErrorNone \<longrightarrow> (\<exists>i j. programmed b rd' c' i j)))"
  using inv b
proof (cases rule: GetPipe_cases [where need = "IsScalingNeeded (right_pipe c)" and p = "right_pipe c"])
  case none
  then show ?thesis using inv by (simp add: prepare_right_def frame_ok_refl)
next
  case (pipe j)
  let ?rd = "take_pipe b j rd"
  have l: "length (src_pipes rd) = hw_total hw" using inv by (simp add: pipes_inv_def)
  have inv': "pipes_inv hw ?rd" using pipe(5) by (simp add: frame_ok_def)
  have ij: "i \<noteq> j" using i(1) pipe(4) b(2) by (auto simp: chosen_def available_def)
  have si: "src_pipes ?rd ! i = src_pipes rd ! i" and il: "i < hw_total hw"
    using ij i(1) l by (simp_all add: take_pipe_def chosen_def)
  have g: "get_src_pipe ?rd (of_nat i) = Inr (src_pipes rd ! i)"
    "get_src_pipe ?rd (of_nat j) = Inr (src_pipes ?rd ! j)"
    using get_src_pipe_of_nat [OF inv'] il pipe(3) si by simp_all
  define i' j' where "i' = (if p_priority (src_pipes ?rd ! j) < p_priority (src_pipes rd ! i) then j else i)"
    and "j' = (if p_priority (src_pipes ?rd ! j) < p_priority (src_pipes rd ! i) then i else j)"
  define lp rp where ij': "lp = src_pipes ?rd ! i'" "rp = src_pipes ?rd ! j'"
  have s: "(if p_priority (src_pipes ?rd ! j) < p_priority (src_pipes rd ! i)
      then (src_pipes ?rd ! j, src_pipes rd ! i) else (src_pipes rd ! i, src_pipes ?rd ! j)) = (lp, rp)"
    and ss: "i' = i \<and> j' = j \<or> i' = j \<and> j' = i"
    using si by (simp_all add: ij' i'_def j'_def)
  obtain e right where d: "SetDecimationFactor fp (hw_res_info ?rd) ((right_pipe c)\<lparr>pipe_id := p_id rp\<rparr>) = (e, right)"
    by fastforce
  note f = SetDecimationFactor_frame [OF d]
  have need: "IsScalingNeeded right = IsScalingNeeded (right_pipe c)"
    using f by (intro IsScalingNeeded_cong) simp_all
  have ch: "chosen b ?rd i" "chosen b ?rd j"
    using i(1) pipe(6) si by (auto simp: chosen_def own_pipe_def take_pipe_def)
  have sc: "IsScalingNeeded (left_pipe c) \<longrightarrow> can_scale ?rd i"
    using i(2) si by (simp add: can_scale_def)
  have "programmed b ?rd \<lparr>left_pipe = (left_pipe c)\<lparr>pipe_id := p_id lp\<rparr>, right_pipe = right\<rparr> i' j'"
    using f need ij' ss ij ch sc pipe(7) v
    by (auto simp: programmed_def own_pipe_def chosen_def IsScalingNeeded_def)
  then show ?thesis
    using pipe(1,2,5) g s d by (auto simp: prepare_right_def Let_def)
qed

lemma prepare_pipes_ok:
  assumes inv: "pipes_inv hw rd" and b: "hw_block_ctx rd b" "b \<noteq> kHWBlockMax"
    and v: "valid (left_pipe c)"
  shows "ensures (prepare_pipes fp b c rd)
    (\<lambda>(e, c', rd'). frame_ok hw b rd rd' \<and> (e = kErrorNone \<longrightarrow> (\<exists>i j. programmed b rd' c' i j)))"
  using inv b
proof (cases rule: GetPipe_cases [where need = "IsScalingNeeded (left_pipe c)" and p = "left_pipe c"])
  case none
  then show ?thesis using inv v by (simp add: prepare_pipes_def frame_ok_refl)
next
  case (pipe i)
  let ?rd = "take_pipe b i rd"
  have inv': "pipes_inv hw ?rd" using pipe(5) by (simp add: frame_ok_def)
  obtain e left where d: "SetDecimationFactor fp (hw_res_info ?rd) (left_pipe c) = (e, left)"
    by fastforce
  note f = SetDecimationFactor_frame [OF d]
  have need: "IsScalingNeeded left = IsScalingNeeded (left_pipe c)"
    using f by (intro IsScalingNeeded_cong) simp_all
  have ch: "chosen b ?rd i" using pipe(6) by (simp add: chosen_def own_pipe_def)
  have u: "prepare_pipes fp b c rd = (if e \<noteq> kErrorNone then Inr (kErrorResources, c\<lparr>left_pipe := left\<rparr>, ?rd)
      else if \<not> valid (right_pipe c)
      then Inr (kErrorNone, c\<lparr>left_pipe := left\<lparr>pipe_id := p_id (src_pipes ?rd ! i)\<rparr>\<rparr>, ?rd)
      else prepare_right fp b (of_nat i) (c\<lparr>left_pipe := left\<rparr>) ?rd)"
    using pipe(1,2) not_le [THEN iffD2, OF pipe(2)] v d get_src_pipe_of_nat [OF inv' pipe(3)]
    by (simp add: prepare_pipes_def Let_def)
  show ?thesis
  proof (cases "e = kErrorNone \<and> valid (right_pipe c)")
    case True
    have "ensures (prepare_right fp b (of_nat i) (c\<lparr>left_pipe := left\<rparr>) ?rd)
      (\<lambda>(e, c', rd'). frame_ok hw b ?rd rd' \<and> (e = kErrorNone \<longrightarrow> (\<exists>i j. programmed b rd' c' i j)))"
      using b ch need pipe(7) True by (intro prepare_right_ok [OF inv']) simp_all
    then show ?thesis
      unfolding u using True pipe(5) by (auto elim!: ensures_mono intro: frame_ok_trans)
  next
    case False
    then show ?thesis
      unfolding u using pipe(5,7) ch need
      by (auto simp: programmed_def own_pipe_def chosen_def IsScalingNeeded_def)
  qed
qed

lemma Config_left_valid: "Config fp hw mixer layer c = (kErrorNone, c') \<Longrightarrow> valid (left_pipe c')"
  by (auto simp: Config_def AlignPipeConfig_def Let_def split: if_splits prod.splits)

lemma Resource_Prepare_ok:
  assumes inv: "pipes_inv hw rd" and b: "hw_block_ctx rd (ctx_block ctx)" "ctx_block ctx \<noteq> kHWBlockMax"
    and ls: "ls \<noteq> []"
  shows "ensures (Resource_Prepare fp ctx ls c rd)
    (\<lambda>(e, c', rd'). frame_ok hw (ctx_block ctx) rd rd' \<and>
       (e = kErrorNone \<longrightarrow> (\<exists>i j. programmed (ctx_block ctx) rd' c' i j)))"
proof -
  obtain layer rest where l: "ls = layer # rest" using ls by (cases ls) auto
  obtain e c1 where c: "Config fp (hw_res_info rd) (ctx_mixer ctx) layer c = (e, c1)" by fastforce
  let ?rd = "rd\<lparr>src_pipes := reset_pipes (ctx_block ctx) (src_pipes rd)\<rparr>"
  have fr: "frame_ok hw (ctx_block ctx) rd ?rd" by (rule reset_pipes_ok [OF inv])
  show ?thesis
  proof (cases "length ls \<le> 1 \<and> composition layer = kCompositionGPUTarget \<and> e = kErrorNone")
    case True
    then have u: "Resource_Prepare fp ctx ls c rd = prepare_pipes fp (ctx_block ctx) c1 ?rd"
      by (simp add: Resource_Prepare_def l c)
    have "ensures (prepare_pipes fp (ctx_block ctx) c1 ?rd)
      (\<lambda>(e, c', rd'). frame_ok hw (ctx_block ctx) ?rd rd' \<and>
         (e = kErrorNone \<longrightarrow> (\<exists>i j. programmed (ctx_block ctx) rd' c' i j)))"
      using fr b Config_left_valid c True by (intro prepare_pipes_ok) (auto simp: frame_ok_def)
    then show ?thesis
      unfolding u using fr by (auto elim!: ensures_mono intro: frame_ok_trans)
  next
    case False
    then show ?thesis
      using frame_ok_refl [OF inv] by (auto simp: Resource_Prepare_def l c)
  qed
qed

subsection \<open>The invariant\<close>

lemma block_of_inj: "block_of t = Some b \<Longrightarrow> block_of t' = Some b \<Longrightarrow> t = t'"
  by (auto simp: block_of_def split: DisplayType.splits)

lemma block_of_valid: "block_of t = Some b \<Longrightarrow> b \<noteq> kHWBlockMax"
  by (auto simp: block_of_def split: DisplayType.splits)

lemma res_inv_ctx:
  assumes "res_inv hw s" "sys_ctx s t = Some ctx"
  shows "hw_block_ctx (sys_rd s) (ctx_block ctx)" "ctx_block ctx \<noteq> kHWBlockMax" "pipes_inv hw (sys_rd s)"
  using assms by (auto simp: res_inv_def dest: block_of_valid)

lemma upd_blocks:
  assumes "m t = Some ctx" "ctx_block ctx' = ctx_block ctx"
  shows "(\<exists>t' c. (m(t := Some ctx')) t' = Some c \<and> ctx_block c = b) \<longleftrightarrow>
         (\<exists>t' c. m t' = Some c \<and> ctx_block c = b)"
proof
  assume "\<exists>t' c. (m(t := Some ctx')) t' = Some c \<and> ctx_block c = b"
  then obtain t' c where "(m(t := Some ctx')) t' = Some c" "ctx_block c = b" by blast
  then show "\<exists>t' c. m t' = Some c \<and> ctx_block c = b"
    using assms by (cases "t' = t") auto
next
  assume "\<exists>t' c. m t' = Some c \<and> ctx_block c = b"
  then obtain t' c where c: "m t' = Some c" "ctx_block c = b" by blast
  show "\<exists>t' c. (m(t := Some ctx')) t' = Some c \<and> ctx_block c = b"
    using c assms by (cases "t' = t") (auto intro: exI [of _ t] exI [of _ t'])
qed

lemma res_inv_frame:
  assumes "res_inv hw s" "sys_ctx s t = Some ctx" "frame_ok hw b (sys_rd s) rd" "ctx_block ctx' = ctx_block ctx"
  shows "res_inv hw \<lparr>sys_rd = rd, sys_ctx = (sys_ctx s)(t := Some ctx')\<rparr>"
  using assms upd_blocks [where m = "sys_ctx s" and t = t and ctx = ctx, OF assms(2,4)] unfolding res_inv_def frame_ok_def by simp

lemma Register_inv:
  assumes inv: "res_inv hw s" and reg: "Resource_RegisterDisplay t a m (sys_rd s) = (e, Some ctx, rd)"
  shows "res_inv hw \<lparr>sys_rd = rd, sys_ctx = (sys_ctx s)(t := Some ctx)\<rparr>"
proof -
  obtain b where b: "block_of t = Some b" "\<not> hw_block_ctx (sys_rd s) b" "ctx_block ctx = b"
      "rd = (sys_rd s)\<lparr>hw_block_ctx := (hw_block_ctx (sys_rd s))(b := True)\<rparr>"
    using reg by (auto simp: Resource_RegisterDisplay_def split: option.splits if_splits)
  have none: "sys_ctx s t = None"
    using inv b(1,2) unfolding res_inv_def by (metis option.exhaust option.inject)
  have "pipes_inv hw rd"
    using inv b(4) by (auto simp: res_inv_def pipes_inv_def pipe_inv_def)
  moreover have "hw_block_ctx rd b' \<longleftrightarrow>
      (\<exists>t' c. ((sys_ctx s)(t := Some ctx)) t' = Some c \<and> ctx_block c = b')" for b'
  proof (cases "b' = b")
    case True
    then show ?thesis using b by auto
  next
    case False
    have "(\<exists>t' c. ((sys_ctx s)(t := Some ctx)) t' = Some c \<and> ctx_block c = b') \<longleftrightarrow>
        (\<exists>t' c. sys_ctx s t' = Some c \<and> ctx_block c = b')"
      using False b(3) none by (metis fun_upd_other fun_upd_same option.distinct(1) option.inject)
    then show ?thesis using inv False b(4) by (simp add: res_inv_def)
  qed
  ultimately show ?thesis
    using inv b(1,3) unfolding res_inv_def by simp
qed

lemma Unregister_inv:
  assumes inv: "res_inv hw s" and t: "sys_ctx s t = Some ctx"
    and un: "Resource_UnregisterDisplay ctx (sys_rd s) = (e, rd)"
  shows "res_inv hw \<lparr>sys_rd = rd, sys_ctx = (sys_ctx s)(t := None)\<rparr>"
proof -
  let ?b = "ctx_block ctx"
  have b: "block_of t = Some ?b" using inv t by (simp add: res_inv_def)
  have rd: "rd = (sys_rd s)\<lparr>src_pipes := reset_pipes ?b (src_pipes (sys_rd s)),
      hw_block_ctx := (hw_block_ctx (sys_rd s))(?b := False)\<rparr>"
    using un by (simp add: Resource_UnregisterDisplay_def Resource_Purge_def Let_def)
  have "pipes_inv hw rd"
    using inv block_of_valid [OF b]
    by (auto simp: rd res_inv_def pipes_inv_def pipe_inv_def reset_pipes_def ResetState_def)
      (metis PipeOwner.exhaust)+
  moreover have "hw_block_ctx rd b' \<longleftrightarrow>
      (\<exists>t' c. ((sys_ctx s)(t := None)) t' = Some c \<and> ctx_block c = b')" for b'
  proof (cases "b' = ?b")
    case True
    have "sys_ctx s t' = Some c \<Longrightarrow> ctx_block c = ?b \<Longrightarrow> t' = t" for t' c
      using inv b block_of_inj unfolding res_inv_def by metis
    then show ?thesis using True by (auto simp: rd split: if_splits)
  next
    case False
    then have "(\<exists>t' c. ((sys_ctx s)(t := None)) t' = Some c \<and> ctx_block c = b') \<longleftrightarrow>
        (\<exists>t' c. sys_ctx s t' = Some c \<and> ctx_block c = b')"
      using t by (metis fun_upd_other fun_upd_same option.distinct(1) option.inject)
    then show ?thesis using inv False by (simp add: res_inv_def rd)
  qed
  ultimately show ?thesis
    using inv unfolding res_inv_def by simp
qed

text \<open>No kernel pipe carries the block of a display, so the hand-over changes nothing.\<close>

lemma PostCommit_pipes:
  assumes inv: "pipes_inv hw rd" and b: "ctx_block ctx \<noteq> kHWBlockMax"
    and pc: "Resource_PostCommit ctx fence rd = (e, cl, ctx', rd')"
  shows "rd' = rd \<and> ctx_block ctx' = ctx_block ctx"
proof -
  have "\<not> (p_block p = ctx_block ctx \<and> p_owner p = kPipeOwnerKernelMode)" if "p \<in> set (src_pipes rd)" for p
    using that inv b by (auto simp: pipes_inv_def pipe_inv_def in_set_conv_nth)
  then have "map (\<lambda>p. if p_block p = ctx_block ctx \<and> p_owner p = kPipeOwnerKernelMode
      then p\<lparr>p_owner := kPipeOwnerUserMode\<rparr> else p) (src_pipes rd) = src_pipes rd"
    by (intro map_idI) auto
  then show ?thesis using pc by (auto simp: Resource_PostCommit_def Let_def)
qed

lemma res_on_ok:
  assumes inv: "res_inv hw s" and t: "sys_ctx s t = Some ctx" and ok: "client_ok (On t op) s"
  shows "ensures (res_on fp op ctx (sys_rd s))
    (\<lambda>(e, ctx', rd). res_inv hw \<lparr>sys_rd = rd, sys_ctx = (sys_ctx s)(t := ctx')\<rparr>)"
proof (cases op)
  case Unregister
  then show ?thesis using Unregister_inv [OF inv t] by (simp split: prod.split)
next
  case (Reconfigure a m)
  then show ?thesis
    using res_inv_frame [OF inv t frame_ok_refl [OF res_inv_ctx(3) [OF inv t]]]
    by (simp add: Resource_ReconfigureDisplay_def)
next
  case (PrepareFrame ls c)
  have "ensures (Resource_Prepare fp ctx ls c (sys_rd s))
    (\<lambda>(e, c', rd'). frame_ok hw (ctx_block ctx) (sys_rd s) rd')"
    by (rule ensures_mono, rule Resource_Prepare_ok [where hw = hw])
      (use res_inv_ctx [OF inv t] ok PrepareFrame in auto)
  then show ?thesis
    unfolding PrepareFrame using res_inv_frame [OF inv t]
    by (auto simp: ensures_iff)
next
  case (PostCommitFrame fence)
  obtain e cl ctx' rd where pc: "Resource_PostCommit ctx fence (sys_rd s) = (e, cl, ctx', rd)"
    by (cases "Resource_PostCommit ctx fence (sys_rd s)")
  then show ?thesis
    using PostCommit_pipes [OF res_inv_ctx(3,2) [OF inv t] pc] PostCommitFrame
      res_inv_frame [OF inv t frame_ok_refl [OF res_inv_ctx(3) [OF inv t]], of ctx']
    by simp
next
  case PurgeDisplay
  then show ?thesis
    using res_inv_frame [OF inv t reset_pipes_ok [OF res_inv_ctx(3) [OF inv t]]]
    by (simp add: Resource_Purge_def)
qed

lemma res_exec_ok:
  assumes inv: "res_inv hw s" and ok: "client_ok op s"
  shows "ensures (res_exec fp op s) (\<lambda>(e, s'). res_inv hw s')"
proof (cases op)
  case (Register t a m)
  obtain e ctx rd where r: "Resource_RegisterDisplay t a m (sys_rd s) = (e, ctx, rd)"
    by (cases "Resource_RegisterDisplay t a m (sys_rd s)")
  show ?thesis
  proof (cases ctx)
    case None
    then have "rd = sys_rd s"
      using r by (auto simp: Resource_RegisterDisplay_def split: option.splits if_splits)
    then show ?thesis using inv r None Register by (simp add: res_inv_def)
  next
    case (Some c)
    then show ?thesis using Register_inv [OF inv] r Register by simp
  qed
next
  case (On t op')
  then obtain ctx where t: "sys_ctx s t = Some ctx" using ok by (cases op') auto
  show ?thesis
    using res_on_ok [OF inv t, of op' fp] ok On t by (auto simp: ensures_iff)
qed

interpretation res: step_system "res_step fp" "\<lambda>_. True" "res_inv hw" for fp hw
proof
  fix op s t
  assume "res_step fp op s t" "res_inv hw s"
  then show "res_inv hw t"
    using res_exec_ok [of hw s op fp] by (auto simp: res_step_def ensures_iff)
qed

lemma reachable_inv:
  assumes "ordered_hw hw" "Resource_Init (ResourceDefault_new hw) = Inr (e, rd)"
    and "run (res_step fp) (res_start rd) ops s"
  shows "res_inv hw s"
  using res.inv_run [OF assms(3) _ res_inv_start [OF assms(1,2)]] by (simp add: list_all_iff)

subsection \<open>Layers that need no scaling\<close>

lemma roundf_int [simp]: "roundf (fint n) = fint n"
proof -
  have "\<lfloor>\<bar>of_int n :: rat\<bar> + 1 / 2\<rfloor> = \<bar>n\<bar>"
    by (rule floor_unique) simp_all
  then show ?thesis
    by (simp add: fint_def sgn_if abs_if)
qed

lemma fint_0: "fint 0 = Fin 0"
  by (simp add: fint_def)

lemma whole_int [simp]: "whole (fint n)"
  by (simp add: whole_def fsub_int fint_0 [symmetric])

lemma scale_one: "w \<noteq> 0 \<Longrightarrow> fdiv (fint w) (fint w) = fint 1"
  using fdiv_int [of w 1] by simp

lemma UINT32_0: "UINT32 fp (fint 0) = 0" and UINT32_1: "UINT32 fp (fint 1) = 1"
  by (simp_all add: UINT32_int)

lemma whole_rectI:
  assumes "0 < w" "w \<le> 2 ^ 12" "0 < h" "h \<le> 2 ^ 12" "- (2 ^ 24) \<le> l" "l + w \<le> 2 ^ 24"
    "- (2 ^ 24) \<le> t" "t + h \<le> 2 ^ 24" "r = l + w" "b = t + h"
  shows "whole_rect w h (irect l t r b)"
  using assms unfolding whole_rect_def by blast

lemma whole_rect_size:
  "whole_rect w h r \<Longrightarrow> rect_width r = fint w \<and> rect_height r = fint h \<and> IsValid r \<and>
     whole (r_left r) \<and> whole (r_top r) \<and> whole (r_right r) \<and> whole (r_bottom r) \<and> 0 < w \<and> 0 < h"
  by (auto simp: whole_rect_def rect_width_def rect_height_def fsub_int)

lemma valid_dims: "whole_rect w h src \<Longrightarrow> whole_rect w h dst \<Longrightarrow> ValidateDimensions fp src dst = kErrorNone"
  by (simp add: ValidateDimensions_def whole_rect_size fsub_int UINT32_0)

lemma valid_scaling:
  assumes "whole_rect w h src" "whole_rect w h dst"
  shows "ValidateScaling fp hw src dst layout = kErrorNone"
  using assms [THEN whole_rect_size] by (simp add: ValidateScaling_def GetScaleFactor_def scale_one Let_def
      ValidateDownScaling_def ValidateUpScaling_def over_up_def UINT32_1)

lemma valid_pipe:
  "whole_rect w h (src_roi p) \<Longrightarrow> whole_rect w h (dst_roi p) \<Longrightarrow> ValidatePipeParams fp hw p f = kErrorNone"
  by (simp add: ValidatePipeParams_def valid_dims valid_scaling)

lemma not_scaled: "whole_rect w h (src_roi p) \<Longrightarrow> whole_rect w h (dst_roi p) \<Longrightarrow> \<not> IsScalingNeeded p"
  using whole_rect_size [of w h "src_roi p"] whole_rect_size [of w h "dst_roi p"]
  by (simp add: IsScalingNeeded_def rect_width_def rect_height_def)

lemma no_decimation:
  assumes r: "whole_rect w h (src_roi p)" "whole_rect w h (dst_roi p)"
    and m: "1 \<le> max_scale_down hw" "uint (max_scale_down hw) \<le> 2 ^ 24"
  shows "fst (SetDecimationFactor fp hw p) = kErrorNone"
proof -
  have "1 \<le> uint (max_scale_down hw)" using m(1) by (simp add: word_le_def)
  then have "fle (fint 1) (FLOAT (max_scale_down hw))"
    using m(2) by (simp add: FLOAT_exact)
  then show ?thesis
    using r [THEN whole_rect_size]
    by (simp add: SetDecimationFactor_def CalculateDecimation_def Let_def scale_one)
qed

lemma SplitRect_whole:
  assumes s: "whole_rect w h src" and d: "whole_rect w h dst" and "1 < w"
    and sp: "SplitRect fp src dst = (sl, d_l, sr, d_r)"
  shows "whole_rect ((w + 1) div 2) h sl" "whole_rect ((w + 1) div 2) h d_l"
    "whole_rect (w div 2) h sr" "whole_rect (w div 2) h d_r"
    "r_right sl = r_left sr" "r_left sl = r_left src" "r_right sr = r_right src"
    "r_right d_l = r_left d_r" "r_left d_l = r_left dst" "r_right d_r = r_right dst"
proof -
  obtain l t where src: "src = irect l t (l + w) (t + h)" "- (2 ^ 24) \<le> l" "l + w \<le> 2 ^ 24"
      "- (2 ^ 24) \<le> t" "t + h \<le> 2 ^ 24"
    and w: "0 < w" "w \<le> 2 ^ 12" and h: "0 < h" "h \<le> 2 ^ 12"
    using s by (auto simp: whole_rect_def)
  obtain l' t' where dst: "dst = irect l' t' (l' + w) (t' + h)" "- (2 ^ 24) \<le> l'" "l' + w \<le> 2 ^ 24"
      "- (2 ^ 24) \<le> t'" "t' + h \<le> 2 ^ 24"
    using d by (auto simp: whole_rect_def)
  define m where "m = (w + 1) div 2"
  have m: "0 < m" "m \<le> w" "w - m = w div 2" "m * w \<le> 2 ^ 24"
  proof -
    show "0 < m" "m \<le> w" "w - m = w div 2" using \<open>1 < w\<close> by (simp_all add: m_def)
    then have "m * w \<le> 2 ^ 12 * 2 ^ 12" using w by (intro mult_mono) simp_all
    then show "m * w \<le> 2 ^ 24" by simp
  qed
  have a: "ROUND_UP_ALIGN_DOWN fp (fdiv (fint w) (Fin 2)) 1 = fint m"
    using w round_half_up(1) [of w fp] by (simp add: fdiv_two m_def)
  have "fdiv (fmul (fint w) (fint m)) (fint w) = fint m"
    using m w fmul_int [of w m] fdiv_int [of w m] by (simp add: mult.commute)
  then have b: "ROUND_UP_ALIGN_DOWN fp (fdiv (fmul (fint w) (fint m)) (fint w)) 1 = fint m"
    using m w by (simp add: round_int)
  have "SplitRect fp src dst = (irect l t (l + m) (t + h), irect l' t' (l' + m) (t' + h),
      irect (l + m) t (l + w) (t + h), irect (l' + m) t' (l' + w) (t' + h))"
    using whole_rect_size [OF s] whole_rect_size [OF d] m w src dst
    by (simp add: SplitRect_def Let_def a b fadd_int)
  then have eq: "sl = irect l t (l + m) (t + h)" "d_l = irect l' t' (l' + m) (t' + h)"
      "sr = irect (l + m) t (l + w) (t + h)" "d_r = irect (l' + m) t' (l' + w) (t' + h)"
    using sp by simp_all
  show "r_right sl = r_left sr" "r_left sl = r_left src" "r_right sr = r_right src"
    "r_right d_l = r_left d_r" "r_left d_l = r_left dst" "r_right d_r = r_right dst"
    by (simp_all add: eq src(1) dst(1))
  have mw: "(w + 1) div 2 = m" "w div 2 = w - m" using m by (simp_all add: m_def)
  show "whole_rect ((w + 1) div 2) h sl" "whole_rect ((w + 1) div 2) h d_l"
    unfolding eq mw by (rule whole_rectI; use src dst w h m in simp)+
  show "whole_rect (w div 2) h sr" "whole_rect (w div 2) h d_r"
    unfolding eq mw(2) by (rule whole_rectI; use src dst w h m \<open>1 < w\<close> in simp)+
qed

lemma r_left_update_same: "x = r_left r \<Longrightarrow> r\<lparr>r_left := x\<rparr> = r"
  by simp

text \<open>
  The configuration of a frame that needs no scaling: one pipe if the frame is no wider than a
  pipe, else the two halves.
\<close>

lemma Config_unscaled:
  assumes f: "full_frame w h layer" and hw: "is_src_split hw" "uint (max_pipe_width hw) \<le> 2 ^ 24"
    and w: "w \<le> 2 * uint (max_pipe_width hw)"
  obtains c' where "Config fp hw mixer layer c = (kErrorNone, c')" "valid (left_pipe c')"
    "fits hw h (left_pipe c')" "valid (right_pipe c') \<longrightarrow> fits hw h (right_pipe c')"
    "r_left (src_roi (left_pipe c')) = r_left (src_rect layer)"
    "if valid (right_pipe c')
     then r_right (src_roi (left_pipe c')) = r_left (src_roi (right_pipe c')) \<and>
          r_right (src_roi (right_pipe c')) = r_right (src_rect layer)
     else r_right (src_roi (left_pipe c')) = r_right (src_rect layer)"
proof -
  let ?src = "src_rect layer" and ?dst = "dst_rect layer" and ?m = "uint (max_pipe_width hw)"
  have s: "whole_rect w h ?src" and d: "whole_rect w h ?dst" and fmt: "l_format layer \<noteq> kFormatInvalid"
    using f by (simp_all add: full_frame_def)
  have sz: "rect_width ?src = fint w" "rect_width ?dst = fint w" "0 < w"
    using whole_rect_size [OF s] whole_rect_size [OF d] by simp_all
  have params: "ValidateLayerParams layer = kErrorNone"
    using whole_rect_size [OF s] whole_rect_size [OF d] fmt by (simp add: ValidateLayerParams_def Let_def)
  note v = params valid_dims [OF s d] valid_scaling [OF s d]
  have lim: "FLOAT (max_pipe_width hw) = fint ?m" using hw(2) by (rule FLOAT_exact)
  show ?thesis
  proof (cases "w \<le> ?m")
    case True
    then have "SrcSplitConfig fp hw ?src ?dst c = \<lparr>left_pipe = (left_pipe c)\<lparr>src_roi := ?src, dst_roi := ?dst, valid := True\<rparr>,
        right_pipe = pipe_info0\<rparr>"
      by (simp add: SrcSplitConfig_def sz lim)
    then have "Config fp hw mixer layer c = (kErrorNone, \<lparr>left_pipe = (left_pipe c)\<lparr>src_roi := ?src, dst_roi := ?dst,
        valid := True, z_order := 0\<rparr>, right_pipe = pipe_info0\<rparr>)"
      using v s d hw(1) by (simp add: Config_def AlignPipeConfig_def valid_pipe Let_def pipe_info0_def)
    then show ?thesis
      by (rule that) (use True s d in \<open>auto simp: fits_def pipe_info0_def\<close>)
  next
    case False
    obtain sl d_l sr d_r where sp: "SplitRect fp ?src ?dst = (sl, d_l, sr, d_r)"
      by (cases "SplitRect fp ?src ?dst")
    have "0 \<le> ?m" by simp
    then have w1: "1 < w" using False w by linarith
    note h = SplitRect_whole [OF s d w1 sp]
    have "SrcSplitConfig fp hw ?src ?dst c =
        \<lparr>left_pipe = (left_pipe c)\<lparr>src_roi := sl, dst_roi := d_l, valid := True\<rparr>,
         right_pipe = (right_pipe c)\<lparr>src_roi := sr, dst_roi := d_r, valid := True\<rparr>\<rparr>"
      using False by (simp add: SrcSplitConfig_def sz lim sp)
    then have "Config fp hw mixer layer c = (kErrorNone,
        \<lparr>left_pipe = (left_pipe c)\<lparr>src_roi := sl, dst_roi := d_l, valid := True, z_order := 0\<rparr>,
         right_pipe = (right_pipe c)\<lparr>src_roi := sr, dst_roi := d_r, valid := True, z_order := 0\<rparr>\<rparr>)"
      using v hw(1) h
      by (simp add: Config_def AlignPipeConfig_def Let_def valid_pipe [where w = "(w + 1) div 2" and h = h]
          valid_pipe [where w = "w div 2" and h = h] r_left_update_same)
    then show ?thesis
      by (rule that) (use h w in \<open>auto simp: fits_def\<close>)
  qed
qed

subsection \<open>A frame that needs no scaling gets its pipes\<close>

lemma filter_two:
  assumes "2 \<le> length (filter P xs)"
  obtains i j where "i \<noteq> j" "i < length xs" "j < length xs" "P (xs ! i)" "P (xs ! j)"
proof -
  have "2 \<le> card {i. i < length xs \<and> P (xs ! i)}"
    using assms by (simp add: length_filter_conv_card)
  then obtain S where S: "S \<subseteq> {i. i < length xs \<and> P (xs ! i)}" "card S = 2"
    by (rule obtain_subset_with_card_n)
  obtain i j where "S = {i, j}" "i \<noteq> j"
    using S(2) unfolding card_2_iff by blast
  with S(1) show ?thesis by (intro that) auto
qed

lemma GetPipe_unscaled:
  assumes inv: "pipes_inv hw rd" and k: "k < hw_total hw" "available (src_pipes rd ! k)"
  obtains i where "GetPipe b False rd = Inr (of_nat i, take_pipe b i rd)" "i < hw_total hw"
    "available (src_pipes rd ! i)"
proof -
  have "k \<in> set (pipe_order hw False)"
    using k(1) by (auto simp: pipe_order_def Let_def hw_total_def)
  then have "find (\<lambda>i. available (src_pipes rd ! i)) (pipe_order hw False) \<noteq> None"
    using k(2) by (auto simp: find_None_iff)
  then obtain i where i: "find (\<lambda>i. available (src_pipes rd ! i)) (pipe_order hw False) = Some i" by blast
  show ?thesis
    using that [of i] GetPipe_find [OF inv, of b False] find_pipe_order [OF i] i by simp
qed

lemma prepare_right_unscaled:
  assumes inv: "pipes_inv hw rd" and b: "hw_block_ctx rd b"
    and r: "fits hw' h (right_pipe c)"
    and m: "1 \<le> max_scale_down (hw_res_info rd)" "uint (max_scale_down (hw_res_info rd)) \<le> 2 ^ 24"
    and k: "p < hw_total hw" "q < hw_total hw" "available (src_pipes rd ! q)"
  shows "ensures (prepare_right fp b (of_nat p) c rd) (\<lambda>(e, c', rd'). e = kErrorNone)"
proof -
  have need: "\<not> IsScalingNeeded (right_pipe c)"
    using r not_scaled by (auto simp: fits_def)
  obtain i where i: "GetPipe b False rd = Inr (of_nat i, take_pipe b i rd)" "i < hw_total hw"
      "available (src_pipes rd ! i)"
    using GetPipe_unscaled [OF inv k(2,3)] .
  have inv': "pipes_inv hw (take_pipe b i rd)"
    using take_pipe_ok [OF inv i(2,3) b] by (simp add: frame_ok_def)
  have "fst (SetDecimationFactor fp (hw_res_info rd) ((right_pipe c)\<lparr>pipe_id := x\<rparr>)) = kErrorNone" for x
    using r no_decimation [OF _ _ m] by (auto simp: fits_def)
  moreover have "\<not> num_pipe rd \<le> of_nat i"
    using index_below [OF inv i(2)] by simp
  ultimately show ?thesis
    using need i(1) get_src_pipe_of_nat [OF inv' k(1)] get_src_pipe_of_nat [OF inv' i(2)]
    by (simp add: prepare_right_def Let_def case_prod_beta)
qed

lemma prepare_pipes_unscaled:
  assumes inv: "pipes_inv hw rd" and b: "hw_block_ctx rd b"
    and v: "valid (left_pipe c)" and l: "fits hw' h (left_pipe c)" and r: "valid (right_pipe c) \<longrightarrow> fits hw' h (right_pipe c)"
    and m: "1 \<le> max_scale_down (hw_res_info rd)" "uint (max_scale_down (hw_res_info rd)) \<le> 2 ^ 24"
    and k: "i \<noteq> j" "i < hw_total hw" "j < hw_total hw" "available (src_pipes rd ! i)" "available (src_pipes rd ! j)"
  shows "ensures (prepare_pipes fp b c rd) (\<lambda>(e, c', rd'). e = kErrorNone)"
proof -
  have need: "\<not> IsScalingNeeded (left_pipe c)"
    using l not_scaled by (auto simp: fits_def)
  obtain p where p: "GetPipe b False rd = Inr (of_nat p, take_pipe b p rd)" "p < hw_total hw"
      "available (src_pipes rd ! p)"
    using GetPipe_unscaled [OF inv k(2,4)] .
  let ?rd = "take_pipe b p rd"
  have inv': "pipes_inv hw ?rd" using take_pipe_ok [OF inv p(2,3) b] by (simp add: frame_ok_def)
  have n: "\<not> num_pipe rd \<le> of_nat p" "of_nat p < num_pipe rd" using index_below [OF inv p(2)] by simp_all
  obtain w where w: "whole_rect w h (src_roi (left_pipe c))" "whole_rect w h (dst_roi (left_pipe c))"
    using l by (auto simp: fits_def)
  obtain left where d: "SetDecimationFactor fp (hw_res_info rd) (left_pipe c) = (kErrorNone, left)"
    using no_decimation [OF w m, of fp] by (cases "SetDecimationFactor fp (hw_res_info rd) (left_pipe c)") simp
  obtain q where q: "q < hw_total hw" "available (src_pipes ?rd ! q)"
  proof (cases "p = i")
    case True
    then show ?thesis using that [of j] k by (simp add: take_pipe_def)
  next
    case False
    then show ?thesis using that [of i] k by (simp add: take_pipe_def)
  qed
  have "valid (right_pipe c) \<Longrightarrow>
      ensures (prepare_right fp b (of_nat p) (c\<lparr>left_pipe := left\<rparr>) ?rd) (\<lambda>(e, c', rd'). e = kErrorNone)"
    using b r m p(2) q by (intro prepare_right_unscaled [OF inv', where hw' = hw' and h = h and q = q]) simp_all
  then show ?thesis
    using p(1) v need d n get_src_pipe_of_nat [OF inv' p(2)]
    by (simp add: prepare_pipes_def Let_def)
qed

lemma one_le_word: "x \<noteq> (0 :: u32) \<Longrightarrow> 1 \<le> x"
  by (simp add: word_le_nat_alt Suc_le_eq unat_gt_0)

lemma Prepare_unscaled:
  assumes inv: "pipes_inv hw rd" and b: "hw_block_ctx rd (ctx_block ctx)"
    and f: "full_frame w h layer"
    and hw: "is_src_split hw" "uint (max_pipe_width hw) \<le> 2 ^ 24" "uint (max_scale_down hw) \<le> 2 ^ 24"
    and w: "w \<le> 2 * uint (max_pipe_width hw)" and sp: "2 \<le> spare (ctx_block ctx) rd"
  shows "ensures (Resource_Prepare fp ctx [layer] c rd) (\<lambda>(e, c', rd'). e = kErrorNone)"
proof -
  let ?b = "ctx_block ctx" and ?ps = "reset_pipes (ctx_block ctx) (src_pipes rd)"
  let ?rd = "rd\<lparr>src_pipes := ?ps\<rparr>"
  have hw': "hw_res_info rd = fix_scaling hw" "length (src_pipes rd) = hw_total hw"
    using inv by (simp_all add: pipes_inv_def)
  have same: "is_src_split (fix_scaling hw) = is_src_split hw" "max_pipe_width (fix_scaling hw) = max_pipe_width hw"
    by (simp_all add: fix_scaling_def)
  have m: "1 \<le> max_scale_down (fix_scaling hw)" "uint (max_scale_down (fix_scaling hw)) \<le> 2 ^ 24"
    using hw(3) one_le_word by (auto simp: fix_scaling_def)
  obtain c' where c: "Config fp (fix_scaling hw) (ctx_mixer ctx) layer c = (kErrorNone, c')" "valid (left_pipe c')"
      "fits (fix_scaling hw) h (left_pipe c')" "valid (right_pipe c') \<longrightarrow> fits (fix_scaling hw) h (right_pipe c')"
    by (rule Config_unscaled [OF f, of "fix_scaling hw" fp "ctx_mixer ctx" c])
      (use hw w in \<open>simp_all add: same\<close>)
  obtain i j where ij: "i \<noteq> j" "i < length (src_pipes rd)" "j < length (src_pipes rd)"
      "p_owner (src_pipes rd ! i) = kPipeOwnerUserMode \<and> p_block (src_pipes rd ! i) \<in> {?b, kHWBlockMax}"
      "p_owner (src_pipes rd ! j) = kPipeOwnerUserMode \<and> p_block (src_pipes rd ! j) \<in> {?b, kHWBlockMax}"
    using sp unfolding spare_def by (rule filter_two)
  then have av: "available (?ps ! i)" "available (?ps ! j)"
    by (auto simp: reset_pipes_def available_def ResetState_def)
  have inv': "pipes_inv hw ?rd" using reset_pipes_ok [OF inv] by (simp add: frame_ok_def)
  have "ensures (prepare_pipes fp ?b c' ?rd) (\<lambda>(e, c', rd'). e = kErrorNone)"
    using b c m ij av hw' by (intro prepare_pipes_unscaled [OF inv', where i = i and j = j]) simp_all
  then show ?thesis
    using f c(1) hw'(1) by (simp add: Resource_Prepare_def full_frame_def)
qed

subsection \<open>Properties\<close>


lemma hw0_ordered: "ordered_hw hw0"
  by (simp add: ordered_hw_def hw0_def hw_total_def type_at_def upt_rec)

lemma hw0_init: "Resource_Init (ResourceDefault_new hw0) = Inr (kErrorNone,
    \<lparr>hw_res_info = fix_scaling hw0, hw_block_ctx = (\<lambda>_. False),
     src_pipes = map (init_pipe hw0) [0..<hw_total hw0], num_pipe = total_pipes hw0\<rparr>)"
  by (rule Resource_Init_ordered [OF hw0_ordered])

lemma hw0_run: "run (res_step fp0) (res_start rd0) [Register kPrimary attr0 mixer0] sys0"
  by (auto simp: run_Cons_iff res_step_def Resource_RegisterDisplay_def block_of_def res_start_def rd0_def sys0_def
      ctx0_def fun_eq_iff)


text \<open>
  C10: After any sequence of requests of live displays every further request returns, and a pipe is
  only ever reserved, in user mode, for a display that holds a context.
\<close>

theorem resource_requests_safe:
  assumes "ordered_hw hw" and "Resource_Init (ResourceDefault_new hw) = Inr (e0, rd)"
    and "run (res_step fp) (res_start rd) ops s" and "client_ok op s"
  shows "ensures (res_exec fp op s) (\<lambda>(e, s').
    list_all (\<lambda>p. p_block p = kHWBlockMax \<or> p_owner p = kPipeOwnerUserMode \<and>
      (\<exists>t ctx. sys_ctx s' t = Some ctx \<and> ctx_block ctx = p_block p)) (src_pipes (sys_rd s')))"
proof -
  have "list_all (\<lambda>p. p_block p = kHWBlockMax \<or> p_owner p = kPipeOwnerUserMode \<and>
      (\<exists>t ctx. sys_ctx s' t = Some ctx \<and> ctx_block ctx = p_block p)) (src_pipes (sys_rd s'))"
    if "res_inv hw s'" for s'
    using that PipeOwner.exhaust
    by (auto simp: list_all_length res_inv_def pipes_inv_def pipe_inv_def)
  then show ?thesis
    by (intro ensures_mono [OF res_exec_ok [OF reachable_inv [OF assms(1-3)] assms(4)]]) auto
qed

theorem resource_requests_safe_witness:
  "ensures (res_exec fp0 (On kPrimary (PrepareFrame [layer0] config0)) sys0) (\<lambda>(e, s').
    list_all (\<lambda>p. p_block p = kHWBlockMax \<or> p_owner p = kPipeOwnerUserMode \<and>
      (\<exists>t ctx. sys_ctx s' t = Some ctx \<and> ctx_block ctx = p_block p)) (src_pipes (sys_rd s')))"
  using resource_requests_safe [OF hw0_ordered hw0_init hw0_run [unfolded rd0_def], of "On kPrimary (PrepareFrame [layer0] config0)"]
  by (simp add: sys0_def)


text \<open>
  C27: The search of \<open>GetPipe\<close> is the first available pipe in the order DMA, RGB, video, without the
  pipes that cannot scale when scaling is needed; it fails only if there is none.
\<close>

theorem GetPipe_spec:
  assumes "ordered_hw hw" and "Resource_Init (ResourceDefault_new hw) = Inr (e0, rd)"
    and "run (res_step fp) (res_start rd) ops s"
  shows "GetPipe b need_scale (sys_rd s) =
    Inr (pick b (sys_rd s) (find (\<lambda>i. available (src_pipes (sys_rd s) ! i)) (pipe_order hw need_scale)))"
  using reachable_inv [OF assms] by (intro GetPipe_find) (simp add: res_inv_def)

theorem GetPipe_spec_witness:
  "GetPipe kHWPrimary False (sys_rd sys0) = Inr (3, take_pipe kHWPrimary 3 (sys_rd sys0))"
proof -
  have "find (\<lambda>i. available (src_pipes (sys_rd sys0) ! i)) (pipe_order hw0 False) = Some 3"
    by (simp add: sys0_def rd0_def pipe_order_def hw0_def hw_total_def upt_rec available_def
        init_pipe_def placed_def boot_pipe_def)
  then show ?thesis
    using GetPipe_spec [OF hw0_ordered hw0_init hw0_run [unfolded rd0_def], of kHWPrimary False] by simp
qed


lemma layer0_full: "full_frame 1080 1920 layer0"
  by (simp add: full_frame_def layer0_def whole_rectI)



subsection \<open>Defects\<close>

text \<open>Without pipes the caller is given a deleted object and no error.\<close>

lemma Create_returns_deleted: "total_pipes hw = 0 \<Longrightarrow> CreateResourceDefault hw = Inr (kErrorNone, Deleted)"
  by (simp add: CreateResourceDefault_def Resource_Init_def ResourceDefault_new_def Let_def)

text \<open>With video pipes only, the boot pipes are written behind the table.\<close>

lemma Init_writes_outside:
  "mbind (Resource_Init (ResourceDefault_new (hw0\<lparr>num_rgb_pipe := 0, num_dma_pipe := 0\<rparr>)))
     (\<lambda>(e, rd). Inr e) = Inl OobWrite"
  by code_simp

text \<open>
  When the driver lists the pipes in another order, the pipe that is reserved (the fourth, a DMA
  pipe) is not the one that is programmed (the first, a video pipe).
\<close>

lemma unordered_pipes_confused:
  "mbind (Resource_Init (ResourceDefault_new unordered_hw)) (\<lambda>(e, rd).
     mbind (GetPipe kHWPrimary False rd) (\<lambda>(i, rd').
     mbind (get_src_pipe rd' i) (\<lambda>p. Inr (e, p_type p, p_block p, map p_block (src_pipes rd')))))
   = Inr (kErrorNone, kPipeTypeVIG, kHWBlockMax,
          [kHWBlockMax, kHWBlockMax, kHWBlockMax, kHWPrimary, kHWBlockMax])"
  by code_simp


text \<open>
  When only the right half needs scaling, the exchange by priority gives it the DMA pipe that
  was chosen for the left half.
\<close>

lemma swap_loses_scaling:
  "mbind (prepare_pipes fp0 kHWPrimary swap_config rd0)
     (\<lambda>(e, c, rd). Inr (e, pipe_id (left_pipe c), pipe_id (right_pipe c), IsScalingNeeded (left_pipe c), IsScalingNeeded (right_pipe c)))
   = Inr (kErrorNone, 1, 64, False, True)"
  by code_simp

end
