(* ===== verification/Sdm_Debug.thy ===== *)
theory Sdm_Debug
  imports Sdm_Resource
begin

text \<open>
  The settings of the display stack: \<open>sdm/libs/utils/debug.cpp\<close> with the property names of
  \<open>display_properties.h\<close> and the default handler of \<open>debug.h\<close>.

  The handler that reads the system properties belongs to the client of the stack.  It is a
  parameter: a record of what its methods return and, if they write the output, what they write.
  Reading a string is into an array of 64 bytes without a length, so a longer answer is a write
  outside the array.  \<open>stoi\<close> is that of the C++ library, its two exceptions are \<open>Abort\<close>.

  Shown here: with the default handler every switch is off and every limit has its default; the
  resolution of the mixer is read back as it was printed; the defaults survive a handler that fails.
\<close>

record DebugHandler =
  get_int :: "string \<Rightarrow> DisplayError \<times> int option"
  get_str :: "string \<Rightarrow> DisplayError \<times> string option"
  set_str :: "string \<Rightarrow> string \<Rightarrow> DisplayError"

definition DefaultDebugHandler :: DebugHandler where
  "DefaultDebugHandler = \<lparr>get_int = (\<lambda>_. (kErrorNotSupported, None)), get_str = (\<lambda>_. (kErrorNotSupported, None)),
     set_str = (\<lambda>_ _. kErrorNotSupported)\<rparr>"

subsection \<open>Property names\<close>

definition DISPLAY_PROP :: "string \<Rightarrow> string" where
  "DISPLAY_PROP prop_name = ''vendor.display.'' @ prop_name"

definition GRALLOC_PROP :: "string \<Rightarrow> string" where
  "GRALLOC_PROP prop_name = ''vendor.gralloc.'' @ prop_name"

definition IDLE_TIMEOUT_ACTIVE_MS :: int where
  "IDLE_TIMEOUT_ACTIVE_MS = 70"

definition IDLE_TIMEOUT_INACTIVE_MS :: int where
  "IDLE_TIMEOUT_INACTIVE_MS = 520"

subsection \<open>Settings\<close>

text \<open>Reading an integer into a variable that holds \<open>value\<close>; the result of the handler is not looked at.\<close>

definition read_int :: "DebugHandler \<Rightarrow> string \<Rightarrow> int \<Rightarrow> int" where
  "read_int d name value = (case snd (get_int d name) of Some v \<Rightarrow> v | None \<Rightarrow> value)"

definition GetSimulationFlag :: "DebugHandler \<Rightarrow> int" where
  "GetSimulationFlag d = read_int d (DISPLAY_PROP ''comp_mask'') 0"

definition GetHDMIResolution :: "DebugHandler \<Rightarrow> int" where
  "GetHDMIResolution d = read_int d (DISPLAY_PROP ''hdmi_cfg_idx'') 0"

definition GetIdleTimeoutMs :: "DebugHandler \<Rightarrow> u32 \<times> u32" where
  "GetIdleTimeoutMs d =
     (let active_val = read_int d (DISPLAY_PROP ''idle_time'') IDLE_TIMEOUT_ACTIVE_MS;
          inactive_val = read_int d (DISPLAY_PROP ''idle_time_inactive'') IDLE_TIMEOUT_INACTIVE_MS
      in (word_of_int active_val, word_of_int inactive_val))"

definition GetBootAnimLayerCount :: "DebugHandler \<Rightarrow> int" where
  "GetBootAnimLayerCount d = read_int d (DISPLAY_PROP ''boot_anim_layer_count'') 0"

definition IsRotatorDownScaleDisabled :: "DebugHandler \<Rightarrow> bool" where
  "IsRotatorDownScaleDisabled d = (read_int d (DISPLAY_PROP ''disable_rotator_downscale'') 0 = 1)"

definition IsDecimationDisabled :: "DebugHandler \<Rightarrow> bool" where
  "IsDecimationDisabled d = (read_int d (DISPLAY_PROP ''disable_decimation'') 0 = 1)"

definition GetMaxPipesPerMixer :: "DebugHandler \<Rightarrow> DisplayType \<Rightarrow> int" where
  "GetMaxPipesPerMixer d display_type =
     (case display_type of
        kPrimary \<Rightarrow> read_int d (DISPLAY_PROP ''primary_mixer_stages'') (- 1)
      | kHDMI \<Rightarrow> read_int d (DISPLAY_PROP ''external_mixer_stages'') (- 1)
      | kVirtual \<Rightarrow> read_int d (DISPLAY_PROP ''virtual_mixer_stages'') (- 1)
      | _ \<Rightarrow> - 1)"

definition GetMaxUpscale :: "DebugHandler \<Rightarrow> int" where
  "GetMaxUpscale d = read_int d (DISPLAY_PROP ''max_upscale'') 0"

definition IsVideoModeEnabled :: "DebugHandler \<Rightarrow> bool" where
  "IsVideoModeEnabled d = (read_int d (DISPLAY_PROP ''video_mode_panel'') 0 = 1)"

definition IsRotatorUbwcDisabled :: "DebugHandler \<Rightarrow> bool" where
  "IsRotatorUbwcDisabled d = (read_int d (DISPLAY_PROP ''disable_rotator_ubwc'') 0 = 1)"

definition IsRotatorSplitDisabled :: "DebugHandler \<Rightarrow> bool" where
  "IsRotatorSplitDisabled d = (read_int d (DISPLAY_PROP ''disable_rotator_split'') 0 = 1)"

definition IsScalarDisabled :: "DebugHandler \<Rightarrow> bool" where
  "IsScalarDisabled d = (read_int d (DISPLAY_PROP ''disable_scaler'') 0 = 1)"

definition IsUbwcTiledFrameBuffer :: "DebugHandler \<Rightarrow> bool" where
  "IsUbwcTiledFrameBuffer d =
     (let ubwc_disabled = read_int d (GRALLOC_PROP ''disable_ubwc'') 0;
          ubwc_framebuffer = (if ubwc_disabled = 0 then read_int d (GRALLOC_PROP ''enable_fb_ubwc'') 0 else 0)
      in ubwc_framebuffer = 1)"

definition IsAVRDisabled :: "DebugHandler \<Rightarrow> bool" where
  "IsAVRDisabled d = (read_int d (DISPLAY_PROP ''disable_avr'') 0 = 1)"

definition IsExtAnimDisabled :: "DebugHandler \<Rightarrow> bool" where
  "IsExtAnimDisabled d = (read_int d (DISPLAY_PROP ''disable_ext_anim'') 0 = 1)"

definition IsPartialSplitDisabled :: "DebugHandler \<Rightarrow> bool" where
  "IsPartialSplitDisabled d = (read_int d (DISPLAY_PROP ''disable_partial_split'') 0 = 1)"

definition GetExtMaxlayers :: "DebugHandler \<Rightarrow> int" where
  "GetExtMaxlayers d = max (read_int d (DISPLAY_PROP ''max_external_layers'') 0) 2"

definition Debug_GetProperty :: "DebugHandler \<Rightarrow> string \<Rightarrow> bool \<times> string option" where
  "Debug_GetProperty d property_name = (let (error, value) = get_str d property_name in (error = kErrorNone, value))"

definition Debug_SetProperty :: "DebugHandler \<Rightarrow> string \<Rightarrow> string \<Rightarrow> bool" where
  "Debug_SetProperty d property_name value = (set_str d property_name value = kErrorNone)"

subsection \<open>The resolution of the mixer\<close>

definition isspace :: "char \<Rightarrow> bool" where
  "isspace c = ((of_char c :: nat) \<in> {9, 10, 11, 12, 13, 32})"

definition stoi :: "string \<Rightarrow> int mem" where
  "stoi str =
     (let s = dropWhile isspace str;
          (neg, s) = (case s of c # cs \<Rightarrow> if c = CHR ''-'' then (True, cs) else if c = CHR ''+'' then (False, cs) else (False, s)
                      | [] \<Rightarrow> (False, s));
          ds = takeWhile is_digit s;
          n = (if neg then - int (dec_value ds) else int (dec_value ds))
      in if ds = [] \<or> n < - (2 ^ 31) \<or> 2 ^ 31 \<le> n then Inl Abort else Inr n)"

text \<open>\<^verbatim>\<open>str.substr(str.find('x') + 1)\<close>: the position of a missing character plus one is zero.\<close>

definition after_x :: "string \<Rightarrow> string" where
  "after_x str = (if CHR ''x'' \<in> set str then tl (dropWhile (\<lambda>c. c \<noteq> CHR ''x'') str) else str)"

text \<open>The second component is the resolution, if it is set.\<close>

definition GetMixerResolution :: "DebugHandler \<Rightarrow> (DisplayError \<times> (u32 \<times> u32) option) mem" where
  "GetMixerResolution d =
     (let (error, value) = get_str d (DISPLAY_PROP ''mixer_resolution'');
          str = (case value of Some v \<Rightarrow> v | None \<Rightarrow> [])
      in mbind (store_into 64 (str @ [CHR 0x00])) (\<lambda>_.
         if error \<noteq> kErrorNone then Inr (error, None)
         else mbind (stoi str) (\<lambda>width.
              mbind (stoi (after_x str)) (\<lambda>height.
                Inr (kErrorNone, Some (word_of_int width, word_of_int height))))))"

text \<open>What a resolution is written as.\<close>

definition print_resolution :: "nat \<Rightarrow> nat \<Rightarrow> string" where
  "print_resolution w h = show_nat w @ ''x'' @ show_nat h"

definition mixer_handler :: "string \<Rightarrow> DebugHandler" where
  "mixer_handler value = DefaultDebugHandler\<lparr>get_str := (\<lambda>_. (kErrorNone, Some value))\<rparr>"

subsection \<open>Defaults\<close>

lemma read_int_default [simp]: "read_int DefaultDebugHandler name value = value"
  by (simp add: read_int_def DefaultDebugHandler_def)

lemma default_settings:
  "GetIdleTimeoutMs DefaultDebugHandler = (70, 520)" "GetExtMaxlayers DefaultDebugHandler = 2"
  "\<not> IsUbwcTiledFrameBuffer DefaultDebugHandler" "GetMaxPipesPerMixer DefaultDebugHandler t = - 1"
  by (simp_all add: GetIdleTimeoutMs_def GetExtMaxlayers_def IsUbwcTiledFrameBuffer_def GetMaxPipesPerMixer_def
      IDLE_TIMEOUT_ACTIVE_MS_def IDLE_TIMEOUT_INACTIVE_MS_def split: DisplayType.splits)

text \<open>Tiled frame buffers need both settings, and an external display always gets two layers.\<close>

lemma ubwc_needs_both:
  "IsUbwcTiledFrameBuffer d \<longleftrightarrow>
     read_int d (GRALLOC_PROP ''disable_ubwc'') 0 = 0 \<and> read_int d (GRALLOC_PROP ''enable_fb_ubwc'') 0 = 1"
  by (simp add: IsUbwcTiledFrameBuffer_def)

lemma ext_max_layers_bound: "2 \<le> GetExtMaxlayers d"
  by (simp add: GetExtMaxlayers_def)

subsection \<open>Reading the resolution back\<close>

lemma digit_not_special: "is_digit c \<Longrightarrow> \<not> isspace c \<and> c \<noteq> CHR ''-'' \<and> c \<noteq> CHR ''+'' \<and> c \<noteq> CHR ''x'' \<and> c \<noteq> CHR 0x00"
  by (auto simp: is_digit_def isspace_def)

lemma stoi_digits:
  assumes ds: "ds \<noteq> []" "list_all is_digit ds" and r: "dec_value ds < 2 ^ 31"
    and rest: "rest = [] \<or> \<not> is_digit (hd rest)"
  shows "stoi (ds @ rest) = Inr (int (dec_value ds))"
proof -
  obtain c cs where c: "ds = c # cs" "is_digit c" using ds by (cases ds) auto
  have "takeWhile is_digit (ds @ rest) = ds"
    using ds(2) rest by (cases rest) (auto simp: list_all_iff takeWhile_append)
  moreover have "dropWhile isspace (ds @ rest) = ds @ rest" using digit_not_special [OF c(2)] by (simp add: c(1))
  moreover have "int (dec_value ds) < 2 ^ 31" using r by simp
  ultimately show ?thesis
    using digit_not_special [OF c(2)] c by (simp add: stoi_def)
qed

lemma after_x_print: "after_x (print_resolution w h) = show_nat h"
proof -
  have "c \<noteq> CHR ''x''" if "c \<in> set (show_nat w)" for c
    using show_nat_digits [of w] that digit_not_special by (auto simp: list_all_iff)
  then show ?thesis
    by (simp add: after_x_def print_resolution_def dropWhile_append)
qed

text \<open>
  C40: The resolution of the mixer is read back as it was written: when the property holds the width
  and the height in decimal with an \<open>x\<close> between them, and both fit an \<open>int\<close>, the result is no error
  and these two numbers.
\<close>

theorem mixer_resolution_roundtrip:
  assumes "get_str d (DISPLAY_PROP ''mixer_resolution'') = (kErrorNone, Some (print_resolution w h))"
    and "w < 2 ^ 31" "h < 2 ^ 31"
  shows "GetMixerResolution d = Inr (kErrorNone, Some (of_nat w, of_nat h))"
proof -
  have l: "length (show_nat n) \<le> 10" if "n < 2 ^ 31" for n
    using that by (intro show_nat_length) simp_all
  have "stoi (print_resolution w h) = Inr (int w)" "stoi (show_nat h) = Inr (int h)"
    using stoi_digits [of "show_nat w" "''x'' @ show_nat h"] stoi_digits [of "show_nat h" "[]"] show_nat_digits assms
    by (simp_all add: print_resolution_def is_digit_def)
  then show ?thesis
    using assms l [of w] l [of h] by (simp add: GetMixerResolution_def store_into_def after_x_print) 
      (simp add: print_resolution_def)
qed

theorem mixer_resolution_roundtrip_witness:
  "GetMixerResolution (mixer_handler (print_resolution 1080 1920)) = Inr (kErrorNone, Some (1080, 1920))"
  using mixer_resolution_roundtrip [of "mixer_handler (print_resolution 1080 1920)" 1080 1920]
  by (simp add: mixer_handler_def)

subsection \<open>Defects\<close>

text \<open>Without an \<open>x\<close> the width is taken for the height; text that is no number ends the process.\<close>

lemma resolution_without_x: "GetMixerResolution (mixer_handler ''1080'') = Inr (kErrorNone, Some (1080, 1080))"
  by code_simp

lemma resolution_aborts: "GetMixerResolution (mixer_handler ''auto'') = Inl Abort"
  by code_simp

end
