(* ===== verification/Sdm_Comp.thy ===== *)
theory Sdm_Comp
  imports Sdm_Debug
begin

text \<open>
  The composition manager: \<open>sdm/libs/core/comp_manager.cpp\<close> and \<open>strategy.cpp\<close>, on top of the
  resource manager.

  The model is of the stack without the closed extension library, as \<open>core_impl.cpp\<close> sets it up
  when the library cannot be loaded: \<open>extension_intf_\<close>, \<open>strategy_intf_\<close>, \<open>partial_update_intf_\<close> and
  \<open>dpps_ctrl_intf_\<close> are null, and the branches they guard are not taken.  The resource manager is
  reached through a pointer, which \<open>CreateResourceDefault\<close> may leave dangling.  Display contexts
  are passed and returned as values.  \<open>locker_\<close> makes each method one step.  The layer
  information a strategy keeps a pointer to is the one every call of a frame passes.

  Shown here: every request of a live display returns and keeps the invariant of the resource
  manager; a frame in the resolution of the mixer is composed on the first attempt whenever two
  pipes are free; the manager leaves safe mode only when every registered display has shown a
  frame; displays marked as configured are registered.
\<close>

subsection \<open>Types\<close>

datatype HWS3DMode = kS3DModeNone | kS3DModeLR | kS3DModeRL | kS3DModeTB | kS3DModeFP | kS3DModeMax

datatype DisplayPort = kPortDefault | kPortDSI | kPortDTV | kPortWriteBack | kPortLVDS | kPortEDP | kPortDP

datatype HWDisplayMode = kModeDefault | kModeVideo | kModeCommand

record HWSplitInfo =
  left_split :: u32
  right_split :: u32

record HWPanelInfo =
  panel_port :: DisplayPort
  panel_mode :: HWDisplayMode
  partial_update :: bool
  left_align :: int
  width_align :: int
  top_align :: int
  height_align :: int
  min_roi_width :: int
  min_roi_height :: int
  needs_roi_merge :: bool
  dynamic_fps :: bool
  dfps_porch_mode :: bool
  ping_pong_split :: bool
  min_fps :: u32
  max_fps :: u32
  panel_is_primary :: bool
  split_info :: HWSplitInfo
  s3d_mode :: HWS3DMode
  left_roi_count :: u32
  right_roi_count :: u32
  bitclk_update :: bool
  bitclk_rates :: "u64 list"

datatype DisplayState = kStateOff | kStateOn | kStateDoze | kStateDozeSuspend | kStateStandby

datatype HWBwModes = kBwDefault | kBwCamera | kBwVFlip | kBwHFlip | kBwModeMax

record LayerStack =
  layers :: "Layer list"
  skip_present :: bool
  secure_present :: bool
  animating :: bool
  attributes_changed :: bool
  cursor_present :: bool
  single_buffered_layer_present :: bool
  s3d_mode_present :: bool
  hdr_present :: bool

record HWLayersInfo =
  stack :: LayerStack
  app_layer_count :: u32
  gpu_target_index :: u32
  hw_layers :: "Layer list"
  hw_index :: u32
  left_frame_roi :: "LayerRect list"
  right_frame_roi :: "LayerRect list"

record HWLayers =
  info :: HWLayersInfo
  hwl_config :: HWLayerConfig
  sync_handle :: int
  hw_avr_enable :: bool

record StrategyConstraints =
  sc_safe_mode :: bool
  use_cursor :: bool
  max_layers :: u32

record Strategy =
  st_hw :: HWResourceInfo
  st_mixer :: HWMixerAttributes
  st_attributes :: HWDisplayAttributes
  st_fb_config :: DisplayConfigVariableInfo
  disable_gpu_comp :: bool
  st_started :: bool

definition kMaxSDELayers :: u32 where
  "kMaxSDELayers = 16"

subsection \<open>The strategy\<close>

definition Strategy_new :: "HWResourceInfo \<Rightarrow> HWMixerAttributes \<Rightarrow> HWDisplayAttributes
    \<Rightarrow> DisplayConfigVariableInfo \<Rightarrow> Strategy" where
  "Strategy_new hw mixer attributes fb =
     \<lparr>st_hw = hw, st_mixer = mixer, st_attributes = attributes, st_fb_config = fb,
      disable_gpu_comp = False, st_started = False\<rparr>"

definition GenerateROI :: "Strategy \<Rightarrow> HWLayersInfo \<Rightarrow> HWLayersInfo" where
  "GenerateROI st i =
     (let w = FLOAT (mix_width (st_mixer st)); h = FLOAT (mix_height (st_mixer st));
          left_split = FLOAT (split_left (st_mixer st))
      in if \<not> is_src_split (st_hw st) \<and> is_device_split (st_attributes st)
         then i\<lparr>left_frame_roi := [\<lparr>r_left = Fin 0, r_top = Fin 0, r_right = left_split, r_bottom = h\<rparr>],
                right_frame_roi := [\<lparr>r_left = left_split, r_top = Fin 0, r_right = w, r_bottom = h\<rparr>]\<rparr>
         else i\<lparr>left_frame_roi := [\<lparr>r_left = Fin 0, r_top = Fin 0, r_right = w, r_bottom = h\<rparr>],
                right_frame_roi := [rect0]\<rparr>)"

text \<open>The second component is the number of attempts, if it is set.\<close>

definition Strategy_Start :: "Strategy \<Rightarrow> HWLayersInfo
    \<Rightarrow> DisplayError \<times> u32 option \<times> Strategy \<times> HWLayersInfo" where
  "Strategy_Start st i =
     (let st = st\<lparr>st_started := True\<rparr>
      in if \<not> disable_gpu_comp st \<and> gpu_target_index i = 0 then (kErrorNotSupported, None, st, i)
         else (kErrorNone, Some 1, st, GenerateROI st i))"

definition mark_gpu :: "Layer \<Rightarrow> Layer" where
  "mark_gpu layer = layer\<lparr>composition := kCompositionGPU, request_flags := 0\<rparr>"

definition GetNextStrategy :: "fp_env \<Rightarrow> Strategy \<Rightarrow> HWLayersInfo \<Rightarrow> (DisplayError \<times> HWLayersInfo) mem" where
  "GetNextStrategy fp st i =
     (if disable_gpu_comp st then Inr (kErrorNotSupported, i)
      else if \<not> st_started st then Inl NullDeref
      else let ls = layers (stack i); n = unat (app_layer_count i); g = unat (gpu_target_index i)
      in if length ls < n then Inl Abort
         else let ls = map mark_gpu (take n ls) @ drop n ls
      in if length ls \<le> g then Inl Abort
         else let src_domain = \<lparr>r_left = Fin 0, r_top = Fin 0, r_right = FLOAT (x_pixels (st_fb_config st)),
                                r_bottom = FLOAT (y_pixels (st_fb_config st))\<rparr>;
                  dst_domain = \<lparr>r_left = Fin 0, r_top = Fin 0, r_right = FLOAT (mix_width (st_mixer st)),
                                r_bottom = FLOAT (mix_height (st_mixer st))\<rparr>;
                  layer = ls ! g;
                  layer = layer\<lparr>dst_rect := MapRect fp src_domain dst_domain (dst_rect layer) (dst_rect layer)\<rparr>
      in Inr (kErrorNone, i\<lparr>stack := (stack i)\<lparr>layers := ls\<rparr>, hw_index := gpu_target_index i,
                           hw_layers := [layer]\<rparr>))"

definition Strategy_Reconfigure :: "Strategy \<Rightarrow> HWDisplayAttributes \<Rightarrow> HWMixerAttributes
    \<Rightarrow> DisplayConfigVariableInfo \<Rightarrow> DisplayError \<times> Strategy" where
  "Strategy_Reconfigure st attributes mixer fb = (kErrorNone, st)"

definition Strategy_SetCompositionState :: "Strategy \<Rightarrow> LayerComposition \<Rightarrow> bool \<Rightarrow> DisplayError \<times> Strategy" where
  "Strategy_SetCompositionState st type enable =
     (kErrorNone, if type = kCompositionGPU then st\<lparr>disable_gpu_comp := \<not> enable\<rparr> else st)"

definition Strategy_SetIdleTimeoutMs :: "Strategy \<Rightarrow> u32 \<Rightarrow> DisplayError" where
  "Strategy_SetIdleTimeoutMs st active_ms = kErrorNotSupported"

subsection \<open>The manager\<close>

record DisplayCompositionContext =
  strategy :: Strategy
  constraints :: StrategyConstraints
  display_resource_ctx :: DisplayResourceContext
  display_type :: DisplayType
  max_strategies :: u32
  remaining_strategies :: u32
  idle_fallback :: bool
  thermal_fallback :: bool
  is_primary_panel :: bool
  valid_cursor :: bool
  pu_enable :: bool
  pu_enable_cursor :: bool
  scaled_composition :: bool
  fb_config :: DisplayConfigVariableInfo

record CompManager =
  resource_intf :: "ResourceDefault ptr"
  registered_displays :: "DisplayType set"
  configured_displays :: "DisplayType set"
  display_state :: "DisplayType \<Rightarrow> DisplayState"
  safe_mode :: bool
  secure_external_layer :: bool
  secure_external_transition :: bool
  cm_hw_res_info :: HWResourceInfo
  cm_max_layers :: u32
  max_sde_ext_layers :: u32

definition use_resource :: "CompManager \<Rightarrow> ResourceDefault mem" where
  "use_resource cm = (case resource_intf cm of Live rd \<Rightarrow> Inr rd | Deleted \<Rightarrow> Inl NullDeref)"

definition NeedsScaledComposition :: "DisplayConfigVariableInfo \<Rightarrow> HWMixerAttributes \<Rightarrow> bool" where
  "NeedsScaledComposition fb mixer = (x_pixels fb \<noteq> mix_width mixer \<or> y_pixels fb \<noteq> mix_height mixer)"

definition CompManager_Init :: "HWResourceInfo \<Rightarrow> (DisplayError \<times> CompManager) mem" where
  "CompManager_Init hw =
     mbind (CreateResourceDefault hw) (\<lambda>(error, rd).
       Inr (error, \<lparr>resource_intf = rd, registered_displays = {}, configured_displays = {},
                    display_state = (\<lambda>_. kStateOff), safe_mode = False, secure_external_layer = False,
                    secure_external_transition = False, cm_hw_res_info = hw, cm_max_layers = kMaxSDELayers,
                    max_sde_ext_layers = 0\<rparr>))"

definition Comp_RegisterDisplay :: "DebugHandler \<Rightarrow> DisplayType \<Rightarrow> HWDisplayAttributes \<Rightarrow> HWPanelInfo
    \<Rightarrow> HWMixerAttributes \<Rightarrow> DisplayConfigVariableInfo \<Rightarrow> CompManager
    \<Rightarrow> (DisplayError \<times> DisplayCompositionContext option \<times> CompManager) mem" where
  "Comp_RegisterDisplay dbg type attributes panel mixer fb cm =
     mbind (use_resource cm) (\<lambda>rd.
       let (error, rctx, rd) = Resource_RegisterDisplay type attributes mixer rd
       in Inr (case rctx of
            None \<Rightarrow> (error, None, cm)
          | Some rctx \<Rightarrow>
              (kErrorNone,
               Some \<lparr>strategy = Strategy_new (cm_hw_res_info cm) mixer attributes fb,
                     constraints = \<lparr>sc_safe_mode = False, use_cursor = False, max_layers = kMaxSDELayers\<rparr>,
                     display_resource_ctx = rctx, display_type = type, max_strategies = 0,
                     remaining_strategies = 0, idle_fallback = False, thermal_fallback = False,
                     is_primary_panel = panel_is_primary panel, valid_cursor = False, pu_enable = True,
                     pu_enable_cursor = False, scaled_composition = NeedsScaledComposition fb mixer,
                     fb_config = fb\<rparr>,
               let cm = cm\<lparr>resource_intf := Live rd, registered_displays := insert type (registered_displays cm)\<rparr>
               in if \<not> panel_is_primary panel
                  then cm\<lparr>safe_mode := True, max_sde_ext_layers := word_of_int (GetExtMaxlayers dbg)\<rparr>
                  else cm)))"

definition Comp_UnregisterDisplay :: "DisplayCompositionContext option \<Rightarrow> CompManager
    \<Rightarrow> (DisplayError \<times> CompManager) mem" where
  "Comp_UnregisterDisplay ctx cm =
     (case ctx of
        None \<Rightarrow> Inr (kErrorParameters, cm)
      | Some ctx \<Rightarrow> mbind (use_resource cm) (\<lambda>rd.
          let (e, rd) = Resource_UnregisterDisplay (display_resource_ctx ctx) rd;
              cm = cm\<lparr>resource_intf := Live rd,
                      registered_displays := registered_displays cm - {display_type ctx},
                      configured_displays := configured_displays cm - {display_type ctx}\<rparr>
          in Inr (kErrorNone, if display_type ctx = kHDMI then cm\<lparr>cm_max_layers := kMaxSDELayers\<rparr> else cm)))"

definition Comp_ReconfigureDisplay :: "DisplayCompositionContext \<Rightarrow> HWDisplayAttributes \<Rightarrow> HWPanelInfo
    \<Rightarrow> HWMixerAttributes \<Rightarrow> DisplayConfigVariableInfo \<Rightarrow> CompManager
    \<Rightarrow> (DisplayError \<times> DisplayCompositionContext \<times> CompManager) mem" where
  "Comp_ReconfigureDisplay ctx attributes panel mixer fb cm =
     mbind (use_resource cm) (\<lambda>rd.
       let (error, rctx) = Resource_ReconfigureDisplay (display_resource_ctx ctx) attributes mixer;
           ctx = ctx\<lparr>display_resource_ctx := rctx\<rparr>
       in if error \<noteq> kErrorNone then Inr (error, ctx, cm)
          else let (error, st) = Strategy_Reconfigure (strategy ctx) attributes mixer fb;
                   ctx = ctx\<lparr>strategy := st\<rparr>
       in if error \<noteq> kErrorNone then Inr (error, ctx, cm)
          else Inr (error, ctx\<lparr>scaled_composition := NeedsScaledComposition fb mixer, fb_config := fb\<rparr>,
                    if display_type ctx = kHDMI
                    then cm\<lparr>cm_max_layers := (if s3d_mode panel \<noteq> kS3DModeNone then 0 else kMaxSDELayers)\<rparr>
                    else cm))"

definition kSafeModeThreshold :: u32 where
  "kSafeModeThreshold = 4"

definition low_end_hw :: "HWResourceInfo \<Rightarrow> bool" where
  "low_end_hw hw = (total_pipes hw \<le> kSafeModeThreshold)"

definition skip_layers :: "LayerStack \<Rightarrow> LayerStack" where
  "skip_layers s = s\<lparr>skip_present := True,
     layers := map (\<lambda>l. if composition l \<noteq> kCompositionGPUTarget then l\<lparr>l_skip := True\<rparr> else l) (layers s)\<rparr>"

text \<open>The part for displays that are not the primary panel.\<close>

definition external_constraints :: "HWLayers \<Rightarrow> DisplayCompositionContext \<Rightarrow> CompManager
    \<Rightarrow> DisplayCompositionContext \<times> CompManager" where
  "external_constraints hl ctx cm =
     (let hw = cm_hw_res_info cm;
          secure = secure_present (stack (info hl));
          c = (constraints ctx)\<lparr>max_layers := max_sde_ext_layers cm,
                sc_safe_mode := (if low_end_hw hw \<and> \<not> separate_rotator hw then True else safe_mode cm)\<rparr>
      in (ctx\<lparr>constraints := c\<rparr>,
          if secure_external_layer cm \<noteq> secure
          then cm\<lparr>secure_external_layer := secure, secure_external_transition := True\<rparr> else cm))"

definition PrepareStrategyConstraints :: "HWLayers \<Rightarrow> DisplayCompositionContext \<Rightarrow> CompManager
    \<Rightarrow> HWLayers \<times> DisplayCompositionContext \<times> CompManager" where
  "PrepareStrategyConstraints hl ctx cm =
     (let ctx = ctx\<lparr>constraints := \<lparr>sc_safe_mode = safe_mode cm, use_cursor = False, max_layers = cm_max_layers cm\<rparr>\<rparr>;
          (ctx, cm) = (if \<not> is_primary_panel ctx then external_constraints hl ctx cm else (ctx, cm));
          secure = (is_primary_panel ctx \<and> 1 < card (registered_displays cm) \<and> secure_external_layer cm);
          low = low_end_hw (cm_hw_res_info cm);
          hl = (if secure \<and> low then hl\<lparr>info := (info hl)\<lparr>stack := skip_layers (stack (info hl))\<rparr>\<rparr> else hl);
          transition = (secure \<and> \<not> low \<and> secure_external_transition cm);
          safe = (sc_safe_mode (constraints ctx) \<or> transition \<or> remaining_strategies ctx \<noteq> max_strategies ctx
                  \<or> idle_fallback ctx \<or> thermal_fallback ctx)
      in (hl,
          ctx\<lparr>constraints := (constraints ctx)\<lparr>sc_safe_mode := safe, use_cursor := valid_cursor ctx\<rparr>\<rparr>,
          if transition then cm\<lparr>secure_external_transition := False\<rparr> else cm))"

definition Resource_ValidateCursorConfig :: "Layer \<Rightarrow> bool \<Rightarrow> DisplayError" where
  "Resource_ValidateCursorConfig layer is_top = kErrorNotSupported"

text \<open>The last layer that is a target of the GPU, as the loop from the top finds it.\<close>

fun last_target :: "Layer list \<Rightarrow> nat option" where
  "last_target [] = None"
| "last_target (l # ls) =
     (case last_target ls of
        Some i \<Rightarrow> Some (Suc i)
      | None \<Rightarrow> if composition l = kCompositionGPUTarget then Some 0 else None)"

definition SupportLayerAsCursor :: "DisplayCompositionContext \<Rightarrow> HWLayers \<Rightarrow> bool" where
  "SupportLayerAsCursor ctx hl =
     (let s = stack (info hl)
      in if scaled_composition ctx \<or> \<not> cursor_present s then False
         else case last_target (layers s) of
                Some (Suc i) \<Rightarrow>
                  (let cursor_layer = layers s ! i
                   in l_cursor cursor_layer \<and> \<not> l_skip cursor_layer \<and>
                      Resource_ValidateCursorConfig cursor_layer True = kErrorNone)
              | _ \<Rightarrow> False)"

definition PrePrepare :: "HWLayers \<Rightarrow> DisplayCompositionContext \<Rightarrow> HWLayers \<times> DisplayCompositionContext" where
  "PrePrepare hl ctx =
     (let cursor = SupportLayerAsCursor ctx hl;
          (error, attempts, st, i) = Strategy_Start (strategy ctx) (info hl);
          m = (case attempts of Some n \<Rightarrow> n | None \<Rightarrow> max_strategies ctx)
      in (hl\<lparr>info := i\<rparr>,
          ctx\<lparr>valid_cursor := cursor, pu_enable_cursor := cursor, strategy := st, max_strategies := m,
              remaining_strategies := m\<rparr>))"

text \<open>The loop of \<open>Prepare\<close> over the remaining strategies.\<close>

fun prepare_loop :: "fp_env \<Rightarrow> DisplayCompositionContext \<Rightarrow> nat \<Rightarrow> DisplayError \<Rightarrow> HWLayers \<Rightarrow> ResourceDefault
    \<Rightarrow> (DisplayError \<times> nat \<times> HWLayers \<times> ResourceDefault) mem" where
  "prepare_loop fp ctx 0 error hl rd = Inr (error, 0, hl, rd)"
| "prepare_loop fp ctx (Suc count) error hl rd =
     mbind (GetNextStrategy fp (strategy ctx) (info hl)) (\<lambda>(error, i).
       let hl = hl\<lparr>info := i\<rparr>
       in if error \<noteq> kErrorNone then Inr (error, count, hl, rd)
          else mbind (Resource_Prepare fp (display_resource_ctx ctx) (hw_layers i) (hwl_config hl) rd)
            (\<lambda>(error, c, rd).
               let hl = hl\<lparr>hwl_config := c\<rparr>
               in if error = kErrorNone then Inr (error, count, hl, rd)
                  else prepare_loop fp ctx count error hl rd))"

definition Comp_Prepare :: "fp_env \<Rightarrow> HWLayers \<Rightarrow> DisplayCompositionContext \<Rightarrow> CompManager
    \<Rightarrow> (DisplayError \<times> HWLayers \<times> DisplayCompositionContext \<times> CompManager) mem" where
  "Comp_Prepare fp hl ctx cm =
     (let (hl, ctx, cm) = PrepareStrategyConstraints hl ctx cm
      in mbind (use_resource cm) (\<lambda>rd.
         mbind (prepare_loop fp ctx (unat (remaining_strategies ctx)) kErrorUndefined hl rd)
           (\<lambda>(error, count, hl, rd).
              Inr (error, hl, ctx\<lparr>remaining_strategies := of_nat count\<rparr>, cm\<lparr>resource_intf := Live rd\<rparr>))))"

definition Comp_ReConfigure :: "fp_env \<Rightarrow> HWLayers \<Rightarrow> DisplayCompositionContext \<Rightarrow> CompManager
    \<Rightarrow> (DisplayError \<times> HWLayers \<times> CompManager) mem" where
  "Comp_ReConfigure fp hl ctx cm =
     mbind (use_resource cm) (\<lambda>rd.
     mbind (Resource_Prepare fp (display_resource_ctx ctx) (hw_layers (info hl)) (hwl_config hl) rd)
       (\<lambda>(error, c, rd).
          let error = (if error \<noteq> kErrorNone then kErrorNone else error)
          in Inr (error, hl\<lparr>hwl_config := c\<rparr>, cm\<lparr>resource_intf := Live rd\<rparr>)))"

text \<open>The default resource manager does nothing after the preparation and before the commit of a frame.\<close>

definition Comp_PostPrepare :: "DisplayCompositionContext \<Rightarrow> CompManager \<Rightarrow> DisplayError mem" where
  "Comp_PostPrepare ctx cm = mbind (use_resource cm) (\<lambda>rd. Inr kErrorNone)"

definition Comp_Commit :: "DisplayCompositionContext \<Rightarrow> CompManager \<Rightarrow> DisplayError mem" where
  "Comp_Commit ctx cm = mbind (use_resource cm) (\<lambda>rd. Inr kErrorNone)"

definition Comp_PostCommit :: "HWLayers \<Rightarrow> DisplayCompositionContext \<Rightarrow> CompManager
    \<Rightarrow> (DisplayError \<times> DisplayCompositionContext \<times> CompManager) mem" where
  "Comp_PostCommit hl ctx cm =
     (let configured = insert (display_type ctx) (configured_displays cm);
          cm = cm\<lparr>configured_displays := configured,
                  safe_mode := (if configured = registered_displays cm then False else safe_mode cm)\<rparr>
      in mbind (use_resource cm) (\<lambda>rd.
           let (error, closed, rctx, rd) = Resource_PostCommit (display_resource_ctx ctx) (sync_handle hl) rd;
               ctx = ctx\<lparr>display_resource_ctx := rctx\<rparr>;
               cm = cm\<lparr>resource_intf := Live rd\<rparr>
           in Inr (if error \<noteq> kErrorNone then (error, ctx, cm)
                   else (kErrorNone, ctx\<lparr>idle_fallback := False\<rparr>, cm))))"

definition Comp_Purge :: "DisplayCompositionContext \<Rightarrow> CompManager \<Rightarrow> CompManager mem" where
  "Comp_Purge ctx cm =
     mbind (use_resource cm) (\<lambda>rd. Inr (cm\<lparr>resource_intf := Live (Resource_Purge (display_resource_ctx ctx) rd)\<rparr>))"

definition Comp_SetIdleTimeoutMs :: "DisplayCompositionContext \<Rightarrow> u32 \<Rightarrow> DisplayError" where
  "Comp_SetIdleTimeoutMs ctx active_ms = Strategy_SetIdleTimeoutMs (strategy ctx) active_ms"

definition ProcessIdleTimeout :: "DisplayCompositionContext option \<Rightarrow> DisplayCompositionContext option" where
  "ProcessIdleTimeout ctx = map_option (\<lambda>c. c\<lparr>idle_fallback := True\<rparr>) ctx"

definition kMaxThermalLevel :: int where
  "kMaxThermalLevel = 3"

definition ProcessThermalEvent :: "int \<Rightarrow> DisplayCompositionContext \<Rightarrow> DisplayCompositionContext" where
  "ProcessThermalEvent thermal_level ctx = ctx\<lparr>thermal_fallback := (kMaxThermalLevel \<le> thermal_level)\<rparr>"

definition ControlPartialUpdate :: "bool \<Rightarrow> DisplayCompositionContext \<Rightarrow> DisplayCompositionContext" where
  "ControlPartialUpdate enable ctx = ctx\<lparr>pu_enable := enable\<rparr>"

definition Comp_ValidateScaling :: "DebugHandler \<Rightarrow> fp_env \<Rightarrow> LayerRect \<Rightarrow> LayerRect \<Rightarrow> CompManager \<Rightarrow> DisplayError mem" where
  "Comp_ValidateScaling dbg fp crop dst cm =
     mbind (use_resource cm)
       (\<lambda>rd. Inr (ValidateScaling fp (hw_res_info rd) crop dst (if IsUbwcTiledFrameBuffer dbg then kUBWC else kLinear)))"

text \<open>The default resource manager accepts any number of stages, has no scaling table and no detail enhancer.\<close>

definition Comp_SetMaxMixerStages :: "DisplayCompositionContext option \<Rightarrow> u32 \<Rightarrow> CompManager \<Rightarrow> DisplayError mem" where
  "Comp_SetMaxMixerStages ctx max_mixer_stages cm =
     (case ctx of None \<Rightarrow> Inr kErrorNone | Some ctx \<Rightarrow> mbind (use_resource cm) (\<lambda>rd. Inr kErrorNone))"

definition Comp_GetScaleLutConfig :: "CompManager \<Rightarrow> DisplayError mem" where
  "Comp_GetScaleLutConfig cm = mbind (use_resource cm) (\<lambda>rd. Inr kErrorNone)"

definition Comp_SetDetailEnhancerData :: "CompManager \<Rightarrow> DisplayError mem" where
  "Comp_SetDetailEnhancerData cm = mbind (use_resource cm) (\<lambda>rd. Inr kErrorNotSupported)"

definition Resource_SetMaxBandwidthMode :: "HWBwModes \<Rightarrow> DisplayError" where
  "Resource_SetMaxBandwidthMode mode = kErrorNotSupported"

definition Comp_SetMaxBandwidthMode :: "HWBwModes \<Rightarrow> CompManager \<Rightarrow> DisplayError mem" where
  "Comp_SetMaxBandwidthMode mode cm =
     (if \<not> has_dyn_bw_support (cm_hw_res_info cm) \<or> mode = kBwModeMax then Inr kErrorNotSupported
      else mbind (use_resource cm) (\<lambda>rd. Inr (Resource_SetMaxBandwidthMode mode)))"

definition Comp_SetCompositionState :: "LayerComposition \<Rightarrow> bool \<Rightarrow> DisplayCompositionContext
    \<Rightarrow> DisplayError \<times> DisplayCompositionContext" where
  "Comp_SetCompositionState type enable ctx =
     (let (error, st) = Strategy_SetCompositionState (strategy ctx) type enable
      in (error, ctx\<lparr>strategy := st\<rparr>))"

definition SetDisplayState :: "DisplayState \<Rightarrow> DisplayType \<Rightarrow> DisplayCompositionContext option \<Rightarrow> CompManager
    \<Rightarrow> (bool \<times> CompManager) mem" where
  "SetDisplayState state type ctx cm =
     (let cm = cm\<lparr>display_state := (display_state cm)(type := state)\<rparr>
      in case state of
           kStateOff \<Rightarrow>
             (case ctx of
                None \<Rightarrow> Inl NullDeref
              | Some ctx \<Rightarrow> mbind (Comp_Purge ctx cm)
                  (\<lambda>cm. Inr (True, cm\<lparr>configured_displays := configured_displays cm - {type}\<rparr>)))
         | kStateOn \<Rightarrow> Inr (True, if 1 < card (registered_displays cm) then cm\<lparr>safe_mode := True\<rparr> else cm)
         | _ \<Rightarrow> Inr (True, cm))"

subsection \<open>Sequences of requests\<close>

record comp_system =
  cs_cm :: CompManager
  cs_disp :: "DisplayType \<Rightarrow> DisplayCompositionContext option"

datatype comp_dop =
    CUnregister
  | CReconfigure HWDisplayAttributes HWPanelInfo HWMixerAttributes DisplayConfigVariableInfo
  | CPrePrepare HWLayers
  | CPrepare HWLayers
  | CReConfigureFrame HWLayers
  | CPostCommit HWLayers
  | CPurge
  | CIdleTimeout
  | CThermal int
  | CPartialUpdate bool
  | CCompositionState LayerComposition bool
  | CDisplayState DisplayState

datatype comp_op =
    CRegister DisplayType HWDisplayAttributes HWPanelInfo HWMixerAttributes DisplayConfigVariableInfo
  | COn DisplayType comp_dop

fun comp_on :: "fp_env \<Rightarrow> comp_dop \<Rightarrow> DisplayCompositionContext \<Rightarrow> CompManager
    \<Rightarrow> (DisplayCompositionContext option \<times> CompManager) mem" where
  "comp_on fp CUnregister ctx cm =
     mbind (Comp_UnregisterDisplay (Some ctx) cm) (\<lambda>(e, cm). Inr (None, cm))"
| "comp_on fp (CReconfigure a p m fb) ctx cm =
     mbind (Comp_ReconfigureDisplay ctx a p m fb cm) (\<lambda>(e, ctx, cm). Inr (Some ctx, cm))"
| "comp_on fp (CPrePrepare hl) ctx cm = Inr (Some (snd (PrePrepare hl ctx)), cm)"
| "comp_on fp (CPrepare hl) ctx cm =
     mbind (Comp_Prepare fp hl ctx cm) (\<lambda>(e, hl, ctx, cm). Inr (Some ctx, cm))"
| "comp_on fp (CReConfigureFrame hl) ctx cm =
     mbind (Comp_ReConfigure fp hl ctx cm) (\<lambda>(e, hl, cm). Inr (Some ctx, cm))"
| "comp_on fp (CPostCommit hl) ctx cm =
     mbind (Comp_PostCommit hl ctx cm) (\<lambda>(e, ctx, cm). Inr (Some ctx, cm))"
| "comp_on fp CPurge ctx cm = mbind (Comp_Purge ctx cm) (\<lambda>cm. Inr (Some ctx, cm))"
| "comp_on fp CIdleTimeout ctx cm = Inr (ProcessIdleTimeout (Some ctx), cm)"
| "comp_on fp (CThermal level) ctx cm = Inr (Some (ProcessThermalEvent level ctx), cm)"
| "comp_on fp (CPartialUpdate enable) ctx cm = Inr (Some (ControlPartialUpdate enable ctx), cm)"
| "comp_on fp (CCompositionState type enable) ctx cm =
     Inr (Some (snd (Comp_SetCompositionState type enable ctx)), cm)"
| "comp_on fp (CDisplayState state) ctx cm =
     mbind (SetDisplayState state (display_type ctx) (Some ctx) cm) (\<lambda>(ok, cm). Inr (Some ctx, cm))"

fun comp_exec :: "DebugHandler \<Rightarrow> fp_env \<Rightarrow> comp_op \<Rightarrow> comp_system \<Rightarrow> comp_system mem" where
  "comp_exec dbg fp (CRegister t a p m fb) s =
     mbind (Comp_RegisterDisplay dbg t a p m fb (cs_cm s)) (\<lambda>(e, ctx, cm).
       Inr \<lparr>cs_cm = cm, cs_disp = (if e = kErrorNone then (cs_disp s)(t := ctx) else cs_disp s)\<rparr>)"
| "comp_exec dbg fp (COn t op) s =
     (case cs_disp s t of
        None \<Rightarrow> Inl NullDeref
      | Some ctx \<Rightarrow> mbind (comp_on fp op ctx (cs_cm s))
          (\<lambda>(ctx, cm). Inr \<lparr>cs_cm = cm, cs_disp = (cs_disp s)(t := ctx)\<rparr>))"

text \<open>The layer information of a frame is consistent: its indices lie in the stack.\<close>

definition frame_wf :: "HWLayersInfo \<Rightarrow> bool" where
  "frame_wf i = (unat (app_layer_count i) \<le> length (layers (stack i)) \<and>
                 unat (gpu_target_index i) < length (layers (stack i)))"

fun comp_client_ok :: "comp_op \<Rightarrow> comp_system \<Rightarrow> bool" where
  "comp_client_ok (CRegister t a p m fb) s = True"
| "comp_client_ok (COn t (CPrepare hl)) s = (cs_disp s t \<noteq> None \<and> frame_wf (info hl))"
| "comp_client_ok (COn t (CReConfigureFrame hl)) s = (cs_disp s t \<noteq> None \<and> hw_layers (info hl) \<noteq> [])"
| "comp_client_ok (COn t op) s = (cs_disp s t \<noteq> None)"

definition comp_step :: "DebugHandler \<Rightarrow> fp_env \<Rightarrow> comp_op \<Rightarrow> comp_system \<Rightarrow> comp_system \<Rightarrow> bool" where
  "comp_step dbg fp op s t = (comp_client_ok op s \<and> comp_exec dbg fp op s = Inr t)"

definition comp_start :: "CompManager \<Rightarrow> comp_system" where
  "comp_start cm = \<lparr>cs_cm = cm, cs_disp = (\<lambda>_. None)\<rparr>"

text \<open>The resource manager and its contexts, as the composition manager holds them.\<close>

definition res_view :: "ResourceDefault \<Rightarrow> (DisplayType \<Rightarrow> DisplayCompositionContext option) \<Rightarrow> res_system" where
  "res_view rd disp = \<lparr>sys_rd = rd, sys_ctx = (\<lambda>t. map_option display_resource_ctx (disp t))\<rparr>"

definition ctx_inv :: "DisplayType \<Rightarrow> DisplayCompositionContext \<Rightarrow> bool" where
  "ctx_inv t ctx = (display_type ctx = t \<and> (0 < remaining_strategies ctx \<longrightarrow> st_started (strategy ctx)) \<and>
                    (0 < max_strategies ctx \<longrightarrow> st_started (strategy ctx)))"

definition comp_inv :: "HWResourceInfo \<Rightarrow> comp_system \<Rightarrow> bool" where
  "comp_inv hw s =
     ((\<exists>rd. resource_intf (cs_cm s) = Live rd \<and> res_inv hw (res_view rd (cs_disp s))) \<and>
      (\<forall>t ctx. cs_disp s t = Some ctx \<longrightarrow> ctx_inv t ctx) \<and>
      registered_displays (cs_cm s) = {t. cs_disp s t \<noteq> None} \<and>
      configured_displays (cs_cm s) \<subseteq> registered_displays (cs_cm s))"

text \<open>
  The displays that show a frame after a sequence of requests: those with a commit since they were
  last switched off or unregistered.
\<close>

fun shown_by :: "comp_op \<Rightarrow> DisplayType set \<Rightarrow> DisplayType set" where
  "shown_by (COn t (CPostCommit hl)) d = insert t d"
| "shown_by (COn t CUnregister) d = d - {t}"
| "shown_by (COn t (CDisplayState kStateOff)) d = d - {t}"
| "shown_by op d = d"

definition shown :: "comp_op list \<Rightarrow> DisplayType set" where
  "shown ops = fold shown_by ops {}"

text \<open>
  A frame in the resolution of the mixer: the target of the GPU stands behind the layers of the
  applications and covers the display without scaling.
\<close>

definition gpu_frame :: "Strategy \<Rightarrow> HWLayersInfo \<Rightarrow> bool" where
  "gpu_frame st i =
     (frame_wf i \<and> unat (app_layer_count i) \<le> unat (gpu_target_index i) \<and> gpu_target_index i \<noteq> 0 \<and>
      x_pixels (st_fb_config st) = mix_width (st_mixer st) \<and> y_pixels (st_fb_config st) = mix_height (st_mixer st) \<and>
      full_frame (uint (mix_width (st_mixer st))) (uint (mix_height (st_mixer st)))
        (layers (stack i) ! unat (gpu_target_index i)))"

text \<open>An example: the primary panel of the example of the resource manager, and one application.\<close>

definition dbg0 :: DebugHandler where
  "dbg0 = DefaultDebugHandler"

definition fb0 :: DisplayConfigVariableInfo where
  "fb0 = \<lparr>x_pixels = 1080, y_pixels = 1920, x_dpi = Fin 424, y_dpi = Fin 424, fps = 60, vsync_period_ns = 16666666,
     is_yuv = False\<rparr>"

definition panel0 :: HWPanelInfo where
  "panel0 = \<lparr>panel_port = kPortDSI, panel_mode = kModeVideo, partial_update = False, left_align = 1, width_align = 1,
     top_align = 1, height_align = 1, min_roi_width = 1, min_roi_height = 1, needs_roi_merge = False, dynamic_fps = False,
     dfps_porch_mode = False, ping_pong_split = False, min_fps = 60, max_fps = 60, panel_is_primary = True,
     split_info = \<lparr>left_split = 0, right_split = 0\<rparr>, s3d_mode = kS3DModeNone, left_roi_count = 1, right_roi_count = 1,
     bitclk_update = False, bitclk_rates = []\<rparr>"

definition hwl0 :: HWLayers where
  "hwl0 = \<lparr>info = \<lparr>stack = \<lparr>layers = [layer0\<lparr>composition := kCompositionGPU\<rparr>, layer0], skip_present = False,
       secure_present = False, animating = False, attributes_changed = False, cursor_present = False,
       single_buffered_layer_present = False, s3d_mode_present = False, hdr_present = False\<rparr>, app_layer_count = 1, gpu_target_index = 1, hw_layers = [],
       hw_index = 0, left_frame_roi = [], right_frame_roi = []\<rparr>, hwl_config = config0, sync_handle = - 1,
     hw_avr_enable = False\<rparr>"

definition cm0 :: CompManager where
  "cm0 = \<lparr>resource_intf = Live rd0, registered_displays = {}, configured_displays = {},
     display_state = (\<lambda>_. kStateOff), safe_mode = False, secure_external_layer = False,
     secure_external_transition = False, cm_hw_res_info = hw0, cm_max_layers = kMaxSDELayers, max_sde_ext_layers = 0\<rparr>"

definition comp_ctx0 :: DisplayCompositionContext where
  "comp_ctx0 = \<lparr>strategy = Strategy_new hw0 mixer0 attr0 fb0,
     constraints = \<lparr>sc_safe_mode = False, use_cursor = False, max_layers = kMaxSDELayers\<rparr>,
     display_resource_ctx = ctx0, display_type = kPrimary, max_strategies = 0, remaining_strategies = 0,
     idle_fallback = False, thermal_fallback = False, is_primary_panel = True, valid_cursor = False, pu_enable = True,
     pu_enable_cursor = False, scaled_composition = False, fb_config = fb0\<rparr>"

definition comp_sys0 :: comp_system where
  "comp_sys0 = \<lparr>cs_cm = cm0\<lparr>resource_intf := Live (sys_rd sys0), registered_displays := {kPrimary}\<rparr>,
     cs_disp = (\<lambda>t. if t = kPrimary then Some comp_ctx0 else None)\<rparr>"

text \<open>The same hardware with one external display only, before and after its first commit.\<close>

definition hdmi_ctx :: DisplayCompositionContext where
  "hdmi_ctx = comp_ctx0\<lparr>display_type := kHDMI, is_primary_panel := False,
     display_resource_ctx := ctx0\<lparr>ctx_block := kHWHDMI\<rparr>\<rparr>"

definition hdmi_sys :: comp_system where
  "hdmi_sys = \<lparr>cs_cm = cm0\<lparr>resource_intf := Live (rd0\<lparr>hw_block_ctx := (\<lambda>b. b = kHWHDMI)\<rparr>), safe_mode := True,
       registered_displays := {kHDMI}, max_sde_ext_layers := 2\<rparr>,
     cs_disp = (\<lambda>t. if t = kHDMI then Some hdmi_ctx else None)\<rparr>"

definition hdmi_shown :: comp_system where
  "hdmi_shown = \<lparr>cs_cm = (cs_cm hdmi_sys)\<lparr>configured_displays := {kHDMI}, safe_mode := False\<rparr>,
     cs_disp = (\<lambda>t. if t = kHDMI
       then Some (hdmi_ctx\<lparr>display_resource_ctx := (display_resource_ctx hdmi_ctx)\<lparr>frame_count := 1\<rparr>\<rparr>) else None)\<rparr>"

definition hdmi_panel :: HWPanelInfo where
  "hdmi_panel = panel0\<lparr>panel_is_primary := False\<rparr>"

text \<open>What one request of a display does to the configured displays and to safe mode.\<close>

definition modes_ok :: "DisplayType \<Rightarrow> comp_dop \<Rightarrow> CompManager \<Rightarrow> CompManager \<Rightarrow> bool" where
  "modes_ok t d cm cm' =
     (configured_displays cm' = shown_by (COn t d) (configured_displays cm) \<and>
      (safe_mode cm \<and> \<not> safe_mode cm' \<longrightarrow>
         (\<exists>hl. d = CPostCommit hl) \<and> configured_displays cm' = registered_displays cm'))"

subsection \<open>The invariant\<close>

lemma use_resource_Live [simp]: "resource_intf cm = Live rd \<Longrightarrow> use_resource cm = Inr rd"
  by (simp add: use_resource_def)

lemma res_view_sel [simp]:
  "sys_rd (res_view rd disp) = rd" "sys_ctx (res_view rd disp) t = map_option display_resource_ctx (disp t)"
  by (simp_all add: res_view_def)

lemma res_view_upd:
  "res_view rd (disp(t := ctx)) = \<lparr>sys_rd = rd, sys_ctx = (sys_ctx (res_view rd' disp))(t := map_option display_resource_ctx ctx)\<rparr>"
  by (auto simp: res_view_def)

text \<open>A request of the resource manager, seen from the composition manager.\<close>

lemma res_on_view:
  assumes "res_inv hw (res_view rd disp)" "disp t = Some ctx" "client_ok (On t op) (res_view rd disp)"
    and "res_on fp op (display_resource_ctx ctx) rd = Inr (e, rctx', rd')"
    and "map_option display_resource_ctx ctx' = rctx'"
  shows "res_inv hw (res_view rd' (disp(t := ctx')))"
  using res_on_ok [OF assms(1) _ assms(3), of "display_resource_ctx ctx" fp] assms(2,4,5)
  by (simp add: res_view_upd [where rd' = rd])

lemma GetNextStrategy_ok:
  assumes "st_started st \<or> disable_gpu_comp st" "frame_wf i"
  shows "ensures (GetNextStrategy fp st i) (\<lambda>(e, i'). frame_wf i' \<and> (e = kErrorNone \<longrightarrow> hw_layers i' \<noteq> []))"
  using assms by (auto simp: GetNextStrategy_def frame_wf_def Let_def)

lemma prepare_loop_ok:
  assumes "pipes_inv hw rd" "hw_block_ctx rd (ctx_block rctx)" "ctx_block rctx \<noteq> kHWBlockMax"
    and "display_resource_ctx ctx = rctx" and "0 < n \<longrightarrow> st_started (strategy ctx)" and "frame_wf (info hl)"
  shows "ensures (prepare_loop fp ctx n error hl rd)
    (\<lambda>(e, n', hl', rd'). frame_ok hw (ctx_block rctx) rd rd' \<and> n' \<le> n)"
  using assms
proof (induction n arbitrary: error hl rd)
  case 0
  then show ?case by (simp add: frame_ok_refl)
next
  case (Suc n)
  have st: "st_started (strategy ctx) \<or> disable_gpu_comp (strategy ctx)" using Suc.prems(5) by simp
  obtain e i where g: "GetNextStrategy fp (strategy ctx) (info hl) = Inr (e, i)" "frame_wf i"
      "e = kErrorNone \<longrightarrow> hw_layers i \<noteq> []"
    using GetNextStrategy_ok [OF st Suc.prems(6), of fp] by (auto simp: ensures_iff)
  show ?case
  proof (cases "e = kErrorNone")
    case False
    then show ?thesis using g Suc.prems(1) by (simp add: frame_ok_refl)
  next
    case True
    then obtain e' c rd1 where p: "Resource_Prepare fp rctx (hw_layers i) (hwl_config hl) rd = Inr (e', c, rd1)"
        and fr: "frame_ok hw (ctx_block rctx) rd rd1"
      using Resource_Prepare_ok [OF Suc.prems(1-3), of "hw_layers i" fp "hwl_config hl"] g(3)
      by (auto simp: ensures_iff)
    have "ensures (prepare_loop fp ctx n e' (hl\<lparr>info := i, hwl_config := c\<rparr>) rd1)
        (\<lambda>(e, n', hl', rd'). frame_ok hw (ctx_block rctx) rd1 rd' \<and> n' \<le> n)"
      using Suc.prems fr g(2) by (intro Suc.IH) (auto simp: frame_ok_def)
    then have "ensures (prepare_loop fp ctx n e' (hl\<lparr>info := i, hwl_config := c\<rparr>) rd1)
        (\<lambda>(e, n', hl', rd'). frame_ok hw (ctx_block rctx) rd rd' \<and> n' \<le> Suc n)"
      by (rule ensures_mono) (use fr in \<open>auto intro: frame_ok_trans\<close>)
    then show ?thesis
      using g(1) True p fr Suc.prems(4) by (simp add: Let_def)
  qed
qed

text \<open>The constraints of a frame touch neither the resource manager nor the set of displays.\<close>

lemma PrepareStrategyConstraints_frame:
  assumes "PrepareStrategyConstraints hl ctx cm = (hl', ctx', cm')"
  shows "resource_intf cm' = resource_intf cm \<and> registered_displays cm' = registered_displays cm \<and>
    configured_displays cm' = configured_displays cm \<and> display_resource_ctx ctx' = display_resource_ctx ctx \<and>
    display_type ctx' = display_type ctx \<and> strategy ctx' = strategy ctx \<and>
    remaining_strategies ctx' = remaining_strategies ctx \<and> max_strategies ctx' = max_strategies ctx \<and>
    (frame_wf (info hl) \<longrightarrow> frame_wf (info hl')) \<and> safe_mode cm' = safe_mode cm"
  using assms
  by (auto simp: PrepareStrategyConstraints_def external_constraints_def Let_def frame_wf_def skip_layers_def
      split: if_splits)

lemma view_frame:
  assumes "res_inv hw (res_view rd disp)" "disp t = Some ctx" "frame_ok hw b rd rd'"
    and "ctx_block (display_resource_ctx ctx') = ctx_block (display_resource_ctx ctx)"
  shows "res_inv hw (res_view rd' (disp(t := Some ctx')))"
  using res_inv_frame [OF assms(1), of t "display_resource_ctx ctx" b rd' "display_resource_ctx ctx'"] assms(2-4)
  by (simp add: res_view_upd [where rd' = rd])

lemma comp_inv_displays:
  assumes "comp_inv hw s"
  shows "registered_displays (cs_cm s) = {t. cs_disp s t \<noteq> None}"
    "configured_displays (cs_cm s) \<subseteq> registered_displays (cs_cm s)"
    "\<forall>t ctx. cs_disp s t = Some ctx \<longrightarrow> ctx_inv t ctx"
  using assms unfolding comp_inv_def by blast+

lemma comp_inv_upd:
  assumes "comp_inv hw s" "cs_disp s t = Some ctx" "resource_intf cm' = Live rd'"
    and "res_inv hw (res_view rd' ((cs_disp s)(t := Some ctx')))" "ctx_inv t ctx'"
    and "registered_displays cm' = registered_displays (cs_cm s)"
    and "configured_displays cm' \<subseteq> insert t (configured_displays (cs_cm s))"
  shows "comp_inv hw \<lparr>cs_cm = cm', cs_disp = (cs_disp s)(t := Some ctx')\<rparr>"
proof -
  have "t \<in> registered_displays (cs_cm s)"
    using comp_inv_displays [OF assms(1)] assms(2) by simp
  then have "configured_displays cm' \<subseteq> registered_displays cm'"
    "registered_displays cm' = {t'. ((cs_disp s)(t := Some ctx')) t' \<noteq> None}"
    using assms(2,6,7) comp_inv_displays [OF assms(1)] by auto
  then show ?thesis
    using assms comp_inv_displays(3) [OF assms(1)] unfolding comp_inv_def by simp
qed

text \<open>A request that changes the context only, not its resource part.\<close>

lemma comp_inv_ctx:
  assumes inv: "comp_inv hw s" and t: "cs_disp s t = Some ctx"
    and "display_resource_ctx ctx' = display_resource_ctx ctx" "ctx_inv t ctx'"
    and "resource_intf cm' = resource_intf (cs_cm s)" "registered_displays cm' = registered_displays (cs_cm s)"
    and "configured_displays cm' \<subseteq> insert t (configured_displays (cs_cm s))"
  shows "comp_inv hw \<lparr>cs_cm = cm', cs_disp = (cs_disp s)(t := Some ctx')\<rparr>"
proof -
  obtain rd where rd: "resource_intf (cs_cm s) = Live rd" "res_inv hw (res_view rd (cs_disp s))"
    using inv by (auto simp: comp_inv_def)
  have "pipes_inv hw rd" using rd(2) by (simp add: res_inv_def)
  then have "res_inv hw (res_view rd ((cs_disp s)(t := Some ctx')))"
    using assms(3) by (intro view_frame [OF rd(2) t frame_ok_refl]) simp_all
  then show ?thesis
    using assms rd(1) by (intro comp_inv_upd [OF inv t]) simp_all
qed

lemma Comp_Prepare_ok:
  assumes inv: "comp_inv hw s" and t: "cs_disp s t = Some ctx" and wf: "frame_wf (info hl)"
  shows "ensures (Comp_Prepare fp hl ctx (cs_cm s))
    (\<lambda>(e, hl', ctx', cm'). comp_inv hw \<lparr>cs_cm = cm', cs_disp = (cs_disp s)(t := Some ctx')\<rparr>)"
proof -
  obtain hl1 ctx1 cm1 where c: "PrepareStrategyConstraints hl ctx (cs_cm s) = (hl1, ctx1, cm1)"
    by (cases "PrepareStrategyConstraints hl ctx (cs_cm s)")
  note f = PrepareStrategyConstraints_frame [OF c]
  obtain rd where rd: "resource_intf (cs_cm s) = Live rd" "res_inv hw (res_view rd (cs_disp s))"
    using inv by (auto simp: comp_inv_def)
  have ci: "ctx_inv t ctx" using inv t by (simp add: comp_inv_def)
  have r: "hw_block_ctx rd (ctx_block (display_resource_ctx ctx))" "ctx_block (display_resource_ctx ctx) \<noteq> kHWBlockMax"
      "pipes_inv hw rd"
    using res_inv_ctx [OF rd(2), of t "display_resource_ctx ctx"] t by simp_all
  let ?n = "unat (remaining_strategies ctx)"
  have "ensures (prepare_loop fp ctx1 ?n kErrorUndefined hl1 rd)
    (\<lambda>(e, n', hl', rd'). frame_ok hw (ctx_block (display_resource_ctx ctx)) rd rd' \<and> n' \<le> ?n)"
    using ci wf f r by (intro prepare_loop_ok) (auto simp: ctx_inv_def unat_gt_0 word_neq_0_conv)
  then obtain e n hl2 rd' where l: "prepare_loop fp ctx1 ?n kErrorUndefined hl1 rd = Inr (e, n, hl2, rd')"
      "frame_ok hw (ctx_block (display_resource_ctx ctx)) rd rd'" "n \<le> ?n"
    by (auto simp: ensures_iff)
  have "0 < (of_nat n :: u32) \<longrightarrow> 0 < remaining_strategies ctx"
    using l(3) by (cases "n = 0") (auto simp: word_neq_0_conv [symmetric] unat_gt_0 [symmetric])
  then have "ctx_inv t (ctx1\<lparr>remaining_strategies := of_nat n\<rparr>)"
    using ci f by (auto simp: ctx_inv_def)
  moreover have "res_inv hw (res_view rd' ((cs_disp s)(t := Some (ctx1\<lparr>remaining_strategies := of_nat n\<rparr>))))"
    using l(2) f by (intro view_frame [OF rd(2) t]) simp_all
  moreover have "configured_displays (cs_cm s) \<subseteq> insert t (configured_displays (cs_cm s))" by blast
  ultimately have "comp_inv hw \<lparr>cs_cm = cm1\<lparr>resource_intf := Live rd'\<rparr>,
      cs_disp = (cs_disp s)(t := Some (ctx1\<lparr>remaining_strategies := of_nat n\<rparr>))\<rparr>"
    using f by (intro comp_inv_upd [OF inv t]) simp_all
  then show ?thesis
    using c f l(1) rd(1) by (simp add: Comp_Prepare_def)
qed

lemma ctx_facts:
  assumes inv: "comp_inv hw s" and t: "cs_disp s t = Some ctx"
  obtains rd where "resource_intf (cs_cm s) = Live rd" "res_inv hw (res_view rd (cs_disp s))"
    "hw_block_ctx rd (ctx_block (display_resource_ctx ctx))" "ctx_block (display_resource_ctx ctx) \<noteq> kHWBlockMax"
    "pipes_inv hw rd" "ctx_inv t ctx"
proof -
  obtain rd where rd: "resource_intf (cs_cm s) = Live rd" "res_inv hw (res_view rd (cs_disp s))"
    using inv by (auto simp: comp_inv_def)
  moreover have "ctx_inv t ctx" using inv t by (simp add: comp_inv_def)
  ultimately show ?thesis
    using that res_inv_ctx [OF rd(2), of t "display_resource_ctx ctx"] t by simp
qed

lemma Comp_Unregister_ok:
  assumes inv: "comp_inv hw s" and t: "cs_disp s t = Some ctx"
  shows "ensures (Comp_UnregisterDisplay (Some ctx) (cs_cm s))
    (\<lambda>(e, cm'). comp_inv hw \<lparr>cs_cm = cm', cs_disp = (cs_disp s)(t := None)\<rparr>)"
proof -
  obtain rd where rd: "resource_intf (cs_cm s) = Live rd" "res_inv hw (res_view rd (cs_disp s))" "ctx_inv t ctx"
    using ctx_facts [OF inv t] .
  obtain e rd' where u: "Resource_UnregisterDisplay (display_resource_ctx ctx) rd = (e, rd')" by fastforce
  have "res_inv hw (res_view rd' ((cs_disp s)(t := None)))"
    using Unregister_inv [OF rd(2), of t "display_resource_ctx ctx" e rd'] t u
    by (simp add: res_view_upd [where rd' = rd])
  then show ?thesis
    using rd u comp_inv_displays [OF inv] by (auto simp: Comp_UnregisterDisplay_def comp_inv_def ctx_inv_def Let_def split: if_splits)
qed

lemma Comp_PostCommit_ok:
  assumes inv: "comp_inv hw s" and t: "cs_disp s t = Some ctx"
  shows "ensures (Comp_PostCommit hl ctx (cs_cm s))
    (\<lambda>(e, ctx', cm'). comp_inv hw \<lparr>cs_cm = cm', cs_disp = (cs_disp s)(t := Some ctx')\<rparr>)"
proof -
  obtain rd where rd: "resource_intf (cs_cm s) = Live rd" "res_inv hw (res_view rd (cs_disp s))"
      "ctx_block (display_resource_ctx ctx) \<noteq> kHWBlockMax" "pipes_inv hw rd" "ctx_inv t ctx"
    using ctx_facts [OF inv t] .
  obtain e cl rctx rd' where p: "Resource_PostCommit (display_resource_ctx ctx) (sync_handle hl) rd = (e, cl, rctx, rd')"
    by (cases "Resource_PostCommit (display_resource_ctx ctx) (sync_handle hl) rd")
  have same: "rd' = rd" "ctx_block rctx = ctx_block (display_resource_ctx ctx)"
    using PostCommit_pipes [OF rd(4,3) p] by simp_all
  have "comp_inv hw \<lparr>cs_cm = cm', cs_disp = (cs_disp s)(t := Some (ctx\<lparr>display_resource_ctx := rctx, idle_fallback := x\<rparr>))\<rparr>"
    if "resource_intf cm' = Live rd" "registered_displays cm' = registered_displays (cs_cm s)"
       "configured_displays cm' = insert t (configured_displays (cs_cm s))" for cm' x
  proof (rule comp_inv_upd [OF inv t that(1)])
    show "res_inv hw (res_view rd ((cs_disp s)(t := Some (ctx\<lparr>display_resource_ctx := rctx, idle_fallback := x\<rparr>))))"
      using same by (intro view_frame [OF rd(2) t frame_ok_refl [OF rd(4)]]) simp
  qed (use rd(5) that in \<open>simp_all add: ctx_inv_def\<close>)
  then show ?thesis
    using p rd(1,5) same by (simp add: Comp_PostCommit_def Let_def ctx_inv_def use_resource_def Resource_PostCommit_def)
qed

lemma Comp_Purge_ok:
  assumes inv: "comp_inv hw s" and t: "cs_disp s t = Some ctx"
    and cm: "resource_intf cm = resource_intf (cs_cm s)" "registered_displays cm = registered_displays (cs_cm s)"
      "configured_displays cm = configured_displays (cs_cm s)"
  shows "ensures (Comp_Purge ctx cm)
    (\<lambda>cm'. comp_inv hw \<lparr>cs_cm = cm'\<lparr>configured_displays := configured_displays cm' - X\<rparr>, cs_disp = (cs_disp s)(t := Some ctx)\<rparr>)"
proof -
  obtain rd where rd: "resource_intf (cs_cm s) = Live rd" "res_inv hw (res_view rd (cs_disp s))"
      "pipes_inv hw rd" "ctx_inv t ctx"
    using ctx_facts [OF inv t] .
  let ?rd = "Resource_Purge (display_resource_ctx ctx) rd"
  have "frame_ok hw (ctx_block (display_resource_ctx ctx)) rd ?rd"
    using reset_pipes_ok [OF rd(3)] by (simp add: Resource_Purge_def)
  then have "res_inv hw (res_view ?rd ((cs_disp s)(t := Some ctx)))"
    by (intro view_frame [OF rd(2) t]) simp_all
  moreover have "configured_displays (cs_cm s) - X \<subseteq> insert t (configured_displays (cs_cm s))" by blast
  ultimately have "comp_inv hw \<lparr>cs_cm = cm\<lparr>resource_intf := Live ?rd, configured_displays := configured_displays cm - X\<rparr>,
      cs_disp = (cs_disp s)(t := Some ctx)\<rparr>"
    using cm rd(4) by (intro comp_inv_upd [OF inv t]) simp_all
  then show ?thesis
    using cm rd(1) by (simp add: Comp_Purge_def use_resource_def)
qed

lemma Comp_ReConfigure_ok:
  assumes inv: "comp_inv hw s" and t: "cs_disp s t = Some ctx" and ls: "hw_layers (info hl) \<noteq> []"
  shows "ensures (Comp_ReConfigure fp hl ctx (cs_cm s))
    (\<lambda>(e, hl', cm'). comp_inv hw \<lparr>cs_cm = cm', cs_disp = (cs_disp s)(t := Some ctx)\<rparr>)"
proof -
  obtain rd where rd: "resource_intf (cs_cm s) = Live rd" "res_inv hw (res_view rd (cs_disp s))"
      "hw_block_ctx rd (ctx_block (display_resource_ctx ctx))" "ctx_block (display_resource_ctx ctx) \<noteq> kHWBlockMax"
      "pipes_inv hw rd" "ctx_inv t ctx"
    using ctx_facts [OF inv t] .
  obtain e c rd' where p: "Resource_Prepare fp (display_resource_ctx ctx) (hw_layers (info hl)) (hwl_config hl) rd = Inr (e, c, rd')"
      "frame_ok hw (ctx_block (display_resource_ctx ctx)) rd rd'"
    using Resource_Prepare_ok [OF rd(5,3,4) ls, of fp "hwl_config hl"] by (auto simp: ensures_iff)
  have "res_inv hw (res_view rd' ((cs_disp s)(t := Some ctx)))"
    using p(2) by (intro view_frame [OF rd(2) t]) simp_all
  moreover have "configured_displays (cs_cm s) \<subseteq> insert t (configured_displays (cs_cm s))" by blast
  ultimately have "comp_inv hw \<lparr>cs_cm = (cs_cm s)\<lparr>resource_intf := Live rd'\<rparr>, cs_disp = (cs_disp s)(t := Some ctx)\<rparr>"
    using rd(6) by (intro comp_inv_upd [OF inv t]) simp_all
  then show ?thesis
    using p(1) rd(1) by (simp add: Comp_ReConfigure_def Let_def)
qed

lemma Comp_Reconfigure_ok:
  assumes inv: "comp_inv hw s" and t: "cs_disp s t = Some ctx"
  shows "ensures (Comp_ReconfigureDisplay ctx a p m fb (cs_cm s))
    (\<lambda>(e, ctx', cm'). comp_inv hw \<lparr>cs_cm = cm', cs_disp = (cs_disp s)(t := Some ctx')\<rparr>)"
proof -
  obtain rd where rd: "resource_intf (cs_cm s) = Live rd" "res_inv hw (res_view rd (cs_disp s))"
      "pipes_inv hw rd" "ctx_inv t ctx"
    using ctx_facts [OF inv t] .
  obtain rctx where rc: "Resource_ReconfigureDisplay (display_resource_ctx ctx) a m = (kErrorNone, rctx)"
      "ctx_block rctx = ctx_block (display_resource_ctx ctx)"
    by (simp add: Resource_ReconfigureDisplay_def)
  let ?ctx = "ctx\<lparr>display_resource_ctx := rctx, scaled_composition := NeedsScaledComposition fb m, fb_config := fb\<rparr>"
  have "comp_inv hw \<lparr>cs_cm = cm', cs_disp = (cs_disp s)(t := Some ?ctx)\<rparr>"
    if "resource_intf cm' = Live rd" "registered_displays cm' = registered_displays (cs_cm s)"
       "configured_displays cm' = configured_displays (cs_cm s)" for cm'
  proof (rule comp_inv_upd [OF inv t that(1)])
    show "res_inv hw (res_view rd ((cs_disp s)(t := Some ?ctx)))"
      using rc(2) by (intro view_frame [OF rd(2) t frame_ok_refl [OF rd(3)]]) simp
    show "configured_displays cm' \<subseteq> insert t (configured_displays (cs_cm s))" using that(3) by blast
  qed (use rd(4) that in \<open>simp_all add: ctx_inv_def\<close>)
  then show ?thesis
    using rc(1) rd(1) by (simp add: Comp_ReconfigureDisplay_def Strategy_Reconfigure_def)
qed

lemma SetDisplayState_ok:
  assumes inv: "comp_inv hw s" and t: "cs_disp s t = Some ctx"
  shows "ensures (SetDisplayState st (display_type ctx) (Some ctx) (cs_cm s))
    (\<lambda>(ok, cm'). comp_inv hw \<lparr>cs_cm = cm', cs_disp = (cs_disp s)(t := Some ctx)\<rparr>)"
proof (cases "st = kStateOff")
  case True
  let ?cm = "(cs_cm s)\<lparr>display_state := (display_state (cs_cm s))(display_type ctx := kStateOff)\<rparr>"
  show ?thesis
    using Comp_Purge_ok [OF inv t, of ?cm "{display_type ctx}"] True
    by (auto simp: SetDisplayState_def ensures_iff)
next
  case False
  have "configured_displays (cs_cm s) \<subseteq> insert t (configured_displays (cs_cm s))" by blast
  then have "comp_inv hw \<lparr>cs_cm = cm', cs_disp = (cs_disp s)(t := Some ctx)\<rparr>"
    if "resource_intf cm' = resource_intf (cs_cm s)" "registered_displays cm' = registered_displays (cs_cm s)"
       "configured_displays cm' = configured_displays (cs_cm s)" for cm'
    using that comp_inv_displays(3) [OF inv] t by (intro comp_inv_ctx [OF inv t]) simp_all
  then show ?thesis
    using False by (cases st) (simp_all add: SetDisplayState_def Let_def)
qed

lemma PrePrepare_ctx:
  assumes "PrePrepare hl ctx = (hl', ctx')" "ctx_inv t ctx"
  shows "ctx_inv t ctx' \<and> display_resource_ctx ctx' = display_resource_ctx ctx"
  using assms
  by (auto simp: PrePrepare_def Strategy_Start_def ctx_inv_def Let_def split: if_splits)

lemma comp_on_ok:
  assumes inv: "comp_inv hw s" and t: "cs_disp s t = Some ctx" and ok: "comp_client_ok (COn t op) s"
  shows "ensures (comp_on fp op ctx (cs_cm s))
    (\<lambda>(ctx', cm'). comp_inv hw \<lparr>cs_cm = cm', cs_disp = (cs_disp s)(t := ctx')\<rparr>)"
proof -
  have ci: "ctx_inv t ctx" using comp_inv_displays(3) [OF inv] t by simp
  have same: "comp_inv hw \<lparr>cs_cm = cs_cm s, cs_disp = (cs_disp s)(t := Some ctx')\<rparr>"
    if "display_resource_ctx ctx' = display_resource_ctx ctx" "ctx_inv t ctx'" for ctx'
    using that by (intro comp_inv_ctx [OF inv t]) blast+
  show ?thesis
  proof (cases op)
    case CUnregister
    then show ?thesis using Comp_Unregister_ok [OF inv t] by (auto simp: ensures_iff)
  next
    case (CReconfigure a p m fb)
    then show ?thesis using Comp_Reconfigure_ok [OF inv t, of a p m fb] by (auto simp: ensures_iff)
  next
    case (CPrePrepare hl)
    obtain hl' ctx' where "PrePrepare hl ctx = (hl', ctx')" by fastforce
    then show ?thesis using PrePrepare_ctx [OF _ ci] same CPrePrepare by simp
  next
    case (CPrepare hl)
    then show ?thesis using Comp_Prepare_ok [OF inv t, of hl fp] ok by (auto simp: ensures_iff)
  next
    case (CReConfigureFrame hl)
    then show ?thesis using Comp_ReConfigure_ok [OF inv t, of hl fp] ok by (auto simp: ensures_iff)
  next
    case (CPostCommit hl)
    then show ?thesis using Comp_PostCommit_ok [OF inv t, of hl] by (auto simp: ensures_iff)
  next
    case CPurge
    then show ?thesis
      using Comp_Purge_ok [OF inv t, of "cs_cm s" "{}"] by (auto simp: ensures_iff)
  next
    case CIdleTimeout
    then show ?thesis using ci by (simp add: ProcessIdleTimeout_def same ctx_inv_def)
  next
    case (CThermal n)
    then show ?thesis using ci by (simp add: ProcessThermalEvent_def same ctx_inv_def)
  next
    case (CPartialUpdate b)
    then show ?thesis using ci by (simp add: ControlPartialUpdate_def same ctx_inv_def)
  next
    case (CCompositionState ty b)
    then show ?thesis
      using ci by (simp add: Comp_SetCompositionState_def Strategy_SetCompositionState_def same ctx_inv_def)
  next
    case (CDisplayState st)
    then show ?thesis using SetDisplayState_ok [OF inv t, of st] by (auto simp: ensures_iff)
  qed
qed

lemma Comp_Register_ok:
  assumes inv: "comp_inv hw s"
  shows "ensures (Comp_RegisterDisplay dbg t a p m fb (cs_cm s))
    (\<lambda>(e, ctx, cm). comp_inv hw \<lparr>cs_cm = cm, cs_disp = (if e = kErrorNone then (cs_disp s)(t := ctx) else cs_disp s)\<rparr>)"
proof -
  obtain rd where rd: "resource_intf (cs_cm s) = Live rd" "res_inv hw (res_view rd (cs_disp s))"
    using inv by (auto simp: comp_inv_def)
  obtain e rctx rd' where r: "Resource_RegisterDisplay t a m rd = (e, rctx, rd')"
    by (cases "Resource_RegisterDisplay t a m rd")
  show ?thesis
  proof (cases rctx)
    case None
    then have "e \<noteq> kErrorNone"
      using r by (auto simp: Resource_RegisterDisplay_def split: option.splits if_splits)
    then show ?thesis
      using inv r rd(1) None by (auto simp: Comp_RegisterDisplay_def comp_inv_def)
  next
    case (Some c)
    have v: "res_inv hw (res_view rd' ((cs_disp s)(t := Some ctx)))"
      if "display_resource_ctx ctx = c" for ctx
      using Register_inv [OF rd(2), of t a m e c rd'] r Some that
      by (simp add: res_view_upd [where rd' = rd])
    show ?thesis
      using r rd(1) Some comp_inv_displays [OF inv]
      by (auto simp: Comp_RegisterDisplay_def comp_inv_def Let_def ctx_inv_def intro!: v)
  qed
qed

lemma comp_exec_ok:
  assumes inv: "comp_inv hw s" and ok: "comp_client_ok op s"
  shows "ensures (comp_exec dbg fp op s) (comp_inv hw)"
proof (cases op)
  case (CRegister t a p m fb)
  then show ?thesis
    using Comp_Register_ok [OF inv, of dbg t a p m fb] by (auto simp: ensures_iff)
next
  case (COn t d)
  then obtain ctx where "cs_disp s t = Some ctx" using ok by (cases d) auto
  then show ?thesis
    using comp_on_ok [OF inv, of t ctx d fp] ok COn by (auto simp: ensures_iff)
qed

lemma comp_inv_start:
  assumes hw: "ordered_hw hw" and init: "CompManager_Init hw = Inr (e, cm)"
  shows "comp_inv hw (comp_start cm)"
proof -
  obtain rd where i: "Resource_Init (ResourceDefault_new hw) = Inr (kErrorNone, rd)"
    using Resource_Init_ordered [OF hw] by blast
  then have "res_inv hw (res_view rd (\<lambda>_. None))"
    using res_inv_start [OF hw i] by (simp add: res_start_def res_view_def)
  then show ?thesis
    using init i by (auto simp: CompManager_Init_def CreateResourceDefault_def comp_inv_def comp_start_def)
qed

interpretation comp: step_system "comp_step dbg fp" "\<lambda>_. True" "comp_inv hw" for dbg fp hw
proof
  fix op s t
  assume "comp_step dbg fp op s t" "comp_inv hw s"
  then show "comp_inv hw t"
    using comp_exec_ok [of hw s op dbg fp] by (auto simp: comp_step_def ensures_iff)
qed

lemma comp_reachable:
  assumes "ordered_hw hw" "CompManager_Init hw = Inr (e, cm)" "run (comp_step dbg fp) (comp_start cm) ops s"
  shows "comp_inv hw s"
  using comp.inv_run [OF assms(3) _ comp_inv_start [OF assms(1,2)]] by (simp add: list_all_iff)

subsection \<open>A frame in the resolution of the mixer\<close>

lemma GetNextStrategy_unscaled:
  assumes f: "gpu_frame st i" and st: "st_started st" "\<not> disable_gpu_comp st"
  shows "\<exists>layer i'. GetNextStrategy fp st i = Inr (kErrorNone, i') \<and> hw_layers i' = [layer] \<and>
    full_frame (uint (mix_width (st_mixer st))) (uint (mix_height (st_mixer st))) layer"
proof -
  let ?g = "unat (gpu_target_index i)" and ?n = "unat (app_layer_count i)"
  let ?W = "uint (mix_width (st_mixer st))" and ?H = "uint (mix_height (st_mixer st))"
  define layer where "layer = layers (stack i) ! ?g"
  have wf: "?n \<le> length (layers (stack i))" "?g < length (layers (stack i))" "?n \<le> ?g"
    and fb: "x_pixels (st_fb_config st) = mix_width (st_mixer st)" "y_pixels (st_fb_config st) = mix_height (st_mixer st)"
    and full: "full_frame ?W ?H layer"
    using f by (auto simp: gpu_frame_def frame_wf_def layer_def)
  have d: "FLOAT (mix_width (st_mixer st)) = fint ?W" "FLOAT (mix_height (st_mixer st)) = fint ?H" "Fin 0 = fint 0"
    using full by (auto simp: full_frame_def whole_rect_def FLOAT_exact fint_def)
  have m: "MapRect fp (irect 0 0 ?W ?H) (irect 0 0 ?W ?H) (dst_rect layer) (dst_rect layer) = dst_rect layer"
    using full MapRect_same by (auto simp: full_frame_def whole_rect_def)
  have "layer\<lparr>dst_rect := dst_rect layer\<rparr> = layer" by simp
  then show ?thesis
    using st wf full m
    by (simp add: GetNextStrategy_def Let_def nth_append layer_def fb d flip: irect_def)
qed

lemma skip_layers_frame: "gpu_frame st i \<Longrightarrow> gpu_frame st (i\<lparr>stack := skip_layers (stack i)\<rparr>)"
  by (simp add: gpu_frame_def frame_wf_def skip_layers_def full_frame_def)

lemma PrepareStrategyConstraints_facts:
  assumes "PrepareStrategyConstraints hl ctx cm = (hl', ctx', cm')"
  shows "resource_intf cm' = resource_intf cm" "strategy ctx' = strategy ctx"
    "display_resource_ctx ctx' = display_resource_ctx ctx" "remaining_strategies ctx' = remaining_strategies ctx"
    "gpu_frame st (info hl) \<Longrightarrow> gpu_frame st (info hl')"
  using assms skip_layers_frame
  by (auto simp: PrepareStrategyConstraints_def external_constraints_def Let_def split: if_splits prod.splits)

lemma GenerateROI_frame: "gpu_frame st' (GenerateROI st i) = gpu_frame st' i"
  by (simp add: gpu_frame_def frame_wf_def GenerateROI_def Let_def)

lemma started_frame: "gpu_frame (st\<lparr>st_started := b\<rparr>) i = gpu_frame st i"
  by (simp add: gpu_frame_def)

lemma PrePrepare_started:
  assumes f: "gpu_frame (strategy ctx) (info hl)" and p: "PrePrepare hl ctx = (hl', ctx')"
    and g: "\<not> disable_gpu_comp (strategy ctx)"
  shows "gpu_frame (strategy ctx') (info hl')" "st_started (strategy ctx')" "\<not> disable_gpu_comp (strategy ctx')"
    "remaining_strategies ctx' = 1" "display_resource_ctx ctx' = display_resource_ctx ctx"
    "st_mixer (strategy ctx') = st_mixer (strategy ctx)"
  using f p g gpu_frame_def [of "strategy ctx" "info hl"]
  by (auto simp: PrePrepare_def Strategy_Start_def Let_def GenerateROI_frame started_frame)

subsection \<open>Safe mode\<close>

lemma Comp_Prepare_modes:
  assumes "Comp_Prepare fp hl ctx cm = Inr (e, hl', ctx', cm')"
  shows "configured_displays cm' = configured_displays cm \<and> safe_mode cm' = safe_mode cm"
proof -
  obtain hl1 ctx1 cm1 where p: "PrepareStrategyConstraints hl ctx cm = (hl1, ctx1, cm1)"
    by (cases "PrepareStrategyConstraints hl ctx cm")
  show ?thesis
    using assms PrepareStrategyConstraints_frame [OF p] by (auto simp: Comp_Prepare_def p mbind_eq_Inr_iff)
qed

lemma Comp_ReConfigure_modes:
  "Comp_ReConfigure fp hl ctx cm = Inr (e, hl', cm') \<Longrightarrow>
     configured_displays cm' = configured_displays cm \<and> safe_mode cm' = safe_mode cm"
  by (auto simp: Comp_ReConfigure_def mbind_eq_Inr_iff)

lemma Comp_Reconfigure_modes:
  "Comp_ReconfigureDisplay ctx a p m fb cm = Inr (e, ctx', cm') \<Longrightarrow>
     configured_displays cm' = configured_displays cm \<and> safe_mode cm' = safe_mode cm"
  by (auto simp: Comp_ReconfigureDisplay_def Strategy_Reconfigure_def Let_def mbind_eq_Inr_iff split: prod.splits if_splits)

lemma Comp_Purge_modes:
  "Comp_Purge ctx cm = Inr cm' \<Longrightarrow> configured_displays cm' = configured_displays cm \<and> safe_mode cm' = safe_mode cm"
  by (auto simp: Comp_Purge_def mbind_eq_Inr_iff)

lemma Comp_Unregister_modes:
  "Comp_UnregisterDisplay (Some ctx) cm = Inr (e, cm') \<Longrightarrow>
     configured_displays cm' = configured_displays cm - {display_type ctx} \<and> safe_mode cm' = safe_mode cm"
  by (auto simp: Comp_UnregisterDisplay_def Resource_UnregisterDisplay_def Let_def mbind_eq_Inr_iff split: if_splits)

lemma Comp_PostCommit_modes:
  assumes "Comp_PostCommit hl ctx cm = Inr (e, ctx', cm')"
  shows "configured_displays cm' = insert (display_type ctx) (configured_displays cm) \<and>
    registered_displays cm' = registered_displays cm \<and>
    safe_mode cm' = (safe_mode cm \<and> configured_displays cm' \<noteq> registered_displays cm)"
proof -
  define c where "c = insert (display_type ctx) (configured_displays cm)"
  obtain rd where rd: "resource_intf cm = Live rd"
    using assms by (cases "resource_intf cm") (simp_all add: Comp_PostCommit_def use_resource_def Let_def)
  obtain e' closed rctx rd' where "Resource_PostCommit (display_resource_ctx ctx) (sync_handle hl) rd = (e', closed, rctx, rd')"
    by (cases "Resource_PostCommit (display_resource_ctx ctx) (sync_handle hl) rd")
  then have "cm' = cm\<lparr>configured_displays := c, safe_mode := (if c = registered_displays cm then False else safe_mode cm),
      resource_intf := Live rd'\<rparr>"
    using assms rd by (auto simp: Comp_PostCommit_def Let_def simp flip: c_def split: if_splits)
  then show ?thesis
    unfolding c_def [symmetric] by simp
qed

lemma SetDisplayState_modes:
  "SetDisplayState st t ctx cm = Inr (ok, cm') \<Longrightarrow>
     configured_displays cm' = shown_by (COn t (CDisplayState st)) (configured_displays cm) \<and>
     (safe_mode cm \<longrightarrow> safe_mode cm')"
  by (cases st) (auto simp: SetDisplayState_def Let_def mbind_eq_Inr_iff dest!: Comp_Purge_modes split: if_splits option.splits)

lemmas comp_modes = Comp_Prepare_modes Comp_ReConfigure_modes Comp_Reconfigure_modes Comp_Purge_modes
  Comp_Unregister_modes Comp_PostCommit_modes SetDisplayState_modes

lemma comp_on_modes:
  "comp_on fp d ctx cm = Inr (ctx', cm') \<Longrightarrow> display_type ctx = t \<Longrightarrow> modes_ok t d cm cm'"
  by (cases d) (auto simp: modes_ok_def mbind_eq_Inr_iff dest!: comp_modes)

lemma Comp_Register_modes:
  assumes "Comp_RegisterDisplay dbg t a p m fb cm = Inr (e, ctx, cm')"
  shows "configured_displays cm' = configured_displays cm \<and> (safe_mode cm \<longrightarrow> safe_mode cm')"
proof -
  obtain rd where rd: "use_resource cm = Inr rd"
    using assms by (auto simp: Comp_RegisterDisplay_def mbind_eq_Inr_iff)
  obtain e' c rd' where "Resource_RegisterDisplay t a m rd = (e', c, rd')"
    by (cases "Resource_RegisterDisplay t a m rd")
  then show ?thesis
    using assms rd by (cases c) (auto simp: Comp_RegisterDisplay_def Let_def split: if_splits)
qed

lemma comp_step_modes:
  assumes "comp_step dbg fp op s s'" "comp_inv hw s"
  shows "configured_displays (cs_cm s') = shown_by op (configured_displays (cs_cm s))"
    "safe_mode (cs_cm s) \<Longrightarrow> \<not> safe_mode (cs_cm s') \<Longrightarrow>
       (\<exists>t hl. op = COn t (CPostCommit hl)) \<and> configured_displays (cs_cm s') = registered_displays (cs_cm s')"
proof -
  have "configured_displays (cs_cm s') = shown_by op (configured_displays (cs_cm s)) \<and>
    (safe_mode (cs_cm s) \<and> \<not> safe_mode (cs_cm s') \<longrightarrow>
       (\<exists>t hl. op = COn t (CPostCommit hl)) \<and> configured_displays (cs_cm s') = registered_displays (cs_cm s'))"
  proof (cases op)
    case (CRegister t a p m fb)
    then obtain e ctx cm' where "Comp_RegisterDisplay dbg t a p m fb (cs_cm s) = Inr (e, ctx, cm')" "cs_cm s' = cm'"
      using assms(1) by (auto simp: comp_step_def mbind_eq_Inr_iff)
    then show ?thesis
      using Comp_Register_modes CRegister by (metis shown_by.simps(4))
  next
    case (COn t d)
    then obtain ctx ctx' cm' where "cs_disp s t = Some ctx" "comp_on fp d ctx (cs_cm s) = Inr (ctx', cm')" "cs_cm s' = cm'"
      using assms(1) by (auto simp: comp_step_def mbind_eq_Inr_iff split: option.splits)
    moreover from this have "display_type ctx = t"
      using assms(2) by (auto simp: comp_inv_def ctx_inv_def)
    ultimately have "modes_ok t d (cs_cm s) (cs_cm s')"
      using comp_on_modes by blast
    then show ?thesis
      unfolding modes_ok_def COn by blast
  qed
  then show "configured_displays (cs_cm s') = shown_by op (configured_displays (cs_cm s))"
    "safe_mode (cs_cm s) \<Longrightarrow> \<not> safe_mode (cs_cm s') \<Longrightarrow>
       (\<exists>t hl. op = COn t (CPostCommit hl)) \<and> configured_displays (cs_cm s') = registered_displays (cs_cm s')"
    by blast+
qed

text \<open>The configured displays refine the displays that show a frame.\<close>

interpretation shown: forward_simulation "comp_step dbg fp" "\<lambda>_. True" "comp_inv hw"
    "\<lambda>op d d'. d' = shown_by op d" "\<lambda>s. configured_displays (cs_cm s)" for dbg fp hw
  by unfold_locales (rule comp_step_modes)

lemma run_shown: "run (\<lambda>op d d'. d' = shown_by op d) d ops d' \<Longrightarrow> d' = fold shown_by ops d"
  by (induction rule: run.induct) auto

lemma configured_shown:
  assumes "comp_inv hw (comp_start cm)" "configured_displays cm = {}" "run (comp_step dbg fp) (comp_start cm) ops s"
  shows "configured_displays (cs_cm s) = shown ops"
  using run_shown [OF shown.sim_run [OF assms(3) _ assms(1)]] assms(2)
  by (simp add: shown_def comp_start_def list_all_iff)

lemma Init_none_configured: "CompManager_Init hw = Inr (e, cm) \<Longrightarrow> configured_displays cm = {}"
  by (auto simp: CompManager_Init_def mbind_eq_Inr_iff)

subsection \<open>Properties\<close>

lemma cm0_init: "CompManager_Init hw0 = Inr (kErrorNone, cm0)"
  by (simp add: CompManager_Init_def CreateResourceDefault_def hw0_init cm0_def rd0_def)

lemma comp_run0: "run (comp_step dbg0 fp0) (comp_start cm0) [CRegister kPrimary attr0 panel0 mixer0 fb0] comp_sys0"
  by (auto simp: run_Cons_iff comp_step_def Comp_RegisterDisplay_def Resource_RegisterDisplay_def block_of_def comp_start_def
      cm0_def comp_sys0_def comp_ctx0_def panel0_def sys0_def rd0_def ctx0_def NeedsScaledComposition_def mixer0_def fb0_def
      fun_eq_iff)

text \<open>
  C9: No request of a client that uses its own live contexts makes the composition manager fault or
  lose track.  In every reachable state it returns, holds a resource manager that satisfies its
  invariant for the contexts of the registered displays, has exactly the displays with a context
  registered, and counts as configured only registered displays.
\<close>

theorem comp_requests_safe:
  assumes "ordered_hw hw" and "CompManager_Init hw = Inr (e0, cm)"
    and "run (comp_step dbg fp) (comp_start cm) ops s" and "comp_client_ok op s"
  shows "ensures (comp_exec dbg fp op s) (\<lambda>s'.
    (\<exists>rd. resource_intf (cs_cm s') = Live rd \<and> res_inv hw (res_view rd (cs_disp s'))) \<and>
    registered_displays (cs_cm s') = {t. cs_disp s' t \<noteq> None} \<and>
    configured_displays (cs_cm s') \<subseteq> registered_displays (cs_cm s'))"
  using comp_exec_ok [OF comp_reachable [OF assms(1-3)] assms(4), of dbg fp]
  by (rule ensures_mono) (auto simp: comp_inv_def)

text \<open>
  C26: Safe mode ends only when every registered display shows a frame.  A request that takes the
  manager out of safe mode is a commit, and after it the registered displays are exactly those with
  a commit since they were last switched off.
\<close>

theorem safe_mode_exit:
  assumes "ordered_hw hw" and "CompManager_Init hw = Inr (e0, cm)"
    and "run (comp_step dbg fp) (comp_start cm) ops s" and "comp_step dbg fp op s s'"
    and "safe_mode (cs_cm s)" "\<not> safe_mode (cs_cm s')"
  shows "(\<exists>t hl. op = COn t (CPostCommit hl)) \<and> registered_displays (cs_cm s') = shown (ops @ [op])"
proof -
  note inv = comp_reachable [OF assms(1-3)]
  have "configured_displays (cs_cm s) = shown ops"
    using configured_shown [OF comp_inv_start [OF assms(1,2)] Init_none_configured [OF assms(2)] assms(3)] .
  then show ?thesis
    using comp_step_modes [OF assms(4) inv] assms(5,6) by (simp add: shown_def)
qed

theorem comp_requests_safe_witness:
  "ensures (comp_exec dbg0 fp0 (COn kPrimary (CPostCommit hwl0)) comp_sys0) (\<lambda>s'.
    (\<exists>rd. resource_intf (cs_cm s') = Live rd \<and> res_inv hw0 (res_view rd (cs_disp s'))) \<and>
    registered_displays (cs_cm s') = {t. cs_disp s' t \<noteq> None} \<and>
    configured_displays (cs_cm s') \<subseteq> registered_displays (cs_cm s'))"
  using comp_requests_safe [OF hw0_ordered cm0_init comp_run0, of "COn kPrimary (CPostCommit hwl0)"]
  by (simp add: comp_sys0_def)

lemma hdmi_run: "run (comp_step dbg0 fp0) (comp_start cm0) [CRegister kHDMI attr0 hdmi_panel mixer0 fb0] hdmi_sys"
  by (auto simp: run_Cons_iff comp_step_def Comp_RegisterDisplay_def Resource_RegisterDisplay_def block_of_def comp_start_def
      cm0_def hdmi_sys_def hdmi_ctx_def comp_ctx0_def hdmi_panel_def panel0_def rd0_def ctx0_def dbg0_def
      default_settings NeedsScaledComposition_def mixer0_def fb0_def fun_eq_iff)

lemma hdmi_commit: "comp_step dbg0 fp0 (COn kHDMI (CPostCommit hwl0)) hdmi_sys hdmi_shown"
  by (auto simp: comp_step_def Comp_PostCommit_def Resource_PostCommit_def Let_def hdmi_sys_def hdmi_shown_def hdmi_ctx_def
      comp_ctx0_def ctx0_def cm0_def fun_eq_iff)

theorem safe_mode_exit_witness:
  "registered_displays (cs_cm hdmi_shown) =
     shown ([CRegister kHDMI attr0 hdmi_panel mixer0 fb0] @ [COn kHDMI (CPostCommit hwl0)])"
  using safe_mode_exit [OF hw0_ordered cm0_init hdmi_run hdmi_commit]
  by (simp add: hdmi_sys_def hdmi_shown_def)

lemma gpu_frame_composed:
  assumes inv: "comp_inv hw s" and t: "cs_disp s t = Some ctx"
    and fr: "gpu_frame (strategy ctx) (info hl)" and gpu: "\<not> disable_gpu_comp (strategy ctx)"
    and hw: "uint (mix_width (st_mixer (strategy ctx))) \<le> 2 * uint (max_pipe_width hw)"
      "is_src_split hw" "uint (max_pipe_width hw) \<le> 2 ^ 24" "uint (max_scale_down hw) \<le> 2 ^ 24"
    and rd: "resource_intf (cs_cm s) = Live rd" "2 \<le> spare (ctx_block (display_resource_ctx ctx)) rd"
    and p: "PrePrepare hl ctx = (hl1, ctx1)"
  shows "ensures (Comp_Prepare fp hl1 ctx1 (cs_cm s)) (\<lambda>(e, hl', ctx', cm'). e = kErrorNone)"
proof -
  obtain hl2 ctx2 cm2 where q: "PrepareStrategyConstraints hl1 ctx1 (cs_cm s) = (hl2, ctx2, cm2)"
    by (cases "PrepareStrategyConstraints hl1 ctx1 (cs_cm s)")
  note p' = PrePrepare_started [OF fr p gpu] and q' = PrepareStrategyConstraints_facts [OF q]
  have res: "res_inv hw (res_view rd (cs_disp s))"
    using inv rd(1) by (auto simp: comp_inv_def)
  have r: "pipes_inv hw rd" "hw_block_ctx rd (ctx_block (display_resource_ctx ctx))"
    using res_inv_ctx [OF res, of t "display_resource_ctx ctx"] t by simp_all
  obtain layer i where g: "GetNextStrategy fp (strategy ctx2) (info hl2) = Inr (kErrorNone, i)" "hw_layers i = [layer]"
      "full_frame (uint (mix_width (st_mixer (strategy ctx)))) (uint (mix_height (st_mixer (strategy ctx)))) layer"
    using GetNextStrategy_unscaled [of "strategy ctx2" "info hl2" fp] p' q' by auto
  obtain c rd' where "Resource_Prepare fp (display_resource_ctx ctx2) [layer] (hwl_config hl2) rd = Inr (kErrorNone, c, rd')"
    using Prepare_unscaled [OF r g(3) hw(2-4) hw(1) rd(2), of fp "hwl_config hl2"] p' q' by (auto simp: ensures_iff)
  then show ?thesis
    using g p' q q' rd(1) by (simp add: Comp_Prepare_def)
qed

text \<open>
  C12: Composing a frame succeeds on the first attempt.  In every state the clients can bring the
  manager to, for a registered display with GPU composition enabled and a frame in the resolution
  of the mixer (no wider than two pipes, on hardware that splits a source over two pipes),
  \<open>PrePrepare\<close> followed by \<open>Prepare\<close> returns \<open>kErrorNone\<close> when two pipes are free or already the
  display's.
\<close>

theorem full_frame_composed:
  assumes "ordered_hw hw" and "CompManager_Init hw = Inr (e0, cm)"
    and "run (comp_step dbg fp) (comp_start cm) ops s" and "cs_disp s t = Some ctx"
    and "gpu_frame (strategy ctx) (info hl)" and "\<not> disable_gpu_comp (strategy ctx)"
    and "uint (mix_width (st_mixer (strategy ctx))) \<le> 2 * uint (max_pipe_width hw)"
    and "is_src_split hw" "uint (max_pipe_width hw) \<le> 2 ^ 24" "uint (max_scale_down hw) \<le> 2 ^ 24"
    and "resource_intf (cs_cm s) = Live rd" and "2 \<le> spare (ctx_block (display_resource_ctx ctx)) rd"
  shows "ensures (let (hl', ctx') = PrePrepare hl ctx in Comp_Prepare fp hl' ctx' (cs_cm s))
    (\<lambda>(e, hl', ctx', cm'). e = kErrorNone)"
proof -
  obtain hl1 ctx1 where "PrePrepare hl ctx = (hl1, ctx1)" by (cases "PrePrepare hl ctx")
  then show ?thesis
    using gpu_frame_composed [OF comp_reachable [OF assms(1-3)] assms(4-12), of hl1 ctx1 fp] by simp
qed

theorem full_frame_composed_witness:
  "ensures (let (hl', ctx') = PrePrepare hwl0 comp_ctx0 in Comp_Prepare fp0 hl' ctx' (cs_cm comp_sys0))
    (\<lambda>(e, hl', ctx', cm'). e = kErrorNone)"
proof -
  have "2 \<le> spare kHWPrimary (sys_rd sys0)"
    by (simp add: spare_def sys0_def rd0_def hw0_def hw_total_def upt_rec init_pipe_def placed_def boot_pipe_def)
  moreover have "gpu_frame (strategy comp_ctx0) (info hwl0)"
    using layer0_full by (simp add: gpu_frame_def frame_wf_def comp_ctx0_def Strategy_new_def hwl0_def fb0_def mixer0_def)
  ultimately show ?thesis
    using full_frame_composed [OF hw0_ordered cm0_init comp_run0, of kPrimary comp_ctx0 hwl0 "sys_rd sys0"]
    by (simp add: comp_sys0_def comp_ctx0_def Strategy_new_def mixer0_def hw0_def ctx0_def)
qed

subsection \<open>Defects\<close>

text \<open>Reconfiguring a frame reports success even when no pipe was programmed.\<close>

lemma ReConfigure_hides_failure:
  "Comp_ReConfigure fp hl ctx cm = Inr (e, hl', cm') \<Longrightarrow> e = kErrorNone"
  by (auto simp: Comp_ReConfigure_def mbind_eq_Inr_iff split: if_splits)

text \<open>
  After the resolution changed, the strategy still maps the target of the GPU with the old one: the
  new frame buffer and mixer reach the context, not the strategy.
\<close>

lemma Reconfigure_keeps_resolution:
  "Comp_ReconfigureDisplay ctx a p m fb cm = Inr (e, ctx', cm') \<Longrightarrow>
     strategy ctx' = strategy ctx \<and> (e = kErrorNone \<longrightarrow> fb_config ctx' = fb)"
  by (auto simp: Comp_ReconfigureDisplay_def Strategy_Reconfigure_def Let_def mbind_eq_Inr_iff split: prod.splits if_splits)

text \<open>
  When \<open>Start\<close> refuses a frame without a target of the GPU, \<open>PrePrepare\<close> keeps the number of
  attempts of the frame before, and \<open>Prepare\<close> goes on to compose with the first layer.
\<close>

lemma PrePrepare_ignores_refusal:
  "gpu_target_index (info hl) = 0 \<Longrightarrow> \<not> disable_gpu_comp (strategy ctx) \<Longrightarrow>
     fst (Strategy_Start (strategy ctx) (info hl)) = kErrorNotSupported \<and>
     remaining_strategies (snd (PrePrepare hl ctx)) = max_strategies ctx"
  by (simp add: PrePrepare_def Strategy_Start_def Let_def)

text \<open>Without pipes the initialisation succeeds, and the first display uses a deleted object.\<close>

lemma Init_dangling:
  "total_pipes hw = 0 \<Longrightarrow> \<exists>cm. CompManager_Init hw = Inr (kErrorNone, cm) \<and>
     Comp_RegisterDisplay dbg t a p m fb cm = Inl NullDeref"
  by (simp add: CompManager_Init_def Create_returns_deleted Comp_RegisterDisplay_def use_resource_def)

end
